(* ===== verification/Prelude.thy ===== *)
theory Prelude
  imports Main "HOL-Library.Word" "HOL-Library.Monad_Syntax"
begin

text \<open>
  Shared vocabulary of the development: the machine integers the Rust sources use, the
  \<^verbatim>\<open>Result\<close> type with its two threaded variants (the fallible allocator state of the
  stage phase and the block memory of the commit phase), the outcome of an operation that
  may also panic, run into undefined behaviour or give up on a hostile host, little-endian
  byte representations, and the memory region that backs a sallyport block.

  The lemma collections: \<open>outcome_simps\<close> unfolds the plumbing of the three result
  types, \<open>byte_simps\<close> holds the round trips between words and their bytes, and
  \<open>mem_simps\<close> the read-over-write facts of a memory region.
\<close>

named_theorems outcome_simps
named_theorems byte_simps
named_theorems mem_simps

section \<open>Machine integers\<close>

text \<open>
  \<^verbatim>\<open>usize\<close> is a 64-bit word on the only target of the crate (x86-64), \<^verbatim>\<open>c_int\<close>
  a 32-bit word read as two's complement. Slice lengths, byte offsets and addresses that the
  code only ever compares and adds under a check are natural numbers; the checks against
  \<^verbatim>\<open>usize::MAX\<close> and \<^verbatim>\<open>isize::MAX\<close> are written out.
\<close>

type_synonym byte = "8 word"
type_synonym usize = "64 word"
type_synonym c_int = "32 word"

definition usize_limit :: nat where
  "usize_limit = 2 ^ 64"

definition isize_limit :: nat where
  "isize_limit = 2 ^ 63"

definition checked_add :: "nat \<Rightarrow> nat \<Rightarrow> nat option" where
  "checked_add a b = (if a + b < usize_limit then Some (a + b) else None)"

definition checked_mul :: "nat \<Rightarrow> nat \<Rightarrow> nat option" where
  "checked_mul a b = (if a * b < usize_limit then Some (a * b) else None)"

definition checked_sub :: "nat \<Rightarrow> nat \<Rightarrow> nat option" where
  "checked_sub a b = (if b \<le> a then Some (a - b) else None)"

text \<open>The \<^verbatim>\<open>as\<close> casts between the two integer types: widening a signed integer
  extends its sign, narrowing truncates.\<close>

abbreviation as_usize :: "c_int \<Rightarrow> usize" where
  "as_usize x \<equiv> scast x"

abbreviation as_int :: "usize \<Rightarrow> c_int" where
  "as_int x \<equiv> ucast x"

text \<open>A length or an offset as a \<^verbatim>\<open>usize\<close> word.\<close>

definition to_usize :: "nat \<Rightarrow> usize" where
  "to_usize n = of_nat n"

lemma unat_to_usize: "n < usize_limit \<Longrightarrow> unat (to_usize n) = n"
  by (simp add: to_usize_def usize_limit_def unat_of_nat)

lemma to_usize_unat [simp]: "to_usize (unat w) = w"
  by (simp add: to_usize_def)

lemma unat_usize_less: "unat (w :: usize) < usize_limit"
  using unsigned_less [of w] by (simp add: usize_limit_def)

lemma checked_add_Some [simp]:
  "checked_add a b = Some c \<longleftrightarrow> c = a + b \<and> a + b < usize_limit"
  by (auto simp: checked_add_def)

lemma checked_mul_Some [simp]:
  "checked_mul a b = Some c \<longleftrightarrow> c = a * b \<and> a * b < usize_limit"
  by (auto simp: checked_mul_def)

lemma checked_sub_Some [simp]:
  "checked_sub a b = Some c \<longleftrightarrow> c = a - b \<and> b \<le> a"
  by (auto simp: checked_sub_def)

section \<open>Results and outcomes\<close>

text \<open>\<^verbatim>\<open>crate::Result<T>\<close> is \<^verbatim>\<open>core::result::Result<T, c_int>\<close>: an error is an
  errno value.\<close>

type_synonym 'a result = "c_int + 'a"

abbreviation Err :: "c_int \<Rightarrow> 'a result" where
  "Err \<equiv> Inl"

abbreviation Ok :: "'a \<Rightarrow> 'a result" where
  "Ok \<equiv> Inr"

definition rbind :: "'a result \<Rightarrow> ('a \<Rightarrow> 'b result) \<Rightarrow> 'b result" where
  "rbind r f = (case r of Inl e \<Rightarrow> Inl e | Inr x \<Rightarrow> f x)"

definition rmap :: "('a \<Rightarrow> 'b) \<Rightarrow> 'a result \<Rightarrow> 'b result" where
  "rmap f r = (case r of Inl e \<Rightarrow> Inl e | Inr x \<Rightarrow> Inr (f x))"

definition ok_or :: "'a option \<Rightarrow> c_int \<Rightarrow> 'a result" where
  "ok_or r e = (case r of None \<Rightarrow> Inl e | Some x \<Rightarrow> Inr x)"

definition is_ok :: "'a result \<Rightarrow> bool" where
  "is_ok r = (case r of Inl _ \<Rightarrow> False | Inr _ \<Rightarrow> True)"

lemma rbind_simps [simp]:
  "rbind (Inl e) f = Inl e" "rbind (Inr x) f = f x"
  by (simp_all add: rbind_def)

lemma rmap_simps [simp]:
  "rmap f (Inl e) = Inl e" "rmap f (Inr x) = Inr (f x)"
  by (simp_all add: rmap_def)

lemma ok_or_simps [simp]:
  "ok_or None e = Inl e" "ok_or (Some x) e = Inr x"
  by (simp_all add: ok_or_def)

lemma is_ok_simps [simp]:
  "is_ok (Inl e) = False" "is_ok (Inr x) = True"
  by (simp_all add: is_ok_def)

lemma rbind_Inr: "rbind r f = Inr y \<longleftrightarrow> (\<exists>x. r = Inr x \<and> f x = Inr y)"
  by (cases r) auto

lemma rmap_Inr: "rmap f r = Inr y \<longleftrightarrow> (\<exists>x. r = Inr x \<and> y = f x)"
  by (cases r) auto

lemma ok_or_Inr: "ok_or r e = Inr y \<longleftrightarrow> r = Some y"
  by (cases r) auto

lemma is_ok_iff: "is_ok r \<longleftrightarrow> (\<exists>x. r = Inr x)"
  by (cases r) auto

lemmas result_elims = rbind_Inr rmap_Inr ok_or_Inr

text \<open>
  The stage phase threads the allocator through functions that return \<^verbatim>\<open>Result\<close>. The
  \<^verbatim>\<open>?\<close> operator leaves the caller at the first error, and no caller of the crate uses
  the allocator after an error, so the error case carries no state.
\<close>

type_synonym ('s, 'a) stager = "'s \<Rightarrow> c_int + ('a \<times> 's)"

definition sreturn :: "'a \<Rightarrow> ('s, 'a) stager" where
  "sreturn x = (\<lambda>s. Inr (x, s))"

definition sfail :: "c_int \<Rightarrow> ('s, 'a) stager" where
  "sfail e = (\<lambda>s. Inl e)"

definition sbind :: "('s, 'a) stager \<Rightarrow> ('a \<Rightarrow> ('s, 'b) stager) \<Rightarrow> ('s, 'b) stager" where
  "sbind m f = (\<lambda>s. case m s of Inl e \<Rightarrow> Inl e | Inr (x, s') \<Rightarrow> f x s')"

definition smap :: "('a \<Rightarrow> 'b) \<Rightarrow> ('s, 'a) stager \<Rightarrow> ('s, 'b) stager" where
  "smap f m = sbind m (\<lambda>x. sreturn (f x))"

definition sresult :: "'a result \<Rightarrow> ('s, 'a) stager" where
  "sresult r = (\<lambda>s. case r of Inl e \<Rightarrow> Inl e | Inr x \<Rightarrow> Inr (x, s))"

lemma sreturn_app [simp]: "sreturn x s = Inr (x, s)"
  by (simp add: sreturn_def)

lemma sfail_app [simp]: "sfail e s = Inl e"
  by (simp add: sfail_def)

lemma sbind_Inr:
  "sbind m f s = Inr (y, s'') \<longleftrightarrow> (\<exists>x s'. m s = Inr (x, s') \<and> f x s' = Inr (y, s''))"
  by (auto simp: sbind_def split: sum.splits)

lemma sbind_Inl:
  "sbind m f s = Inl e \<longleftrightarrow> m s = Inl e \<or> (\<exists>x s'. m s = Inr (x, s') \<and> f x s' = Inl e)"
  by (auto simp: sbind_def split: sum.splits)

lemma smap_Inr: "smap f m s = Inr (y, s') \<longleftrightarrow> (\<exists>x. m s = Inr (x, s') \<and> y = f x)"
  by (auto simp: smap_def sbind_Inr)

lemma smap_Inl: "smap f m s = Inl e \<longleftrightarrow> m s = Inl e"
  by (auto simp: smap_def sbind_Inl)

lemma sresult_Inr: "sresult r s = Inr (y, s') \<longleftrightarrow> r = Inr y \<and> s' = s"
  by (auto simp: sresult_def split: sum.splits)

lemmas stage_elims = sbind_Inr smap_Inr sresult_Inr sreturn_def

text \<open>
  The commit phase threads the block memory; its copies are \<^verbatim>\<open>unsafe\<close> code whose
  precondition is a bound. \<open>None\<close> is undefined behaviour, so that the absence of it is a
  statement (and a theorem) about the calls.
\<close>

type_synonym ('m, 'a) committer = "'m \<Rightarrow> ('a \<times> 'm) option"

definition creturn :: "'a \<Rightarrow> ('m, 'a) committer" where
  "creturn x = (\<lambda>m. Some (x, m))"

definition cbind :: "('m, 'a) committer \<Rightarrow> ('a \<Rightarrow> ('m, 'b) committer) \<Rightarrow> ('m, 'b) committer" where
  "cbind c f = (\<lambda>m. case c m of None \<Rightarrow> None | Some (x, m') \<Rightarrow> f x m')"

lemma creturn_app [simp]: "creturn x m = Some (x, m)"
  by (simp add: creturn_def)

lemma cbind_Some:
  "cbind c f m = Some (y, m'') \<longleftrightarrow> (\<exists>x m'. c m = Some (x, m') \<and> f x m' = Some (y, m''))"
  by (auto simp: cbind_def split: option.splits)

text \<open>
  What a whole operation comes to: it returns, it panics, it runs into undefined behaviour,
  or it has found the host to be lying and gives up in \<^verbatim>\<open>attacked()\<close>, which never
  returns.
\<close>

datatype 'a outcome = Ret 'a | Panic | UB | Attacked

definition obind :: "'a outcome \<Rightarrow> ('a \<Rightarrow> 'b outcome) \<Rightarrow> 'b outcome" where
  "obind x f = (case x of Ret a \<Rightarrow> f a | Panic \<Rightarrow> Panic | UB \<Rightarrow> UB | Attacked \<Rightarrow> Attacked)"

definition or_ub :: "'a option \<Rightarrow> 'a outcome" where
  "or_ub x = (case x of None \<Rightarrow> UB | Some a \<Rightarrow> Ret a)"

lemma obind_simps [simp]:
  "obind (Ret a) f = f a" "obind Panic f = Panic" "obind UB f = UB" "obind Attacked f = Attacked"
  by (simp_all add: obind_def)

lemma or_ub_simps [simp]:
  "or_ub None = UB" "or_ub (Some a) = Ret a"
  by (simp_all add: or_ub_def)

lemma obind_Ret: "obind x f = Ret b \<longleftrightarrow> (\<exists>a. x = Ret a \<and> f a = Ret b)"
  by (cases x) auto

lemma obind_Ret_Panic: "obind x (\<lambda>a. Ret (g a)) = Panic \<longleftrightarrow> x = Panic"
  by (cases x) auto

lemma or_ub_Ret: "or_ub x = Ret a \<longleftrightarrow> x = Some a"
  by (cases x) auto

lemmas [outcome_simps] =
  rbind_def rmap_def ok_or_def sreturn_def sfail_def sbind_def smap_def sresult_def
  creturn_def cbind_def obind_def or_ub_def

section \<open>Little-endian bytes\<close>

fun le_bytes :: "nat \<Rightarrow> nat \<Rightarrow> byte list" where
  "le_bytes 0 v = []"
| "le_bytes (Suc n) v = of_nat v # le_bytes n (v div 256)"

fun le_nat :: "byte list \<Rightarrow> nat" where
  "le_nat [] = 0"
| "le_nat (b # bs) = unat b + 256 * le_nat bs"

definition usize_bytes :: "usize \<Rightarrow> byte list" where
  "usize_bytes w = le_bytes 8 (unat w)"

definition usize_of_bytes :: "byte list \<Rightarrow> usize" where
  "usize_of_bytes bs = of_nat (le_nat bs)"

text \<open>A slice of \<^verbatim>\<open>usize\<close> viewed as bytes (\<^verbatim>\<open>align_to_mut::<u8>()\<close>), and back.\<close>

definition bytes_of_words :: "usize list \<Rightarrow> byte list" where
  "bytes_of_words ws = concat (map usize_bytes ws)"

fun words_of_bytes :: "byte list \<Rightarrow> usize list" where
  "words_of_bytes (b0 # b1 # b2 # b3 # b4 # b5 # b6 # b7 # bs) =
     usize_of_bytes [b0, b1, b2, b3, b4, b5, b6, b7] # words_of_bytes bs"
| "words_of_bytes bs = []"

lemma length_le_bytes [simp]: "length (le_bytes n v) = n"
  by (induction n arbitrary: v) auto

lemma le_nat_le_bytes [byte_simps]: "le_nat (le_bytes n v) = v mod 256 ^ n"
proof (induction n arbitrary: v)
  case 0
  then show ?case by simp
next
  case (Suc n)
  have "v mod 256 ^ Suc n = v mod 256 + 256 * (v div 256 mod 256 ^ n)"
    by (simp add: mod_mult2_eq)
  with Suc show ?case
    by (simp add: unat_of_nat)
qed

lemma le_nat_less: "le_nat bs < 256 ^ length bs"
proof (induction bs)
  case Nil
  then show ?case by simp
next
  case (Cons b bs)
  have "unat b < 256"
    using unsigned_less [of b] by simp
  with Cons show ?case by simp
qed

lemma le_bytes_le_nat [byte_simps]: "le_bytes (length bs) (le_nat bs) = bs"
proof (induction bs)
  case Nil
  then show ?case by simp
next
  case (Cons b bs)
  have b: "unat b < 256"
    using unsigned_less [of b] by simp
  have z: "(256 :: byte) = 0"
    by simp
  have "(of_nat (unat b + 256 * le_nat bs) :: byte) = b"
    by (simp only: of_nat_add of_nat_mult of_nat_numeral z) simp
  with Cons b show ?case by simp
qed

lemma length_usize_bytes [simp]: "length (usize_bytes w) = 8"
  by (simp add: usize_bytes_def)

lemma usize_of_usize_bytes [simp]: "usize_of_bytes (usize_bytes w) = w"
proof -
  have "unat w < 256 ^ 8"
    using unsigned_less [of w] by simp
  then show ?thesis
    by (simp add: usize_of_bytes_def usize_bytes_def byte_simps)
qed

lemma usize_bytes_of_bytes: "length bs = 8 \<Longrightarrow> usize_bytes (usize_of_bytes bs) = bs"
proof -
  assume l: "length bs = 8"
  have "le_nat bs < 2 ^ 64"
    using le_nat_less [of bs] l by simp
  then have "unat (of_nat (le_nat bs) :: usize) = le_nat bs"
    by (simp add: unat_of_nat)
  then show ?thesis
    using l le_bytes_le_nat [of bs] by (simp add: usize_bytes_def usize_of_bytes_def)
qed

lemma bytes_of_words_Nil [simp]: "bytes_of_words [] = []"
  by (simp add: bytes_of_words_def)

lemma bytes_of_words_Cons [simp]: "bytes_of_words (w # ws) = usize_bytes w @ bytes_of_words ws"
  by (simp add: bytes_of_words_def)

lemma bytes_of_words_append [simp]:
  "bytes_of_words (us @ ws) = bytes_of_words us @ bytes_of_words ws"
  by (simp add: bytes_of_words_def)

lemma length_bytes_of_words [simp]: "length (bytes_of_words ws) = 8 * length ws"
  by (induction ws) auto

lemma length_eight:
  "length xs = 8 \<Longrightarrow> \<exists>a b c d e f g h. xs = [a, b, c, d, e, f, g, h]"
  by (auto simp: numeral_eq_Suc length_Suc_conv)

lemma words_of_bytes_append8:
  "length xs = 8 \<Longrightarrow> words_of_bytes (xs @ bs) = usize_of_bytes xs # words_of_bytes bs"
  by (drule length_eight) auto

lemma words_of_bytes_of_words [simp]: "words_of_bytes (bytes_of_words ws) = ws"
  by (induction ws) (simp_all add: words_of_bytes_append8)

lemma bytes_of_words_of_bytes [byte_simps]:
  "8 dvd length bs \<Longrightarrow> bytes_of_words (words_of_bytes bs) = bs"
proof (induction bs rule: words_of_bytes.induct)
  case (1 b0 b1 b2 b3 b4 b5 b6 b7 bs)
  then have "8 dvd length bs" by (simp add: dvd_def) presburger
  with 1 show ?case
    by (simp add: usize_bytes_of_bytes)
qed (auto dest: dvd_imp_le)

lemma length_words_of_bytes: "8 dvd length bs \<Longrightarrow> length (words_of_bytes bs) = length bs div 8"
  using length_bytes_of_words [of "words_of_bytes bs"] by (simp add: byte_simps)

lemma words_of_bytes_append:
  "8 dvd length xs \<Longrightarrow> words_of_bytes (xs @ ys) = words_of_bytes xs @ words_of_bytes ys"
proof (induction xs rule: words_of_bytes.induct)
  case (1 b0 b1 b2 b3 b4 b5 b6 b7 bs)
  then have "8 dvd length bs" by (simp add: dvd_def) presburger
  with 1 show ?case by simp
qed (auto dest: dvd_imp_le)

section \<open>Alignment\<close>

text \<open>\<^verbatim>\<open><*const u8>::align_offset\<close>: how many bytes to skip to reach the next multiple of
  the alignment. For byte pointers it is always possible.\<close>

definition align_offset :: "nat \<Rightarrow> nat \<Rightarrow> nat" where
  "align_offset p a = (a - p mod a) mod a"

lemma align_offset_less: "0 < a \<Longrightarrow> align_offset p a < a"
  by (simp add: align_offset_def)

lemma align_offset_dvd: "0 < a \<Longrightarrow> a dvd p + align_offset p a"
proof (cases "p mod a = 0")
  case True
  then show ?thesis by (simp add: align_offset_def dvd_eq_mod_eq_0)
next
  case False
  assume a: "0 < a"
  then have "p mod a < a" by simp
  with False have "align_offset p a = a - p mod a"
    by (simp add: align_offset_def)
  moreover have "p + (a - p mod a) = a * (p div a) + a"
    using \<open>p mod a < a\<close> mult_div_mod_eq [of a p] by linarith
  ultimately show ?thesis by simp
qed

lemma align_offset_aligned [simp]: "a dvd p \<Longrightarrow> align_offset p a = 0"
  by (simp add: align_offset_def dvd_eq_mod_eq_0)

lemma align_offset_one [simp]: "align_offset p (Suc 0) = 0"
  by (simp add: align_offset_def)

lemma align_offset_eq_0_iff: "0 < a \<Longrightarrow> align_offset p a = 0 \<longleftrightarrow> a dvd p"
  using align_offset_dvd [of a p] by auto

section \<open>A region of memory\<close>

text \<open>
  A contiguous region: its first address and its bytes. The sallyport block is one; the
  host's view of the data of an item is another. Reads and writes outside of the region are
  undefined behaviour (\<open>None\<close>).
\<close>

record mem =
  mem_base :: nat
  mem_data :: "byte list"

definition in_mem :: "mem \<Rightarrow> nat \<Rightarrow> nat \<Rightarrow> bool" where
  "in_mem m a n \<longleftrightarrow> mem_base m \<le> a \<and> a + n \<le> mem_base m + length (mem_data m)"

definition splice :: "nat \<Rightarrow> 'a list \<Rightarrow> 'a list \<Rightarrow> 'a list" where
  "splice i ys xs = take i xs @ ys @ drop (i + length ys) xs"

definition mem_read :: "nat \<Rightarrow> nat \<Rightarrow> mem \<Rightarrow> byte list option" where
  "mem_read a n m =
     (if in_mem m a n then Some (take n (drop (a - mem_base m) (mem_data m))) else None)"

definition mem_write :: "nat \<Rightarrow> byte list \<Rightarrow> (mem, unit) committer" where
  "mem_write a bs m =
     (if in_mem m a (length bs)
      then Some ((), m\<lparr>mem_data := splice (a - mem_base m) bs (mem_data m)\<rparr>)
      else None)"

text \<open>\<open>unchanged m m' a b\<close>: the two memories are the same region and agree on every
  byte outside of the addresses from \<open>a\<close> up to, but not including, \<open>b\<close>.\<close>

definition same_shape :: "mem \<Rightarrow> mem \<Rightarrow> bool" where
  "same_shape m m' \<longleftrightarrow> mem_base m' = mem_base m \<and> length (mem_data m') = length (mem_data m)"

definition unchanged :: "mem \<Rightarrow> mem \<Rightarrow> nat \<Rightarrow> nat \<Rightarrow> bool" where
  "unchanged m m' a b \<longleftrightarrow> same_shape m m' \<and>
     (\<forall>i < length (mem_data m). mem_base m + i < a \<or> b \<le> mem_base m + i \<longrightarrow>
        mem_data m' ! i = mem_data m ! i)"

lemma length_splice [simp]: "i + length ys \<le> length xs \<Longrightarrow> length (splice i ys xs) = length xs"
  by (simp add: splice_def)

lemma nth_splice:
  "i + length ys \<le> length xs \<Longrightarrow> k < length xs \<Longrightarrow>
     splice i ys xs ! k = (if i \<le> k \<and> k < i + length ys then ys ! (k - i) else xs ! k)"
  by (auto simp: splice_def nth_append)

lemma take_drop_splice_same:
  "i + length ys \<le> length xs \<Longrightarrow> take (length ys) (drop i (splice i ys xs)) = ys"
  by (simp add: splice_def)

lemma splice_Nil [simp]: "splice i [] xs = xs"
  by (simp add: splice_def)

lemma mem_write_Some:
  "in_mem m a (length bs) \<Longrightarrow>
     mem_write a bs m = Some ((), m\<lparr>mem_data := splice (a - mem_base m) bs (mem_data m)\<rparr>)"
  by (simp add: mem_write_def)

lemma mem_write_ok [intro]: "in_mem m a (length bs) \<Longrightarrow> \<exists>m'. mem_write a bs m = Some ((), m')"
  by (simp add: mem_write_def)

lemma mem_read_ok [intro]: "in_mem m a n \<Longrightarrow> \<exists>bs. mem_read a n m = Some bs \<and> length bs = n"
  by (auto simp: mem_read_def in_mem_def)

lemma mem_read_length: "mem_read a n m = Some bs \<Longrightarrow> length bs = n"
  by (auto simp: mem_read_def in_mem_def split: if_splits)

lemma same_shape_refl [simp]: "same_shape m m"
  by (simp add: same_shape_def)

lemma same_shape_trans: "same_shape m m' \<Longrightarrow> same_shape m' m'' \<Longrightarrow> same_shape m m''"
  by (simp add: same_shape_def)

lemma same_shape_sym: "same_shape m m' \<Longrightarrow> same_shape m' m"
  by (simp add: same_shape_def)

lemma in_mem_shape: "same_shape m m' \<Longrightarrow> in_mem m' a n = in_mem m a n"
  by (simp add: same_shape_def in_mem_def)

lemma in_mem_sub: "in_mem m a n \<Longrightarrow> a \<le> b \<Longrightarrow> b + k \<le> a + n \<Longrightarrow> in_mem m b k"
  by (simp add: in_mem_def)

lemma unchanged_shape: "unchanged m m' a b \<Longrightarrow> same_shape m m'"
  by (simp add: unchanged_def)

lemma unchanged_refl [simp]: "unchanged m m a b"
  by (simp add: unchanged_def)

lemma unchanged_trans:
  "unchanged m m' a b \<Longrightarrow> unchanged m' m'' a b \<Longrightarrow> unchanged m m'' a b"
  by (auto simp: unchanged_def same_shape_def)

lemma unchanged_mono:
  "unchanged m m' a b \<Longrightarrow> a' \<le> a \<Longrightarrow> b \<le> b' \<Longrightarrow> unchanged m m' a' b'"
  by (auto simp: unchanged_def)

lemma mem_write_unchanged:
  "mem_write a bs m = Some (u, m') \<Longrightarrow> unchanged m m' a (a + length bs)"
  by (auto simp: mem_write_def unchanged_def same_shape_def in_mem_def nth_splice split: if_splits)

lemma mem_read_write_same [mem_simps]:
  "mem_write a bs m = Some (u, m') \<Longrightarrow> mem_read a (length bs) m' = Some bs"
proof -
  assume w: "mem_write a bs m = Some (u, m')"
  then have i: "in_mem m a (length bs)"
    by (auto simp: mem_write_def split: if_splits)
  then have "(a - mem_base m) + length bs \<le> length (mem_data m)"
    by (auto simp: in_mem_def)
  with w i show ?thesis
    by (auto simp: mem_write_def mem_read_def in_mem_def take_drop_splice_same)
qed

lemma mem_read_unchanged [mem_simps]:
  "unchanged m m' a b \<Longrightarrow> c + n \<le> a \<or> b \<le> c \<Longrightarrow> mem_read c n m' = mem_read c n m"
proof -
  assume u: "unchanged m m' a b" and d: "c + n \<le> a \<or> b \<le> c"
  have "take n (drop (c - mem_base m) (mem_data m')) = take n (drop (c - mem_base m) (mem_data m))"
    if "in_mem m c n"
  proof (rule nth_equalityI)
    show "length (take n (drop (c - mem_base m) (mem_data m')))
        = length (take n (drop (c - mem_base m) (mem_data m)))"
      using u by (simp add: unchanged_def same_shape_def)
  next
    fix i assume "i < length (take n (drop (c - mem_base m) (mem_data m')))"
    then have i: "i < n" "c - mem_base m + i < length (mem_data m)"
      using u by (auto simp: unchanged_def same_shape_def)
    with that d have "mem_base m + (c - mem_base m + i) < a \<or> b \<le> mem_base m + (c - mem_base m + i)"
      by (auto simp: in_mem_def)
    with u i have "mem_data m' ! (c - mem_base m + i) = mem_data m ! (c - mem_base m + i)"
      by (auto simp: unchanged_def)
    with i u show "take n (drop (c - mem_base m) (mem_data m')) ! i
        = take n (drop (c - mem_base m) (mem_data m)) ! i"
      by (simp add: unchanged_def same_shape_def)
  qed
  with u show ?thesis
    by (auto simp: mem_read_def unchanged_def same_shape_def in_mem_def)
qed

end
