(* ===== verification/Libc.thy ===== *)
theory Libc
  imports Prelude
begin

text \<open>
  The C definitions the crate keeps for itself (\<^verbatim>\<open>crates/sallyport/src/libc.rs\<close>): the
  errno values, flags and system call numbers, and the size and alignment of the C structures
  that cross the sallyport block. A structure is modelled by its layout, computed by the
  \<^verbatim>\<open>repr(C)\<close> rules from the list of its fields, because the crate never looks into the
  structures: it copies their bytes.
\<close>

named_theorems libc_consts
named_theorems layouts

section \<open>Layouts\<close>

text \<open>\<^verbatim>\<open>core::alloc::Layout\<close>: a size and an alignment in bytes.\<close>

record layout =
  l_size :: nat
  l_align :: nat

definition align_up :: "nat \<Rightarrow> nat \<Rightarrow> nat" where
  "align_up n a = n + align_offset n a"

text \<open>\<^verbatim>\<open>Layout::from_size_align\<close>: the alignment is a power of two and the size, rounded up to
  it, does not exceed \<^verbatim>\<open>isize::MAX\<close>. \<^verbatim>\<open>Layout::array\<close> multiplies first.\<close>

definition is_pow2 :: "nat \<Rightarrow> bool" where
  "is_pow2 a \<longleftrightarrow> (\<exists>k < 64. a = 2 ^ k)"

definition layout_from_size_align :: "nat \<Rightarrow> nat \<Rightarrow> layout option" where
  "layout_from_size_align s a =
     (if is_pow2 a \<and> s + (a - 1) < isize_limit then Some \<lparr>l_size = s, l_align = a\<rparr> else None)"

definition layout_array :: "layout \<Rightarrow> nat \<Rightarrow> layout option" where
  "layout_array T n =
     (case checked_mul (l_size T) n of
        None \<Rightarrow> None
      | Some s \<Rightarrow> layout_from_size_align s (l_align T))"

definition repr_c_step :: "layout \<Rightarrow> nat \<times> nat \<Rightarrow> nat \<times> nat" where
  "repr_c_step f acc = (align_up (fst acc) (l_align f) + l_size f, max (snd acc) (l_align f))"

definition repr_c :: "layout list \<Rightarrow> layout" where
  "repr_c fs = (let (off, al) = fold repr_c_step fs (0, 1)
                in \<lparr>l_size = align_up off al, l_align = al\<rparr>)"

definition array_of :: "nat \<Rightarrow> layout \<Rightarrow> layout" where
  "array_of n T = \<lparr>l_size = n * l_size T, l_align = l_align T\<rparr>"

definition u8_layout :: layout where [layouts]: "u8_layout = \<lparr>l_size = 1, l_align = 1\<rparr>"
definition u16_layout :: layout where [layouts]: "u16_layout = \<lparr>l_size = 2, l_align = 2\<rparr>"
definition u32_layout :: layout where [layouts]: "u32_layout = \<lparr>l_size = 4, l_align = 4\<rparr>"
definition u64_layout :: layout where [layouts]: "u64_layout = \<lparr>l_size = 8, l_align = 8\<rparr>"
definition usize_layout :: layout where [layouts]: "usize_layout = \<lparr>l_size = 8, l_align = 8\<rparr>"

section \<open>Structures\<close>

definition epoll_event_layout :: layout where
  "epoll_event_layout = repr_c [u32_layout, u64_layout]"

definition iovec_layout :: layout where
  "iovec_layout = repr_c [usize_layout, usize_layout]"

definition in_addr_layout :: layout where
  "in_addr_layout = repr_c [u32_layout]"

definition in6_addr_layout :: layout where
  "in6_addr_layout = \<lparr>l_size = 16, l_align = 4\<rparr>"

definition pollfd_layout :: layout where
  "pollfd_layout = repr_c [u32_layout, u16_layout, u16_layout]"

definition sigset_layout :: layout where
  "sigset_layout = repr_c [array_of 16 u64_layout]"

definition sockaddr_layout :: layout where
  "sockaddr_layout = repr_c [u16_layout, array_of 14 u8_layout]"

definition sockaddr_in_layout :: layout where
  "sockaddr_in_layout = repr_c [u16_layout, u16_layout, in_addr_layout, array_of 8 u8_layout]"

definition sockaddr_in6_layout :: layout where
  "sockaddr_in6_layout =
     repr_c [u16_layout, u16_layout, u32_layout, in6_addr_layout, u32_layout]"

definition sockaddr_storage_layout :: layout where
  "sockaddr_storage_layout = repr_c [u16_layout, usize_layout, array_of (128 - 2 * 8) u8_layout]"

definition sockaddr_un_layout :: layout where
  "sockaddr_un_layout = repr_c [u16_layout, array_of 108 u8_layout]"

definition stack_layout :: layout where
  "stack_layout = repr_c [usize_layout, u32_layout, usize_layout]"

definition stat_layout :: layout where
  "stat_layout =
     repr_c [u64_layout, u64_layout, u64_layout, u32_layout, u32_layout, u32_layout, u32_layout,
             u64_layout, u64_layout, u64_layout, u64_layout, u64_layout, u64_layout, u64_layout,
             u64_layout, u64_layout, u64_layout, array_of 3 u64_layout]"

definition timespec_layout :: layout where
  "timespec_layout = repr_c [u64_layout, u64_layout]"

definition utsname_layout :: layout where
  "utsname_layout =
     repr_c [array_of 65 u8_layout, array_of 65 u8_layout, array_of 65 u8_layout,
             array_of 65 u8_layout, array_of 65 u8_layout, array_of 65 u8_layout]"

definition socklen_layout :: layout where
  "socklen_layout = u32_layout"

text \<open>\<^verbatim>\<open>core::arch::x86_64::CpuidResult\<close>: four 32-bit registers.\<close>

definition cpuid_result_layout :: layout where
  "cpuid_result_layout = repr_c [u32_layout, u32_layout, u32_layout, u32_layout]"

section \<open>Constants\<close>

definition EACCES :: c_int where [libc_consts]: "EACCES = 13"
definition EAGAIN :: c_int where [libc_consts]: "EAGAIN = 11"
definition EBADFD :: c_int where [libc_consts]: "EBADFD = 77"
definition EFAULT :: c_int where [libc_consts]: "EFAULT = 14"
definition EINTR :: c_int where [libc_consts]: "EINTR = 4"
definition EINVAL :: c_int where [libc_consts]: "EINVAL = 22"
definition ENOENT :: c_int where [libc_consts]: "ENOENT = 2"
definition ENOMEM :: c_int where [libc_consts]: "ENOMEM = 12"
definition EIO :: c_int where [libc_consts]: "EIO = 5"
definition EMSGSIZE :: c_int where [libc_consts]: "EMSGSIZE = 90"
definition ENOSYS :: c_int where [libc_consts]: "ENOSYS = 38"
definition ENOTSUP :: c_int where [libc_consts]: "ENOTSUP = 95"
definition ENOTTY :: c_int where [libc_consts]: "ENOTTY = 25"
definition EOVERFLOW :: c_int where [libc_consts]: "EOVERFLOW = 75"
definition EPERM :: c_int where [libc_consts]: "EPERM = 1"
definition F_GETFD :: c_int where [libc_consts]: "F_GETFD = 1"
definition F_GETFL :: c_int where [libc_consts]: "F_GETFL = 3"
definition F_SETFD :: c_int where [libc_consts]: "F_SETFD = 2"
definition F_SETFL :: c_int where [libc_consts]: "F_SETFL = 4"
definition FIONBIO :: c_int where [libc_consts]: "FIONBIO = 21537"
definition FIONREAD :: c_int where [libc_consts]: "FIONREAD = 21531"
definition GRND_NONBLOCK :: c_int where [libc_consts]: "GRND_NONBLOCK = 1"
definition GRND_RANDOM :: c_int where [libc_consts]: "GRND_RANDOM = 2"
definition MAP_ANONYMOUS :: c_int where [libc_consts]: "MAP_ANONYMOUS = 32"
definition MAP_PRIVATE :: c_int where [libc_consts]: "MAP_PRIVATE = 2"
definition MREMAP_DONTUNMAP :: c_int where [libc_consts]: "MREMAP_DONTUNMAP = 4"
definition MREMAP_FIXED :: c_int where [libc_consts]: "MREMAP_FIXED = 2"
definition MREMAP_MAYMOVE :: c_int where [libc_consts]: "MREMAP_MAYMOVE = 1"
definition O_APPEND :: c_int where [libc_consts]: "O_APPEND = 1024"
definition O_CLOEXEC :: c_int where [libc_consts]: "O_CLOEXEC = 524288"
definition O_RDONLY :: c_int where [libc_consts]: "O_RDONLY = 0"
definition O_RDWR :: c_int where [libc_consts]: "O_RDWR = 2"
definition O_WRONLY :: c_int where [libc_consts]: "O_WRONLY = 1"
definition PROT_EXEC :: c_int where [libc_consts]: "PROT_EXEC = 4"
definition PROT_READ :: c_int where [libc_consts]: "PROT_READ = 1"
definition PROT_WRITE :: c_int where [libc_consts]: "PROT_WRITE = 2"
definition S_IFIFO :: "32 word" where [libc_consts]: "S_IFIFO = 4096"
definition STDERR_FILENO :: c_int where [libc_consts]: "STDERR_FILENO = 2"
definition STDIN_FILENO :: c_int where [libc_consts]: "STDIN_FILENO = 0"
definition STDOUT_FILENO :: c_int where [libc_consts]: "STDOUT_FILENO = 1"
definition SYS_accept :: usize where [libc_consts]: "SYS_accept = 43"
definition SYS_accept4 :: usize where [libc_consts]: "SYS_accept4 = 288"
definition SYS_arch_prctl :: usize where [libc_consts]: "SYS_arch_prctl = 158"
definition SYS_bind :: usize where [libc_consts]: "SYS_bind = 49"
definition SYS_brk :: usize where [libc_consts]: "SYS_brk = 12"
definition SYS_clock_getres :: usize where [libc_consts]: "SYS_clock_getres = 229"
definition SYS_clock_gettime :: usize where [libc_consts]: "SYS_clock_gettime = 228"
definition SYS_close :: usize where [libc_consts]: "SYS_close = 3"
definition SYS_connect :: usize where [libc_consts]: "SYS_connect = 42"
definition SYS_dup :: usize where [libc_consts]: "SYS_dup = 32"
definition SYS_dup2 :: usize where [libc_consts]: "SYS_dup2 = 33"
definition SYS_dup3 :: usize where [libc_consts]: "SYS_dup3 = 292"
definition SYS_epoll_create1 :: usize where [libc_consts]: "SYS_epoll_create1 = 291"
definition SYS_epoll_ctl :: usize where [libc_consts]: "SYS_epoll_ctl = 233"
definition SYS_epoll_pwait :: usize where [libc_consts]: "SYS_epoll_pwait = 281"
definition SYS_epoll_wait :: usize where [libc_consts]: "SYS_epoll_wait = 232"
definition SYS_eventfd2 :: usize where [libc_consts]: "SYS_eventfd2 = 290"
definition SYS_exit :: usize where [libc_consts]: "SYS_exit = 60"
definition SYS_exit_group :: usize where [libc_consts]: "SYS_exit_group = 231"
definition SYS_fcntl :: usize where [libc_consts]: "SYS_fcntl = 72"
definition SYS_fstat :: usize where [libc_consts]: "SYS_fstat = 5"
definition SYS_getegid :: usize where [libc_consts]: "SYS_getegid = 108"
definition SYS_geteuid :: usize where [libc_consts]: "SYS_geteuid = 107"
definition SYS_getgid :: usize where [libc_consts]: "SYS_getgid = 104"
definition SYS_getpid :: usize where [libc_consts]: "SYS_getpid = 39"
definition SYS_getuid :: usize where [libc_consts]: "SYS_getuid = 102"
definition SYS_getrandom :: usize where [libc_consts]: "SYS_getrandom = 318"
definition SYS_getsockname :: usize where [libc_consts]: "SYS_getsockname = 51"
definition SYS_ioctl :: usize where [libc_consts]: "SYS_ioctl = 16"
definition SYS_listen :: usize where [libc_consts]: "SYS_listen = 50"
definition SYS_madvise :: usize where [libc_consts]: "SYS_madvise = 28"
definition SYS_mmap :: usize where [libc_consts]: "SYS_mmap = 9"
definition SYS_mprotect :: usize where [libc_consts]: "SYS_mprotect = 10"
definition SYS_mremap :: usize where [libc_consts]: "SYS_mremap = 25"
definition SYS_munmap :: usize where [libc_consts]: "SYS_munmap = 11"
definition SYS_nanosleep :: usize where [libc_consts]: "SYS_nanosleep = 35"
definition SYS_open :: usize where [libc_consts]: "SYS_open = 2"
definition SYS_poll :: usize where [libc_consts]: "SYS_poll = 7"
definition SYS_read :: usize where [libc_consts]: "SYS_read = 0"
definition SYS_readlink :: usize where [libc_consts]: "SYS_readlink = 89"
definition SYS_readv :: usize where [libc_consts]: "SYS_readv = 19"
definition SYS_recvfrom :: usize where [libc_consts]: "SYS_recvfrom = 45"
definition SYS_rt_sigaction :: usize where [libc_consts]: "SYS_rt_sigaction = 13"
definition SYS_rt_sigprocmask :: usize where [libc_consts]: "SYS_rt_sigprocmask = 14"
definition SYS_set_tid_address :: usize where [libc_consts]: "SYS_set_tid_address = 218"
definition SYS_sendto :: usize where [libc_consts]: "SYS_sendto = 44"
definition SYS_setsockopt :: usize where [libc_consts]: "SYS_setsockopt = 54"
definition SYS_sigaltstack :: usize where [libc_consts]: "SYS_sigaltstack = 131"
definition SYS_socket :: usize where [libc_consts]: "SYS_socket = 41"
definition SYS_sync :: usize where [libc_consts]: "SYS_sync = 162"
definition SYS_uname :: usize where [libc_consts]: "SYS_uname = 63"
definition SYS_write :: usize where [libc_consts]: "SYS_write = 1"
definition SYS_writev :: usize where [libc_consts]: "SYS_writev = 20"
definition TIOCGWINSZ :: c_int where [libc_consts]: "TIOCGWINSZ = 21523"

section \<open>Facts\<close>

lemmas struct_layout_defs =
  epoll_event_layout_def iovec_layout_def in_addr_layout_def in6_addr_layout_def pollfd_layout_def
  sigset_layout_def sockaddr_layout_def sockaddr_in_layout_def sockaddr_in6_layout_def
  sockaddr_storage_layout_def sockaddr_un_layout_def stack_layout_def stat_layout_def
  timespec_layout_def utsname_layout_def socklen_layout_def cpuid_result_layout_def

lemmas layout_rules =
  repr_c_def repr_c_step_def array_of_def align_up_def align_offset_def

lemma struct_layouts [layouts]:
  "epoll_event_layout = \<lparr>l_size = 16, l_align = 8\<rparr>"
  "iovec_layout = \<lparr>l_size = 16, l_align = 8\<rparr>"
  "pollfd_layout = \<lparr>l_size = 8, l_align = 4\<rparr>"
  "sigset_layout = \<lparr>l_size = 128, l_align = 8\<rparr>"
  "sockaddr_layout = \<lparr>l_size = 16, l_align = 2\<rparr>"
  "sockaddr_in_layout = \<lparr>l_size = 16, l_align = 4\<rparr>"
  "sockaddr_in6_layout = \<lparr>l_size = 28, l_align = 4\<rparr>"
  "sockaddr_storage_layout = \<lparr>l_size = 128, l_align = 8\<rparr>"
  "sockaddr_un_layout = \<lparr>l_size = 110, l_align = 2\<rparr>"
  "stack_layout = \<lparr>l_size = 24, l_align = 8\<rparr>"
  "stat_layout = \<lparr>l_size = 144, l_align = 8\<rparr>"
  "timespec_layout = \<lparr>l_size = 16, l_align = 8\<rparr>"
  "utsname_layout = \<lparr>l_size = 390, l_align = 1\<rparr>"
  "socklen_layout = \<lparr>l_size = 4, l_align = 4\<rparr>"
  "cpuid_result_layout = \<lparr>l_size = 16, l_align = 4\<rparr>"
  by (simp_all add: struct_layout_defs layout_rules layouts flip: numeral_2_eq_2)

lemma layout_from_size_align_Some [simp]:
  "layout_from_size_align s a = Some L \<longleftrightarrow>
     L = \<lparr>l_size = s, l_align = a\<rparr> \<and> is_pow2 a \<and> s + (a - 1) < isize_limit"
  by (auto simp: layout_from_size_align_def)

lemma is_pow2_pos: "is_pow2 a \<Longrightarrow> 0 < a"
  by (auto simp: is_pow2_def)

lemma is_pow2_small [simp]:
  "is_pow2 (Suc 0)" "is_pow2 2" "is_pow2 4" "is_pow2 8"
  by (auto simp: is_pow2_def intro: exI [of _ 0] exI [of _ 1] exI [of _ 2] exI [of _ 3])

lemma layout_array_Some:
  "layout_array T n = Some L \<longleftrightarrow>
     L = \<lparr>l_size = l_size T * n, l_align = l_align T\<rparr> \<and> is_pow2 (l_align T) \<and>
     l_size T * n + (l_align T - 1) < isize_limit"
  by (auto simp: layout_array_def isize_limit_def usize_limit_def checked_mul_def
      split: option.splits if_splits)

end
