(* ===== verification/Items.thy ===== *)
theory Items
  imports Libc
begin

text \<open>
  The shared format of the sallyport block (\<^verbatim>\<open>crates/sallyport/src/item\<close> and the
  constants of \<^verbatim>\<open>lib.rs\<close>): item kinds and headers, the payloads of the three calls, and
  the \<^verbatim>\<open>Block\<close> decoder with its iterator, as the host runs them over the words the guest
  left behind. The guest chooses those words, so every slice operation of the decoder that can
  panic is a branch here.

  The second half states the block format itself as an encoder and proves that the iterator
  is its inverse, that unknown items are skipped, that the iterator always terminates and when
  it panics.
\<close>

section \<open>Kinds, headers and payloads\<close>

text \<open>\<^verbatim>\<open>NULL\<close> stands for a null pointer or an absent value in the block.\<close>

definition NULL :: usize where
  "NULL = - 1"

definition MAX_UDP_PACKET_SIZE :: nat where
  "MAX_UDP_PACKET_SIZE = 65507"

datatype kind = End | Syscall | Gdbcall | Enarxcall

fun kind_as_usize :: "kind \<Rightarrow> usize" where
  "kind_as_usize End = 0"
| "kind_as_usize Syscall = 1"
| "kind_as_usize Gdbcall = 2"
| "kind_as_usize Enarxcall = 3"

definition kind_try_from :: "usize \<Rightarrow> kind result" where
  "kind_try_from k =
     (if k = kind_as_usize End then Ok End
      else if k = kind_as_usize Syscall then Ok Syscall
      else if k = kind_as_usize Gdbcall then Ok Gdbcall
      else if k = kind_as_usize Enarxcall then Ok Enarxcall
      else Err EINVAL)"

record header =
  h_size :: usize
  h_kind :: kind

definition header_layout :: layout where
  "header_layout = repr_c [usize_layout, usize_layout]"

definition header_bytes :: "header \<Rightarrow> byte list" where
  "header_bytes h = usize_bytes (h_size h) @ usize_bytes (kind_as_usize (h_kind h))"

record syscall_payload =
  sp_num :: usize
  sp_argv :: "usize list"
  sp_ret :: "usize list"

definition syscall_payload_layout :: layout where
  "syscall_payload_layout = repr_c [usize_layout, array_of 6 usize_layout, array_of 2 usize_layout]"

definition syscall_USIZE_COUNT :: nat where
  "syscall_USIZE_COUNT = l_size syscall_payload_layout div l_size usize_layout"

definition syscall_payload_of :: "usize list \<Rightarrow> syscall_payload" where
  "syscall_payload_of buf =
     \<lparr>sp_num = buf ! 0, sp_argv = take 6 (drop 1 buf), sp_ret = take 2 (drop 7 buf)\<rparr>"

definition syscall_payload_words :: "syscall_payload \<Rightarrow> usize list" where
  "syscall_payload_words p = sp_num p # sp_argv p @ sp_ret p"

text \<open>
  The payloads of GDB calls and Enarx calls have one shape. Their number is an enumeration
  in the source; the decoder reinterprets the word without checking it, so the model keeps the
  word and reads the number from it where the code inspects it.
\<close>

record numbered_payload =
  np_num :: usize
  np_argv :: "usize list"
  np_ret :: usize

datatype gdbcall_number = GdbWrite | GdbWriteAll | GdbFlush | GdbOnSessionStart | GdbRead | GdbPeek

fun gdbcall_number_as_usize :: "gdbcall_number \<Rightarrow> usize" where
  "gdbcall_number_as_usize GdbWrite = 0"
| "gdbcall_number_as_usize GdbWriteAll = 1"
| "gdbcall_number_as_usize GdbFlush = 2"
| "gdbcall_number_as_usize GdbOnSessionStart = 3"
| "gdbcall_number_as_usize GdbRead = 4"
| "gdbcall_number_as_usize GdbPeek = 5"

datatype enarxcall_number =
    MemInfo | BalloonMemory | Cpuid | GetSgxQuote | GetSgxTargetInfo | GetSgxQuoteSize
  | GetSnpVcek | MmapHost | MprotectHost | MunmapHost | TrimSgxPages

fun enarxcall_number_as_usize :: "enarxcall_number \<Rightarrow> usize" where
  "enarxcall_number_as_usize MemInfo = 0x00"
| "enarxcall_number_as_usize BalloonMemory = 0x01"
| "enarxcall_number_as_usize Cpuid = 0x02"
| "enarxcall_number_as_usize GetSgxQuote = 0x03"
| "enarxcall_number_as_usize GetSgxTargetInfo = 0x04"
| "enarxcall_number_as_usize GetSgxQuoteSize = 0x05"
| "enarxcall_number_as_usize GetSnpVcek = 0x06"
| "enarxcall_number_as_usize MmapHost = 0x07"
| "enarxcall_number_as_usize MprotectHost = 0x08"
| "enarxcall_number_as_usize MunmapHost = 0x09"
| "enarxcall_number_as_usize TrimSgxPages = 0x10"

definition enarxcall_numbers :: "enarxcall_number list" where
  "enarxcall_numbers =
     [MemInfo, BalloonMemory, Cpuid, GetSgxQuote, GetSgxTargetInfo, GetSgxQuoteSize,
      GetSnpVcek, MmapHost, MprotectHost, MunmapHost, TrimSgxPages]"

text \<open>The enumerator a word denotes; \<open>None\<close> for the bit patterns that are no value of the
  enumeration.\<close>

definition enarxcall_number_of :: "usize \<Rightarrow> enarxcall_number option" where
  "enarxcall_number_of w = find (\<lambda>n. enarxcall_number_as_usize n = w) enarxcall_numbers"

definition gdbcall_payload_layout :: layout where
  "gdbcall_payload_layout = repr_c [usize_layout, array_of 4 usize_layout, usize_layout]"

definition enarxcall_payload_layout :: layout where
  "enarxcall_payload_layout = repr_c [usize_layout, array_of 4 usize_layout, usize_layout]"

definition gdbcall_USIZE_COUNT :: nat where
  "gdbcall_USIZE_COUNT = l_size gdbcall_payload_layout div l_size usize_layout"

definition enarxcall_USIZE_COUNT :: nat where
  "enarxcall_USIZE_COUNT = l_size enarxcall_payload_layout div l_size usize_layout"

definition gdbcall_payload_of :: "usize list \<Rightarrow> numbered_payload" where
  "gdbcall_payload_of buf = \<lparr>np_num = buf ! 0, np_argv = take 4 (drop 1 buf), np_ret = buf ! 5\<rparr>"

definition enarxcall_payload_of :: "usize list \<Rightarrow> numbered_payload" where
  "enarxcall_payload_of buf = \<lparr>np_num = buf ! 0, np_argv = take 4 (drop 1 buf), np_ret = buf ! 5\<rparr>"

definition numbered_payload_words :: "numbered_payload \<Rightarrow> usize list" where
  "numbered_payload_words p = np_num p # np_argv p @ [np_ret p]"

datatype item =
    ItemSyscall syscall_payload "byte list"
  | ItemGdbcall numbered_payload "byte list"
  | ItemEnarxcall numbered_payload "byte list"

definition LARGEST_PAYLOAD_SIZE :: nat where
  "LARGEST_PAYLOAD_SIZE =
     (let m = l_size gdbcall_payload_layout;
          m = (if l_size syscall_payload_layout > m then l_size syscall_payload_layout else m);
          m = (if l_size enarxcall_payload_layout > m then l_size enarxcall_payload_layout else m)
      in m)"

definition LARGEST_ITEM_SIZE :: nat where
  "LARGEST_ITEM_SIZE = l_size header_layout + LARGEST_PAYLOAD_SIZE"

section \<open>The block\<close>

definition block_size_hint :: "nat \<Rightarrow> nat \<Rightarrow> nat option" where
  "block_size_hint item_count data_size =
     (case checked_mul item_count LARGEST_ITEM_SIZE of
        None \<Rightarrow> None
      | Some item_size \<Rightarrow>
        (case checked_add item_size data_size of
           None \<Rightarrow> None
         | Some sz \<Rightarrow>
           (let count = sz div 8
            in if sz mod 8 = 0 then Some count else Some (count + 1))))"

text \<open>\<^verbatim>\<open>decode_item\<close>: \<^verbatim>\<open>split_at_mut\<close> panics when the index is past the end of
  the slice. \<^verbatim>\<open>debug_assert\<close>s are not part of a release build and are left out.\<close>

definition decode_item ::
  "nat \<Rightarrow> nat \<Rightarrow> usize list \<Rightarrow> ((usize list \<times> byte list) \<times> usize list) option outcome" where
  "decode_item count sz tail =
     (if length tail < sz div 8 then Panic
      else
        let payload = take (sz div 8) tail; tail = drop (sz div 8) tail
        in case checked_sub sz (8 * count) of
             None \<Rightarrow> Ret None
           | Some data_size \<Rightarrow>
             if length payload < count then Panic
             else
               let item_payload = take count payload;
                   data = bytes_of_words (drop count payload)
               in if length data \<noteq> data_size then Ret None
                  else Ret (Some ((item_payload, data), tail)))"

text \<open>\<^verbatim>\<open>From<Block> for Option<(Option<Item>, Block)>\<close>: the first item, if it is of a
  known kind, and the rest of the block. \<open>Ret None\<close> is the end of the items.\<close>

definition block_next :: "usize list \<Rightarrow> (item option \<times> usize list) option outcome" where
  "block_next block =
     (case block of
        sz # kind # tail \<Rightarrow>
          if unat sz mod 8 \<noteq> 0 then Ret None
          else (case kind_try_from kind of
             Inr End \<Rightarrow> Ret None
           | Inr Syscall \<Rightarrow>
               obind (decode_item syscall_USIZE_COUNT (unat sz) tail) (\<lambda>r. Ret
                 (map_option (\<lambda>((call, data), tail).
                    (Some (ItemSyscall (syscall_payload_of call) data), tail)) r))
           | Inr Gdbcall \<Rightarrow>
               obind (decode_item gdbcall_USIZE_COUNT (unat sz) tail) (\<lambda>r. Ret
                 (map_option (\<lambda>((call, data), tail).
                    (Some (ItemGdbcall (gdbcall_payload_of call) data), tail)) r))
           | Inr Enarxcall \<Rightarrow>
               obind (decode_item enarxcall_USIZE_COUNT (unat sz) tail) (\<lambda>r. Ret
                 (map_option (\<lambda>((call, data), tail).
                    (Some (ItemEnarxcall (enarxcall_payload_of call) data), tail)) r))
           | Inl _ \<Rightarrow>
               if length tail < unat sz div 8 then Panic
               else Ret (Some (None, drop (unat sz div 8) tail)))
      | _ \<Rightarrow> Ret None)"

lemma decode_item_shorter:
  "decode_item count sz tail = Ret (Some (x, tail')) \<Longrightarrow> length tail' \<le> length tail"
  by (auto simp: decode_item_def Let_def split: if_splits option.splits)

lemma block_next_shorter:
  "block_next block = Ret (Some (x, tail)) \<Longrightarrow> length tail < length block"
  by (auto simp: block_next_def obind_Ret dest!: decode_item_shorter
      split: list.splits if_splits sum.splits kind.splits)

text \<open>\<^verbatim>\<open>BlockIterator::next\<close> loops over the items of unknown kind.\<close>

function block_iter_next :: "usize list \<Rightarrow> (item \<times> usize list) option outcome" where
  "block_iter_next block =
     (case block_next block of
        Ret (Some (Some item, tail)) \<Rightarrow> Ret (Some (item, tail))
      | Ret (Some (None, tail)) \<Rightarrow> block_iter_next tail
      | Ret None \<Rightarrow> Ret None
      | Panic \<Rightarrow> Panic | UB \<Rightarrow> UB | Attacked \<Rightarrow> Attacked)"
  by pat_completeness auto
termination
  by (relation "measure length") (auto dest: block_next_shorter)

declare block_iter_next.simps [simp del]

lemma block_iter_next_shorter:
  "block_iter_next block = Ret (Some (item, tail)) \<Longrightarrow> length tail < length block"
proof (induction block rule: block_iter_next.induct)
  case (1 block)
  consider (known) "block_next block = Ret (Some (Some item, tail))"
    | (unknown) b where "block_next block = Ret (Some (None, b))"
        "block_iter_next b = Ret (Some (item, tail))"
    using "1.prems"
    by (subst (asm) block_iter_next.simps) (auto split: outcome.splits option.splits)
  then show ?case
  proof cases
    case known
    then show ?thesis by (rule block_next_shorter)
  next
    case unknown
    then have "length tail < length b" "length b < length block"
      by (auto intro: "1.IH" dest: block_next_shorter)
    then show ?thesis by simp
  qed
qed

text \<open>The items a \<^verbatim>\<open>for\<close> loop over the block sees.\<close>

function block_items :: "usize list \<Rightarrow> item list outcome" where
  "block_items block =
     (case block_iter_next block of
        Ret (Some (item, tail)) \<Rightarrow>
          (case block_items tail of Ret items \<Rightarrow> Ret (item # items) | x \<Rightarrow> x)
      | Ret None \<Rightarrow> Ret []
      | Panic \<Rightarrow> Panic | UB \<Rightarrow> UB | Attacked \<Rightarrow> Attacked)"
  by pat_completeness auto
termination
  by (relation "measure length") (auto dest: block_iter_next_shorter)

declare block_items.simps [simp del]

section \<open>The block format as an encoder\<close>

text \<open>
  What the block looks like, independently of the guest's allocator: an entry is a header of
  two words, the payload and the data. An entry of unknown kind is opaque.
\<close>

datatype entry = Known item | Unknown usize "usize list"

fun item_kind :: "item \<Rightarrow> kind" where
  "item_kind (ItemSyscall p d) = Syscall"
| "item_kind (ItemGdbcall p d) = Gdbcall"
| "item_kind (ItemEnarxcall p d) = Enarxcall"

fun item_payload_words :: "item \<Rightarrow> usize list" where
  "item_payload_words (ItemSyscall p d) = syscall_payload_words p"
| "item_payload_words (ItemGdbcall p d) = numbered_payload_words p"
| "item_payload_words (ItemEnarxcall p d) = numbered_payload_words p"

fun item_data :: "item \<Rightarrow> byte list" where
  "item_data (ItemSyscall p d) = d"
| "item_data (ItemGdbcall p d) = d"
| "item_data (ItemEnarxcall p d) = d"

definition item_size :: "item \<Rightarrow> nat" where
  "item_size it = 8 * length (item_payload_words it) + length (item_data it)"

fun encode_entry :: "entry \<Rightarrow> usize list" where
  "encode_entry (Known it) =
     to_usize (item_size it) # kind_as_usize (item_kind it) #
       item_payload_words it @ words_of_bytes (item_data it)"
| "encode_entry (Unknown k body) = to_usize (8 * length body) # k # body"

definition encode_end :: "usize list" where
  "encode_end = [0, kind_as_usize End]"

fun wf_payload :: "item \<Rightarrow> bool" where
  "wf_payload (ItemSyscall p d) \<longleftrightarrow> length (sp_argv p) = 6 \<and> length (sp_ret p) = 2"
| "wf_payload (ItemGdbcall p d) \<longleftrightarrow> length (np_argv p) = 4"
| "wf_payload (ItemEnarxcall p d) \<longleftrightarrow> length (np_argv p) = 4"

fun wf_entry :: "entry \<Rightarrow> bool" where
  "wf_entry (Known it) \<longleftrightarrow>
     wf_payload it \<and> 8 dvd length (item_data it) \<and> item_size it < usize_limit"
| "wf_entry (Unknown k body) \<longleftrightarrow> kind_try_from k = Err EINVAL \<and> 8 * length body < usize_limit"

fun known_items :: "entry list \<Rightarrow> item list" where
  "known_items [] = []"
| "known_items (Known it # es) = it # known_items es"
| "known_items (Unknown k body # es) = known_items es"

section \<open>Facts\<close>

lemma payload_layouts [layouts]:
  "header_layout = \<lparr>l_size = 16, l_align = 8\<rparr>"
  "syscall_payload_layout = \<lparr>l_size = 72, l_align = 8\<rparr>"
  "gdbcall_payload_layout = \<lparr>l_size = 48, l_align = 8\<rparr>"
  "enarxcall_payload_layout = \<lparr>l_size = 48, l_align = 8\<rparr>"
  by (simp_all add: header_layout_def syscall_payload_layout_def gdbcall_payload_layout_def
      enarxcall_payload_layout_def layout_rules layouts)

lemma usize_counts [simp]:
  "syscall_USIZE_COUNT = 9" "gdbcall_USIZE_COUNT = 6" "enarxcall_USIZE_COUNT = 6"
  by (simp_all add: syscall_USIZE_COUNT_def gdbcall_USIZE_COUNT_def enarxcall_USIZE_COUNT_def
      layouts)

lemma LARGEST_ITEM_SIZE_88: "LARGEST_ITEM_SIZE = 88"
  by (simp add: LARGEST_ITEM_SIZE_def LARGEST_PAYLOAD_SIZE_def layouts)

lemma kind_try_from_as_usize [simp]: "kind_try_from (kind_as_usize k) = Ok k"
  by (cases k) (simp_all add: kind_try_from_def)

lemma kind_try_from_numerals [simp]:
  "kind_try_from 0 = Ok End" "kind_try_from 1 = Ok Syscall"
  "kind_try_from 2 = Ok Gdbcall" "kind_try_from 3 = Ok Enarxcall"
  by (simp_all add: kind_try_from_def)

lemma kind_try_from_Ok: "kind_try_from w = Ok k \<longleftrightarrow> w = kind_as_usize k"
  by (cases k) (auto simp: kind_try_from_def)

lemma kind_try_from_Err: "kind_try_from w = Err e \<longleftrightarrow> e = EINVAL \<and> (\<forall>k. w \<noteq> kind_as_usize k)"
proof
  assume "kind_try_from w = Err e"
  then show "e = EINVAL \<and> (\<forall>k. w \<noteq> kind_as_usize k)"
    by (metis kind_try_from_as_usize kind_try_from_def old.sum.distinct(2) old.sum.inject(1))
next
  assume "e = EINVAL \<and> (\<forall>k. w \<noteq> kind_as_usize k)"
  then show "kind_try_from w = Err e"
    by (auto simp: kind_try_from_def simp del: kind_as_usize.simps)
qed

lemma length_six: "length xs = 6 \<Longrightarrow> \<exists>a b c d e f. xs = [a, b, c, d, e, f]"
  by (auto simp: numeral_eq_Suc length_Suc_conv)

lemma length_four: "length xs = 4 \<Longrightarrow> \<exists>a b c d. xs = [a, b, c, d]"
  by (auto simp: numeral_eq_Suc length_Suc_conv)

lemma length_two: "length xs = 2 \<Longrightarrow> \<exists>a b. xs = [a, b]"
  by (auto simp: numeral_eq_Suc length_Suc_conv)

lemma syscall_payload_of_words [simp]:
  "length (sp_argv p) = 6 \<Longrightarrow> length (sp_ret p) = 2 \<Longrightarrow>
     syscall_payload_of (syscall_payload_words p) = p"
  by (simp add: syscall_payload_of_def syscall_payload_words_def numeral_eq_Suc)

lemma numbered_payload_of_words [simp]:
  assumes "length (np_argv p) = 4"
  shows "gdbcall_payload_of (numbered_payload_words p) = p"
    and "enarxcall_payload_of (numbered_payload_words p) = p"
  using assms length_four [OF assms]
  by (auto simp: gdbcall_payload_of_def enarxcall_payload_of_def numbered_payload_words_def)

lemma syscall_payload_words_of:
  "length ws = 9 \<Longrightarrow> syscall_payload_words (syscall_payload_of ws) = ws"
  by (auto simp: syscall_payload_of_def syscall_payload_words_def numeral_eq_Suc length_Suc_conv)

lemma length_payload_words:
  "wf_payload it \<Longrightarrow> length (item_payload_words it) = (case item_kind it of Syscall \<Rightarrow> 9 | _ \<Rightarrow> 6)"
  by (cases it) (simp_all add: syscall_payload_words_def numbered_payload_words_def)

text \<open>A well-formed payload and its data decode to themselves.\<close>

lemma decode_item_encoded:
  assumes "8 dvd length d"
  shows "decode_item (length ws) (8 * length ws + length d) (ws @ words_of_bytes d @ tail)
           = Ret (Some ((ws, d), tail))"
proof -
  have l: "length (words_of_bytes d) = length d div 8"
    using assms by (rule length_words_of_bytes)
  have d: "(8 * length ws + length d) div 8 = length ws + length d div 8"
    by simp
  show ?thesis
    using assms by (simp add: decode_item_def Let_def checked_sub_def l d byte_simps)
qed

lemma block_next_known:
  assumes "wf_entry (Known it)"
  shows "block_next (encode_entry (Known it) @ tail) = Ret (Some (Some it, tail))"
proof -
  let ?ws = "item_payload_words it" and ?d = "item_data it"
  have u: "unat (to_usize (item_size it)) = item_size it"
    and m: "item_size it mod 8 = 0"
    using assms by (simp_all add: unat_to_usize) (simp add: item_size_def mod_eq_0_iff_dvd)
  have "decode_item (length ?ws) (item_size it) (?ws @ words_of_bytes ?d @ tail)
          = Ret (Some ((?ws, ?d), tail))"
    unfolding item_size_def by (rule decode_item_encoded) (use assms in simp)
  then show ?thesis
    using assms u m length_payload_words [of it]
    by (cases it) (simp_all add: block_next_def)
qed

lemma block_next_unknown:
  assumes "wf_entry (Unknown k body)"
  shows "block_next (encode_entry (Unknown k body) @ tail) = Ret (Some (None, tail))"
  using assms by (simp add: block_next_def unat_to_usize)

lemma block_next_end: "block_next (encode_end @ rest) = Ret None"
  by (simp add: block_next_def encode_end_def)

lemma block_iter_next_known:
  "wf_entry (Known it) \<Longrightarrow>
     block_iter_next (encode_entry (Known it) @ tail) = Ret (Some (it, tail))"
  by (subst block_iter_next.simps) (simp only: block_next_known, simp)

lemma block_iter_next_unknown:
  "wf_entry (Unknown k body) \<Longrightarrow>
     block_iter_next (encode_entry (Unknown k body) @ tail) = block_iter_next tail"
  by (subst block_iter_next.simps) (simp only: block_next_unknown, simp)

lemma block_items_known:
  assumes "wf_entry (Known it)" "block_items tail = Ret its"
  shows "block_items (encode_entry (Known it) @ tail) = Ret (it # its)"
  by (subst block_items.simps) (simp only: block_iter_next_known [OF assms(1)], simp add: assms(2))

lemma block_items_cong:
  "block_iter_next a = block_iter_next b \<Longrightarrow> block_items a = block_items b"
  by (subst (1 2) block_items.simps) simp

lemma block_items_end: "block_items (encode_end @ rest) = Ret []"
  by (subst block_items.simps, subst block_iter_next.simps) (simp only: block_next_end, simp)

lemma block_next_not_ub: "block_next b \<noteq> UB" "block_next b \<noteq> Attacked"
  by (auto simp: block_next_def decode_item_def obind_def Let_def
      split: list.splits if_splits sum.splits kind.splits option.splits outcome.splits)

lemma block_iter_next_not_ub: "block_iter_next b \<noteq> UB \<and> block_iter_next b \<noteq> Attacked"
proof (induction b rule: block_iter_next.induct)
  case (1 b)
  then show ?case
    by (subst (1 2) block_iter_next.simps)
       (auto split: outcome.splits option.splits simp: block_next_not_ub)
qed

lemma block_items_ret_or_panic: "(\<exists>its. block_items b = Ret its) \<or> block_items b = Panic"
proof (induction b rule: block_items.induct)
  case (1 b)
  consider (item) it t where "block_iter_next b = Ret (Some (it, t))"
    | (stop) "block_iter_next b = Ret None" | (panic) "block_iter_next b = Panic"
    using block_iter_next_not_ub [of b] by (cases "block_iter_next b") fastforce+
  then show ?case
  proof cases
    case item
    with "1.IH" show ?thesis
      by (subst (1 2) block_items.simps) fastforce
  qed (subst (1 2) block_items.simps, simp)+
qed

lemma decode_item_Panic: "decode_item count sz tail = Panic \<longleftrightarrow> length tail < sz div 8"
  by (auto simp: decode_item_def Let_def split: option.splits)

lemma length_encode_known:
  "wf_entry (Known it) \<Longrightarrow>
     8 * length (encode_entry (Known it)) \<le> LARGEST_ITEM_SIZE + length (item_data it)"
  using length_payload_words [of it]
  by (cases it) (auto simp: LARGEST_ITEM_SIZE_88 length_words_of_bytes dvd_mult_div_cancel)

lemma block_size_hint_Some:
  "block_size_hint n d = Some w \<Longrightarrow> n * LARGEST_ITEM_SIZE + d \<le> 8 * w"
  by (auto simp: block_size_hint_def Let_def split: option.splits if_splits)

section \<open>Decoding is the inverse of the format\<close>

text \<open>Whatever is taken off a block is an entry of the block format in front of the rest.\<close>

lemma decode_item_decoded:
  assumes "decode_item count sz tail = Ret (Some ((call, d), rest))" "sz mod 8 = 0"
  shows "tail = call @ words_of_bytes d @ rest" "length call = count" "8 dvd length d"
    "sz = 8 * count + length d"
proof -
  let ?p = "take (sz div 8) tail"
  have c: "call = take count ?p" "d = bytes_of_words (drop count ?p)" "rest = drop (sz div 8) tail"
    and l: "count \<le> length ?p" "length d = sz - 8 * count" "8 * count \<le> sz"
    using assms(1) by (auto simp: decode_item_def Let_def not_less split: if_splits option.splits)
  have "tail = ?p @ rest" and "?p = call @ words_of_bytes d"
    by (simp_all add: c byte_simps del: take_take)
  then show "tail = call @ words_of_bytes d @ rest" by simp
  show "length call = count" using l c by simp
  show "8 dvd length d" "sz = 8 * count + length d"
    using l assms(2) by (simp_all add: mod_eq_0_iff_dvd)
qed

lemma syscall_item_decoded:
  assumes "decode_item 9 (unat sz) tail = Ret (Some ((call, d), rest))" "unat sz mod 8 = 0"
  shows "sz # 1 # tail = encode_entry (Known (ItemSyscall (syscall_payload_of call) d)) @ rest"
    and "wf_entry (Known (ItemSyscall (syscall_payload_of call) d))"
proof -
  note d = decode_item_decoded [OF assms]
  have w: "syscall_payload_words (syscall_payload_of call) = call"
    using d(2) by (rule syscall_payload_words_of)
  have "item_size (ItemSyscall (syscall_payload_of call) d) = unat sz"
    using d(2,4) by (simp add: item_size_def w)
  then show "sz # 1 # tail = encode_entry (Known (ItemSyscall (syscall_payload_of call) d)) @ rest"
    and "wf_entry (Known (ItemSyscall (syscall_payload_of call) d))"
    using d(1-3) w unat_usize_less [of sz] by (simp_all add: syscall_payload_of_def)
qed

lemma numbered_payload_words_of:
  assumes "length ws = 6"
  shows "numbered_payload_words (gdbcall_payload_of ws) = ws"
    and "numbered_payload_words (enarxcall_payload_of ws) = ws"
  using length_six [OF assms]
  by (auto simp: gdbcall_payload_of_def enarxcall_payload_of_def numbered_payload_words_def)

lemma numbered_item_decoded:
  assumes "decode_item 6 (unat sz) tail = Ret (Some ((call, d), rest))" "unat sz mod 8 = 0"
  shows "sz # 2 # tail = encode_entry (Known (ItemGdbcall (gdbcall_payload_of call) d)) @ rest"
    and "wf_entry (Known (ItemGdbcall (gdbcall_payload_of call) d))"
    and "sz # 3 # tail = encode_entry (Known (ItemEnarxcall (enarxcall_payload_of call) d)) @ rest"
    and "wf_entry (Known (ItemEnarxcall (enarxcall_payload_of call) d))"
proof -
  note d = decode_item_decoded [OF assms]
  note w = numbered_payload_words_of [OF d(2)]
  have "item_size (ItemGdbcall (gdbcall_payload_of call) d) = unat sz"
    "item_size (ItemEnarxcall (enarxcall_payload_of call) d) = unat sz"
    using d(2,4) by (simp_all add: item_size_def w)
  then show "sz # 2 # tail = encode_entry (Known (ItemGdbcall (gdbcall_payload_of call) d)) @ rest"
    and "wf_entry (Known (ItemGdbcall (gdbcall_payload_of call) d))"
    and "sz # 3 # tail = encode_entry (Known (ItemEnarxcall (enarxcall_payload_of call) d)) @ rest"
    and "wf_entry (Known (ItemEnarxcall (enarxcall_payload_of call) d))"
    using d(1-3) w unat_usize_less [of sz]
    by (simp_all add: gdbcall_payload_of_def enarxcall_payload_of_def)
qed

lemma unknown_decoded:
  assumes "kind_try_from k = Err e" "unat sz mod 8 = 0" "unat sz div 8 \<le> length tail"
  shows "sz # k # tail = encode_entry (Unknown k (take (unat sz div 8) tail)) @ drop (unat sz div 8) tail"
    and "wf_entry (Unknown k (take (unat sz div 8) tail))"
  using assms unat_usize_less [of sz] kind_try_from_Err [of k e]
  by (auto simp: min_absorb2 dvd_eq_mod_eq_0)

lemma block_next_decoded:
  assumes "block_next ws = Ret (Some (x, tail))"
  obtains it where "x = Some it" "wf_entry (Known it)" "ws = encode_entry (Known it) @ tail"
  | k body where "x = None" "wf_entry (Unknown k body)" "ws = encode_entry (Unknown k body) @ tail"
proof -
  obtain sz k t where ws: "ws = sz # k # t"
    using assms by (auto simp: block_next_def split: list.splits)
  have m: "unat sz mod 8 = 0"
    using assms by (auto simp: block_next_def ws split: if_splits)
  show thesis
  proof (cases "kind_try_from k")
    case (Inl e)
    with assms m have "unat sz div 8 \<le> length t" "x = None" "tail = drop (unat sz div 8) t"
      by (auto simp: block_next_def ws split: if_splits)
    with unknown_decoded [OF Inl m] ws show thesis by (metis that(2))
  next
    case (Inr kd)
    then have "k = kind_as_usize kd" by (simp add: kind_try_from_Ok)
    then consider (sys) call d where "k = 1" "decode_item 9 (unat sz) t = Ret (Some ((call, d), tail))"
        "x = Some (ItemSyscall (syscall_payload_of call) d)"
      | (gdb) call d where "k = 2" "decode_item 6 (unat sz) t = Ret (Some ((call, d), tail))"
        "x = Some (ItemGdbcall (gdbcall_payload_of call) d)"
      | (enarx) call d where "k = 3" "decode_item 6 (unat sz) t = Ret (Some ((call, d), tail))"
        "x = Some (ItemEnarxcall (enarxcall_payload_of call) d)"
      using assms m by (cases kd) (auto simp: block_next_def ws obind_Ret)
    then show thesis
      using ws syscall_item_decoded [OF _ m] numbered_item_decoded [OF _ m]
      by cases (metis that(1))+
  qed
qed

text \<open>Induction over a block: it ends, it cannot be decoded, or it starts with an entry.\<close>

lemma block_cases [case_names stop panic known unknown]:
  assumes "block_next ws = Ret None \<Longrightarrow> P" "block_next ws = Panic \<Longrightarrow> P"
    and "\<And>it tail. ws = encode_entry (Known it) @ tail \<Longrightarrow> wf_entry (Known it) \<Longrightarrow> P"
    and "\<And>k body tail. ws = encode_entry (Unknown k body) @ tail \<Longrightarrow> wf_entry (Unknown k body) \<Longrightarrow> P"
  shows P
proof (cases "block_next ws")
  case (Ret r)
  show P
  proof (cases r)
    case None
    with Ret assms(1) show P by simp
  next
    case (Some xt)
    with Ret obtain x tail where "block_next ws = Ret (Some (x, tail))" by (cases xt) simp
    then show P by (rule block_next_decoded) (use assms(3,4) in auto)
  qed
qed (use assms block_next_not_ub in auto)

lemma block_induct [case_names stop panic known unknown]:
  assumes "\<And>ws. block_next ws = Ret None \<Longrightarrow> P ws" "\<And>ws. block_next ws = Panic \<Longrightarrow> P ws"
    and "\<And>it tail. wf_entry (Known it) \<Longrightarrow> P tail \<Longrightarrow> P (encode_entry (Known it) @ tail)"
    and "\<And>k body tail. wf_entry (Unknown k body) \<Longrightarrow> P tail \<Longrightarrow> P (encode_entry (Unknown k body) @ tail)"
  shows "P ws"
proof (induction ws rule: length_induct)
  case (1 ws)
  show ?case
    by (cases ws rule: block_cases) (use assms 1 in \<open>fastforce+\<close>)
qed

section \<open>Properties\<close>

text \<open>C9: the block iterator inverts the block format. Whatever sequence of well-formed entries
  a block holds before its end marker, iterating over it yields exactly the items of known kind,
  in order, with their payload and data unchanged; entries of unknown kind are skipped, and
  nothing after the end marker is looked at.\<close>

theorem block_roundtrip:
  "list_all wf_entry es \<Longrightarrow>
     block_items (concat (map encode_entry es) @ encode_end @ rest) = Ret (known_items es)"
proof (induction es)
  case Nil
  show ?case by (simp add: block_items_end)
next
  case (Cons e es)
  let ?tail = "concat (map encode_entry es) @ encode_end @ rest"
  have IH: "block_items ?tail = Ret (known_items es)" and wf: "wf_entry e"
    using Cons by auto
  show ?case
  proof (cases e)
    case (Known it)
    with block_items_known [OF _ IH, of it] wf show ?thesis by simp
  next
    case (Unknown k body)
    with wf have "block_items (encode_entry (Unknown k body) @ ?tail) = block_items ?tail"
      by (intro block_items_cong block_iter_next_unknown) simp
    with IH Unknown show ?thesis by simp
  qed
qed

theorem block_roundtrip_witness:
  "block_items (concat (map encode_entry
       [Unknown 7 [1, 2],
        Known (ItemSyscall \<lparr>sp_num = 39, sp_argv = [0, 0, 0, 0, 0, 0], sp_ret = [5, 0]\<rparr> [1, 2, 3, 4, 5, 6, 7, 8]),
        Known (ItemEnarxcall \<lparr>np_num = 2, np_argv = [1, 2, 3, 4], np_ret = 0\<rparr> [])])
      @ encode_end @ [9]) =
   Ret [ItemSyscall \<lparr>sp_num = 39, sp_argv = [0, 0, 0, 0, 0, 0], sp_ret = [5, 0]\<rparr> [1, 2, 3, 4, 5, 6, 7, 8],
        ItemEnarxcall \<lparr>np_num = 2, np_argv = [1, 2, 3, 4], np_ret = 0\<rparr> []]"
  by (subst block_roundtrip)
     (simp_all add: item_size_def syscall_payload_words_def numbered_payload_words_def
        usize_limit_def kind_try_from_def dvd_eq_mod_eq_0)

text \<open>C10: taking the next item off a block panics in exactly one situation: the header is of a
  kind other than end, declares a size that is a multiple of eight, and that size does not fit in
  what is left of the block.\<close>

theorem block_next_panics_iff:
  "block_next b = Panic \<longleftrightarrow>
     2 \<le> length b \<and> unat (b ! 0) mod 8 = 0 \<and> b ! 1 \<noteq> kind_as_usize End \<and>
     length b - 2 < unat (b ! 0) div 8"
proof (cases "2 \<le> length b")
  case False
  then have "b = [] \<or> (\<exists>x. b = [x])"
    by (cases b) (auto simp: Suc_le_eq)
  then show ?thesis
    by (auto simp: block_next_def)
next
  case True
  then obtain sz k tail where b: "b = sz # k # tail"
    by (auto simp: numeral_2_eq_2 Suc_le_length_iff)
  show ?thesis
  proof (cases "kind_try_from k")
    case (Inl e)
    then have "k \<noteq> kind_as_usize End"
      using kind_try_from_Err by blast
    with Inl b show ?thesis by (simp add: block_next_def)
  next
    case (Inr kd)
    then have "k = kind_as_usize kd"
      by (simp add: kind_try_from_Ok)
    with b show ?thesis
      by (cases kd) (simp_all add: block_next_def obind_Ret_Panic decode_item_Panic dvd_eq_mod_eq_0)
  qed
qed


text \<open>C12: \<^verbatim>\<open>Block::size_hint\<close> is enough: a block of the hinted number of words holds any
  well-formed items of that number whose data adds up to the given size.\<close>

theorem block_size_hint_enough:
  assumes "list_all (\<lambda>it. wf_entry (Known it)) its"
    and "block_size_hint (length its) (sum_list (map (\<lambda>it. length (item_data it)) its)) = Some w"
  shows "length (concat (map (\<lambda>it. encode_entry (Known it)) its)) \<le> w"
proof -
  have "list_all (\<lambda>it. wf_entry (Known it)) its \<Longrightarrow>
      8 * length (concat (map (\<lambda>it. encode_entry (Known it)) its)) \<le>
        length its * LARGEST_ITEM_SIZE + sum_list (map (\<lambda>it. length (item_data it)) its)"
  proof (induction its)
    case (Cons it its)
    then show ?case
      using length_encode_known [of it] by (simp del: encode_entry.simps wf_entry.simps)
  qed simp
  with assms(1) block_size_hint_Some [OF assms(2)] show ?thesis
    by linarith
qed

theorem block_size_hint_enough_witness:
  "length (concat (map (\<lambda>it. encode_entry (Known it))
      [ItemSyscall \<lparr>sp_num = 39, sp_argv = [0, 0, 0, 0, 0, 0], sp_ret = [5, 0]\<rparr> [1, 2, 3, 4, 5, 6, 7, 8]])) \<le> 12"
  by (rule block_size_hint_enough)
     (simp_all add: item_size_def syscall_payload_words_def usize_limit_def block_size_hint_def
        LARGEST_ITEM_SIZE_88 checked_add_def checked_mul_def dvd_eq_mod_eq_0)

end
