(* ===== verification/Phase_Alloc.thy ===== *)
theory Phase_Alloc
  imports Items
begin

text \<open>
  The bump allocator that lays a request out in the sallyport block
  (\<^verbatim>\<open>crates/sallyport/src/guest/alloc/phase_alloc.rs\<close>). The allocator is the rest of the
  block (address and length in bytes) and the offset of its next object from the start of the
  current section. The three phases (stage, commit, collect) are marker types without data;
  one record serves them all.

  Lemmas: an allocation only ever advances the allocator (\<open>advances\<close>), returns an aligned
  region of the requested size between the old and the new position, and reports the offset of
  that region; \<open>allocate_layout\<close> fails only with \<^verbatim>\<open>EOVERFLOW\<close> or \<^verbatim>\<open>ENOMEM\<close>
  and succeeds exactly when padding and size fit; a reservation leaves enough room for the
  reserved object when the end of the block is aligned for it.
\<close>

section \<open>The allocator\<close>

record alloc =
  a_ptr :: nat
  a_len :: nat
  a_offset :: nat

type_synonym region = "nat \<times> nat"

definition into_phase :: "alloc \<Rightarrow> alloc" where
  "into_phase al = \<lparr>a_ptr = a_ptr al, a_len = a_len al, a_offset = a_offset al\<rparr>"

text \<open>\<open>alloc_new addr n\<close>: the allocator over a buffer of \<open>n\<close> words at address
  \<open>addr\<close>.\<close>

definition alloc_new :: "nat \<Rightarrow> nat \<Rightarrow> alloc" where
  "alloc_new addr n = \<lparr>a_ptr = addr, a_len = 8 * n, a_offset = 0\<rparr>"

definition alloc_stage :: "alloc \<Rightarrow> alloc" where
  "alloc_stage al = \<lparr>a_ptr = a_ptr al, a_len = a_len al, a_offset = a_offset al\<rparr>"

definition allocate_layout :: "layout \<Rightarrow> (alloc, region \<times> nat) stager" where
  "allocate_layout L al =
     (let free = a_len al;
          pad_size = align_offset (a_ptr al) (l_align L);
          layout_size = l_size L
      in case checked_add pad_size layout_size of
           None \<Rightarrow> Err EOVERFLOW
         | Some needed \<Rightarrow>
           if free < needed then Err ENOMEM
           else
             let offset = a_offset al + pad_size
             in Ok (((a_ptr al + pad_size, layout_size), offset),
                    \<lparr>a_ptr = a_ptr al + pad_size + layout_size,
                     a_len = free - pad_size - layout_size,
                     a_offset = offset + layout_size\<rparr>))"

definition reserve_layout ::
  "layout \<Rightarrow> (alloc, 'a) stager \<Rightarrow> (alloc, 'a \<times> region \<times> nat) stager" where
  "reserve_layout L f al =
     rbind (ok_or (checked_sub (a_len al) (l_size L)) ENOMEM) (\<lambda>free.
       let pad_size = align_offset (a_ptr al + free) (l_align L) mod l_align L
       in rbind (ok_or (checked_sub free pad_size) ENOMEM) (\<lambda>free.
            rbind (f \<lparr>a_ptr = a_ptr al, a_len = free, a_offset = a_offset al\<rparr>) (\<lambda>(data, alloc).
              rbind (allocate_layout L (alloc\<lparr>a_len := a_len alloc + pad_size + l_size L\<rparr>))
                (\<lambda>((ptr, offset), alloc). Ok ((data, ptr, offset), alloc)))))"

text \<open>\<^verbatim>\<open>free::<T>()\<close>: how many elements of type \<^verbatim>\<open>T\<close> still fit. The source divides by
  the size of \<^verbatim>\<open>T\<close>, which is not zero for any type the crate allocates.\<close>

definition alloc_free :: "layout \<Rightarrow> alloc \<Rightarrow> nat" where
  "alloc_free T al =
     (let free_bytes = a_len al; pad_size = align_offset (a_ptr al) (l_align T)
      in if free_bytes < pad_size then 0 else (free_bytes - pad_size) div l_size T)"

definition alloc_section :: "(alloc, 'a) stager \<Rightarrow> (alloc, 'a \<times> nat) stager" where
  "alloc_section f al =
     rbind (f \<lparr>a_ptr = a_ptr al, a_len = a_len al, a_offset = 0\<rparr>) (\<lambda>(s, alloc).
       Ok ((s, a_offset alloc),
           \<lparr>a_ptr = a_ptr alloc, a_len = a_len alloc, a_offset = a_offset al + a_offset alloc\<rparr>))"

definition alloc_commit :: "alloc \<Rightarrow> alloc" where
  "alloc_commit al = into_phase al"

text \<open>\<^verbatim>\<open>sally\<close>: the closure that moves to the collect phase checks that it is given the block
  the request was laid out in.\<close>

definition alloc_sally :: "alloc \<Rightarrow> nat \<Rightarrow> nat \<Rightarrow> alloc result" where
  "alloc_sally al block_ptr block_len =
     (if block_ptr \<noteq> a_ptr al - a_offset al \<or> block_len * 8 < a_offset al then Err EFAULT
      else Ok al)"

definition alloc_collect :: "alloc \<Rightarrow> alloc" where
  "alloc_collect al = into_phase al"

section \<open>Advancing\<close>

text \<open>\<open>advances al al'\<close>: \<open>al'\<close> is the same block with its position moved forward; what
  was handed out is the difference of the positions.\<close>

definition advances :: "alloc \<Rightarrow> alloc \<Rightarrow> bool" where
  "advances al al' \<longleftrightarrow> a_ptr al \<le> a_ptr al' \<and> a_ptr al' + a_len al' = a_ptr al + a_len al \<and>
     a_offset al' + a_ptr al = a_offset al + a_ptr al'"

definition advancing :: "(alloc, 'a) stager \<Rightarrow> bool" where
  "advancing m \<longleftrightarrow> (\<forall>al x al'. m al = Ok (x, al') \<longrightarrow> advances al al')"

lemma advances_refl [simp]: "advances al al"
  by (simp add: advances_def)

lemma advances_trans [trans]: "advances al al' \<Longrightarrow> advances al' al'' \<Longrightarrow> advances al al''"
  by (simp add: advances_def)

lemma advances_ptr: "advances al al' \<Longrightarrow> a_ptr al \<le> a_ptr al'"
  by (simp add: advances_def)

lemma advancingD: "advancing m \<Longrightarrow> m al = Ok (x, al') \<Longrightarrow> advances al al'"
  by (auto simp: advancing_def)

lemma advancing_sreturn [intro, simp]: "advancing (sreturn x)"
  by (simp add: advancing_def)

lemma advancing_sfail [intro, simp]: "advancing (sfail e)"
  by (simp add: advancing_def)

lemma advancing_sresult [intro, simp]: "advancing (sresult r)"
  by (simp add: advancing_def sresult_Inr)

lemma advancing_sbind [intro]:
  "advancing m \<Longrightarrow> (\<And>x. advancing (f x)) \<Longrightarrow> advancing (sbind m f)"
  unfolding advancing_def sbind_Inr by (blast intro: advances_trans)

lemma advancing_smap [intro]: "advancing m \<Longrightarrow> advancing (smap f m)"
  unfolding smap_def by blast

text \<open>Everything \<open>allocate_layout\<close> promises when it succeeds.\<close>

lemma allocate_layout_Ok:
  assumes "allocate_layout L al = Ok (((addr, n), off), al')"
  shows "addr = a_ptr al + align_offset (a_ptr al) (l_align L)"
    and "n = l_size L"
    and "off + a_ptr al = a_offset al + addr"
    and "a_ptr al' = addr + n"
    and "advances al al'"
  using assms
  by (auto simp: allocate_layout_def Let_def advances_def split: option.splits if_splits)

lemma advancing_allocate_layout [intro, simp]: "advancing (allocate_layout L)"
  unfolding advancing_def using allocate_layout_Ok(5) by fastforce

lemma allocate_layout_total:
  assumes "align_offset (a_ptr al) (l_align L) + l_size L \<le> a_len al" "a_len al < usize_limit"
  shows "allocate_layout L al =
           Ok (((a_ptr al + align_offset (a_ptr al) (l_align L), l_size L),
                a_offset al + align_offset (a_ptr al) (l_align L)),
               \<lparr>a_ptr = a_ptr al + align_offset (a_ptr al) (l_align L) + l_size L,
                a_len = a_len al - align_offset (a_ptr al) (l_align L) - l_size L,
                a_offset = a_offset al + align_offset (a_ptr al) (l_align L) + l_size L\<rparr>)"
  using assms by (simp add: allocate_layout_def Let_def checked_add_def)

lemma allocate_layout_errors:
  "allocate_layout L al = Err e \<Longrightarrow> e = EOVERFLOW \<or> e = ENOMEM"
  by (auto simp: allocate_layout_def Let_def split: option.splits if_splits)

lemma advancing_alloc_section [intro]:
  assumes "advancing f" shows "advancing (alloc_section f)"
  unfolding advancing_def
proof (intro allI impI)
  fix al x al'
  assume "alloc_section f al = Ok (x, al')"
  then obtain s b where f: "f \<lparr>a_ptr = a_ptr al, a_len = a_len al, a_offset = 0\<rparr> = Ok (s, b)"
    and al': "al' = \<lparr>a_ptr = a_ptr b, a_len = a_len b, a_offset = a_offset al + a_offset b\<rparr>"
    by (auto simp: alloc_section_def rbind_Inr)
  from advancingD [OF assms f] al' show "advances al al'"
    by (simp add: advances_def)
qed

lemma alloc_section_Ok:
  assumes "alloc_section f al = Ok ((s, n), al')" "advancing f"
  shows "\<exists>b. f \<lparr>a_ptr = a_ptr al, a_len = a_len al, a_offset = 0\<rparr> = Ok (s, b) \<and>
           n = a_ptr al' - a_ptr al \<and> a_ptr b = a_ptr al' \<and> advances al al'"
proof -
  from assms(1) obtain b where
    f: "f \<lparr>a_ptr = a_ptr al, a_len = a_len al, a_offset = 0\<rparr> = Ok (s, b)"
    and al': "al' = \<lparr>a_ptr = a_ptr b, a_len = a_len b, a_offset = a_offset al + a_offset b\<rparr>"
    and n: "n = a_offset b"
    by (auto simp: alloc_section_def rbind_Inr)
  from advancingD [OF assms(2) f] al' n f show ?thesis
    by (auto simp: advances_def)
qed

lemma reserve_layout_Ok:
  assumes "reserve_layout L f al = Ok ((x, ((addr, n), off)), al')" "advancing f"
  shows "\<exists>free b. free \<le> a_len al \<and>
           f \<lparr>a_ptr = a_ptr al, a_len = free, a_offset = a_offset al\<rparr> = Ok (x, b) \<and>
           a_ptr al \<le> a_ptr b \<and> a_ptr b \<le> addr \<and> a_ptr al' = addr + n \<and> n = l_size L \<and>
           addr = a_ptr b + align_offset (a_ptr b) (l_align L) \<and> advances al al'"
proof -
  let ?s = "l_size L"
  define fr where "fr = a_len al - ?s"
  define p where "p = align_offset (a_ptr al + fr) (l_align L) mod l_align L"
  from assms(1) obtain b where le: "?s \<le> a_len al" "p \<le> fr"
    and f: "f \<lparr>a_ptr = a_ptr al, a_len = fr - p, a_offset = a_offset al\<rparr> = Ok (x, b)"
    and a: "allocate_layout L (b\<lparr>a_len := a_len b + p + ?s\<rparr>) = Ok (((addr, n), off), al')"
    unfolding reserve_layout_def Let_def fr_def p_def
    by (fastforce simp: rbind_Inr ok_or_Inr)
  note adv = advancingD [OF assms(2) f] and al = allocate_layout_Ok [OF a]
  from adv al le f show ?thesis
    by (intro exI [of _ "fr - p"] exI [of _ b]) (auto simp: advances_def fr_def)
qed

lemma advancing_reserve_layout [intro]:
  assumes "advancing f" shows "advancing (reserve_layout L f)"
  unfolding advancing_def
proof (intro allI impI)
  fix al r al'
  assume "reserve_layout L f al = Ok (r, al')"
  then show "advances al al'"
    using reserve_layout_Ok [OF _ assms] by (metis surj_pair)
qed

lemmas advancing_intros =
  advancing_sreturn advancing_sfail advancing_sresult advancing_sbind advancing_smap
  advancing_allocate_layout advancing_alloc_section advancing_reserve_layout

end
