(* ===== verification/Alloc_Refs.thy ===== *)
theory Alloc_Refs
  imports Phase_Alloc
begin

text \<open>
  References into the sallyport block and the values that travel through them
  (\<^verbatim>\<open>crates/sallyport/src/guest/alloc/{mod,input,output,inout}.rs\<close>).

  A reference is an address, the layout of its element type, the number of elements (one for a
  reference to a sized type) and the offset in the current section. A value of a type
  \<^verbatim>\<open>T: Copy\<close> is the list of its \<^verbatim>\<open>size_of::<T>()\<close> bytes, a slice the
  concatenation of its elements. The copies are \<^verbatim>\<open>unsafe\<close> in the source; a copy that breaks
  the documented precondition, is not aligned, or leaves the block, is \<open>None\<close> (commit) or \<open>UB\<close>
  (collect).

  Lemmas: what is staged lies between the two positions of the allocator; committing it is
  defined, changes nothing outside of that interval and leaves the value readable at the
  reference; collecting it is defined for any contents of the block.
\<close>

section \<open>References\<close>

definition array_layout :: "layout \<Rightarrow> nat \<Rightarrow> layout result" where
  "array_layout T n = ok_or (layout_array T n) EOVERFLOW"

text \<open>The number of elements of type \<^verbatim>\<open>T\<close> in a slice.\<close>

definition slice_len :: "layout \<Rightarrow> byte list \<Rightarrow> nat" where
  "slice_len T bs = length bs div l_size T"

record in_ref =
  in_ptr :: nat
  in_elem :: layout
  in_count :: nat
  in_offset :: nat

record out_ref =
  out_ptr :: nat
  out_elem :: layout
  out_count :: nat
  out_offset :: nat

datatype inout_ref = InOutRef (inout_in: in_ref)

definition in_ref_new :: "region \<Rightarrow> nat \<Rightarrow> in_ref" where
  "in_ref_new ptr offset =
     \<lparr>in_ptr = fst ptr, in_elem = u8_layout, in_count = snd ptr, in_offset = offset\<rparr>"

definition in_ref_cast :: "layout \<Rightarrow> in_ref \<Rightarrow> in_ref" where
  "in_ref_cast T r =
     \<lparr>in_ptr = in_ptr r, in_elem = T, in_count = 1, in_offset = in_offset r\<rparr>"

definition in_ref_cast_slice :: "layout \<Rightarrow> nat \<Rightarrow> in_ref \<Rightarrow> in_ref" where
  "in_ref_cast_slice T n r =
     \<lparr>in_ptr = in_ptr r, in_elem = T, in_count = n, in_offset = in_offset r\<rparr>"

definition out_ref_new :: "region \<Rightarrow> nat \<Rightarrow> out_ref" where
  "out_ref_new ptr offset =
     \<lparr>out_ptr = fst ptr, out_elem = u8_layout, out_count = snd ptr, out_offset = offset\<rparr>"

definition out_ref_cast :: "layout \<Rightarrow> out_ref \<Rightarrow> out_ref" where
  "out_ref_cast T r =
     \<lparr>out_ptr = out_ptr r, out_elem = T, out_count = 1, out_offset = out_offset r\<rparr>"

definition out_ref_cast_slice :: "layout \<Rightarrow> nat \<Rightarrow> out_ref \<Rightarrow> out_ref" where
  "out_ref_cast_slice T n r =
     \<lparr>out_ptr = out_ptr r, out_elem = T, out_count = n, out_offset = out_offset r\<rparr>"

definition inout_ref_new :: "region \<Rightarrow> nat \<Rightarrow> inout_ref" where
  "inout_ref_new ptr offset = InOutRef (in_ref_new ptr offset)"

definition inout_ref_cast :: "layout \<Rightarrow> inout_ref \<Rightarrow> inout_ref" where
  "inout_ref_cast T r = InOutRef (in_ref_cast T (inout_in r))"

definition inout_ref_cast_slice :: "layout \<Rightarrow> nat \<Rightarrow> inout_ref \<Rightarrow> inout_ref" where
  "inout_ref_cast_slice T n r = InOutRef (in_ref_cast_slice T n (inout_in r))"

definition out_ref_of_inout :: "inout_ref \<Rightarrow> out_ref" where
  "out_ref_of_inout r =
     \<lparr>out_ptr = in_ptr (inout_in r), out_elem = in_elem (inout_in r),
      out_count = in_count (inout_in r), out_offset = in_offset (inout_in r)\<rparr>"

definition inout_ref_commit :: "inout_ref \<Rightarrow> (mem, out_ref) committer" where
  "inout_ref_commit r = creturn (out_ref_of_inout r)"

text \<open>The copies. \<open>copy_from_iter ptr srcs\<close> is the fold of
  \<^verbatim>\<open>copy_from_nonoverlapping\<close> over the sources.\<close>

fun copy_from_iter :: "nat \<Rightarrow> byte list list \<Rightarrow> (mem, unit) committer" where
  "copy_from_iter ptr [] = creturn ()"
| "copy_from_iter ptr (src # srcs) =
     cbind (mem_write ptr src) (\<lambda>_. copy_from_iter (ptr + length src) srcs)"

fun copy_to_iter :: "nat \<Rightarrow> byte list list \<Rightarrow> mem \<Rightarrow> byte list list option" where
  "copy_to_iter ptr [] m = Some []"
| "copy_to_iter ptr (dest # dests) m =
     (case mem_read ptr (length dest) m of
        None \<Rightarrow> None
      | Some bs \<Rightarrow> map_option ((#) bs) (copy_to_iter (ptr + length dest) dests m))"

definition in_ref_copy_from :: "in_ref \<Rightarrow> byte list \<Rightarrow> (mem, unit) committer" where
  "in_ref_copy_from r src m =
     (if length src = l_size (in_elem r) \<and> l_align (in_elem r) dvd in_ptr r
      then mem_write (in_ptr r) src m else None)"

definition copy_from_iter_unchecked :: "in_ref \<Rightarrow> byte list list \<Rightarrow> (mem, unit) committer" where
  "copy_from_iter_unchecked r srcs m =
     (if sum_list (map length srcs) \<le> l_size (in_elem r) * in_count r \<and>
         l_align (in_elem r) dvd in_ptr r
      then copy_from_iter (in_ptr r) srcs m else None)"

definition copy_from_unchecked :: "in_ref \<Rightarrow> byte list \<Rightarrow> (mem, unit) committer" where
  "copy_from_unchecked r src = copy_from_iter_unchecked r [src]"

definition out_ref_copy_to :: "out_ref \<Rightarrow> mem \<Rightarrow> byte list outcome" where
  "out_ref_copy_to r m =
     (if l_align (out_elem r) dvd out_ptr r
      then or_ub (mem_read (out_ptr r) (l_size (out_elem r)) m) else UB)"

definition copy_to_iter_unchecked :: "out_ref \<Rightarrow> byte list list \<Rightarrow> mem \<Rightarrow> byte list list outcome" where
  "copy_to_iter_unchecked r dests m =
     (if sum_list (map length dests) \<le> l_size (out_elem r) * out_count r \<and>
         l_align (out_elem r) dvd out_ptr r
      then or_ub (copy_to_iter (out_ptr r) dests m) else UB)"

definition copy_to_unchecked :: "out_ref \<Rightarrow> byte list \<Rightarrow> mem \<Rightarrow> byte list outcome" where
  "copy_to_unchecked r dest m = obind (copy_to_iter_unchecked r [dest] m) (\<lambda>ds. Ret (hd ds))"

section \<open>Allocating references\<close>

definition allocate_input_layout :: "layout \<Rightarrow> (alloc, in_ref) stager" where
  "allocate_input_layout L = smap (\<lambda>(ptr, offset). in_ref_new ptr offset) (allocate_layout L)"

definition allocate_output_layout :: "layout \<Rightarrow> (alloc, out_ref) stager" where
  "allocate_output_layout L = smap (\<lambda>(ptr, offset). out_ref_new ptr offset) (allocate_layout L)"

definition allocate_inout_layout :: "layout \<Rightarrow> (alloc, inout_ref) stager" where
  "allocate_inout_layout L = smap (\<lambda>(ptr, offset). inout_ref_new ptr offset) (allocate_layout L)"

definition reserve_input_layout ::
  "layout \<Rightarrow> (alloc, 'a) stager \<Rightarrow> (alloc, 'a \<times> in_ref) stager" where
  "reserve_input_layout L f =
     smap (\<lambda>(data, ptr, offset). (data, in_ref_new ptr offset)) (reserve_layout L f)"

definition reserve_output_layout ::
  "layout \<Rightarrow> (alloc, 'a) stager \<Rightarrow> (alloc, 'a \<times> out_ref) stager" where
  "reserve_output_layout L f =
     smap (\<lambda>(data, ptr, offset). (data, out_ref_new ptr offset)) (reserve_layout L f)"

definition reserve_inout_layout ::
  "layout \<Rightarrow> (alloc, 'a) stager \<Rightarrow> (alloc, 'a \<times> inout_ref) stager" where
  "reserve_inout_layout L f =
     smap (\<lambda>(data, ptr, offset). (data, inout_ref_new ptr offset)) (reserve_layout L f)"

definition allocate_input :: "layout \<Rightarrow> (alloc, in_ref) stager" where
  "allocate_input T = smap (in_ref_cast T) (allocate_input_layout T)"

definition allocate_output :: "layout \<Rightarrow> (alloc, out_ref) stager" where
  "allocate_output T = smap (out_ref_cast T) (allocate_output_layout T)"

definition allocate_inout :: "layout \<Rightarrow> (alloc, inout_ref) stager" where
  "allocate_inout T = smap (inout_ref_cast T) (allocate_inout_layout T)"

definition reserve_input :: "layout \<Rightarrow> (alloc, 'a) stager \<Rightarrow> (alloc, 'a \<times> in_ref) stager" where
  "reserve_input T f =
     smap (\<lambda>(data, reserved). (data, in_ref_cast T reserved)) (reserve_input_layout T f)"

definition reserve_output :: "layout \<Rightarrow> (alloc, 'a) stager \<Rightarrow> (alloc, 'a \<times> out_ref) stager" where
  "reserve_output T f =
     smap (\<lambda>(data, reserved). (data, out_ref_cast T reserved)) (reserve_output_layout T f)"

definition reserve_inout :: "layout \<Rightarrow> (alloc, 'a) stager \<Rightarrow> (alloc, 'a \<times> inout_ref) stager" where
  "reserve_inout T f =
     smap (\<lambda>(data, reserved). (data, inout_ref_cast T reserved)) (reserve_inout_layout T f)"

definition allocate_input_slice :: "layout \<Rightarrow> nat \<Rightarrow> (alloc, in_ref) stager" where
  "allocate_input_slice T n =
     sbind (sresult (array_layout T n)) (\<lambda>L.
       smap (in_ref_cast_slice T n) (allocate_input_layout L))"

definition allocate_output_slice :: "layout \<Rightarrow> nat \<Rightarrow> (alloc, out_ref) stager" where
  "allocate_output_slice T n =
     sbind (sresult (array_layout T n)) (\<lambda>L.
       smap (out_ref_cast_slice T n) (allocate_output_layout L))"

definition allocate_inout_slice :: "layout \<Rightarrow> nat \<Rightarrow> (alloc, inout_ref) stager" where
  "allocate_inout_slice T n =
     sbind (sresult (array_layout T n)) (\<lambda>L.
       smap (inout_ref_cast_slice T n) (allocate_inout_layout L))"

definition allocate_input_slice_max :: "layout \<Rightarrow> nat \<Rightarrow> (alloc, in_ref) stager" where
  "allocate_input_slice_max T n al = allocate_input_slice T (min n (alloc_free T al)) al"

definition allocate_output_slice_max :: "layout \<Rightarrow> nat \<Rightarrow> (alloc, out_ref) stager" where
  "allocate_output_slice_max T n al = allocate_output_slice T (min n (alloc_free T al)) al"

definition allocate_inout_slice_max :: "layout \<Rightarrow> nat \<Rightarrow> (alloc, inout_ref) stager" where
  "allocate_inout_slice_max T n al = allocate_inout_slice T (min n (alloc_free T al)) al"

section \<open>Inputs, outputs and inouts\<close>

record input_t =
  i_ref :: in_ref
  i_val :: "byte list"

record output_t =
  o_ref :: out_ref
  o_val :: "byte list"

record inout_t =
  io_ref :: inout_ref
  io_val :: "byte list"

definition input_new_unchecked :: "in_ref \<Rightarrow> byte list \<Rightarrow> input_t" where
  "input_new_unchecked r v = \<lparr>i_ref = r, i_val = v\<rparr>"

definition input_offset :: "input_t \<Rightarrow> usize" where
  "input_offset i = to_usize (in_offset (i_ref i))"

definition input_len :: "input_t \<Rightarrow> usize" where
  "input_len i = to_usize (in_count (i_ref i))"

definition in_ref_stage :: "in_ref \<Rightarrow> byte list \<Rightarrow> input_t" where
  "in_ref_stage r v = \<lparr>i_ref = r, i_val = v\<rparr>"

definition in_ref_stage_slice :: "in_ref \<Rightarrow> byte list \<Rightarrow> input_t" where
  "in_ref_stage_slice r v = \<lparr>i_ref = r, i_val = v\<rparr>"

definition input_stage :: "layout \<Rightarrow> byte list \<Rightarrow> (alloc, input_t) stager" where
  "input_stage T v = smap (\<lambda>r. in_ref_stage r v) (allocate_input T)"

definition input_stage_slice :: "layout \<Rightarrow> byte list \<Rightarrow> (alloc, input_t) stager" where
  "input_stage_slice T v =
     smap (\<lambda>r. in_ref_stage_slice r v) (allocate_input_slice T (slice_len T v))"

definition input_stage_slice_max :: "layout \<Rightarrow> byte list \<Rightarrow> (alloc, input_t \<times> byte list) stager" where
  "input_stage_slice_max T v al =
     (let n = min (slice_len T v) (alloc_free T al);
          head = take (n * l_size T) v; tail = drop (n * l_size T) v
      in smap (\<lambda>i. (i, tail)) (input_stage_slice T head) al)"

definition input_commit :: "input_t \<Rightarrow> (mem, unit) committer" where
  "input_commit i = in_ref_copy_from (i_ref i) (i_val i)"

definition input_commit_slice :: "input_t \<Rightarrow> (mem, unit) committer" where
  "input_commit_slice i = copy_from_unchecked (i_ref i) (i_val i)"

definition output_new_unchecked :: "out_ref \<Rightarrow> byte list \<Rightarrow> output_t" where
  "output_new_unchecked r v = \<lparr>o_ref = r, o_val = v\<rparr>"

definition output_offset :: "output_t \<Rightarrow> usize" where
  "output_offset x = to_usize (out_offset (o_ref x))"

definition output_len :: "output_t \<Rightarrow> usize" where
  "output_len x = to_usize (out_count (o_ref x))"

definition output_stage :: "layout \<Rightarrow> byte list \<Rightarrow> (alloc, output_t) stager" where
  "output_stage T v = smap (\<lambda>r. \<lparr>o_ref = r, o_val = v\<rparr>) (allocate_output T)"

definition output_stage_slice :: "layout \<Rightarrow> byte list \<Rightarrow> (alloc, output_t) stager" where
  "output_stage_slice T v =
     smap (\<lambda>r. \<lparr>o_ref = r, o_val = v\<rparr>) (allocate_output_slice T (slice_len T v))"

definition output_stage_slice_max :: "layout \<Rightarrow> byte list \<Rightarrow> (alloc, output_t \<times> byte list) stager" where
  "output_stage_slice_max T v al =
     (let n = min (slice_len T v) (alloc_free T al);
          head = take (n * l_size T) v; tail = drop (n * l_size T) v
      in smap (\<lambda>x. (x, tail)) (output_stage_slice T head) al)"

definition output_commit :: "output_t \<Rightarrow> (mem, output_t) committer" where
  "output_commit x = creturn x"

text \<open>Collecting returns the contained value, filled from the block.\<close>

definition output_collect :: "output_t \<Rightarrow> mem \<Rightarrow> byte list outcome" where
  "output_collect x m = out_ref_copy_to (o_ref x) m"

definition output_collect_slice :: "output_t \<Rightarrow> mem \<Rightarrow> byte list outcome" where
  "output_collect_slice x m = copy_to_unchecked (o_ref x) (o_val x) m"

text \<open>\<^verbatim>\<open>collect_range\<close> with a range \<^verbatim>\<open>0..n\<close>, the only kind the crate uses: slicing
  the value panics when the range is longer than it.\<close>

definition output_collect_range :: "output_t \<Rightarrow> nat \<Rightarrow> mem \<Rightarrow> byte list outcome" where
  "output_collect_range x n m =
     (let k = n * l_size (out_elem (o_ref x))
      in if length (o_val x) < k then Panic
         else obind (copy_to_unchecked (o_ref x) (take k (o_val x)) m) (\<lambda>bs.
                Ret (bs @ drop k (o_val x))))"

definition inout_new_unchecked :: "inout_ref \<Rightarrow> byte list \<Rightarrow> inout_t" where
  "inout_new_unchecked r v = \<lparr>io_ref = r, io_val = v\<rparr>"

definition inout_offset :: "inout_t \<Rightarrow> usize" where
  "inout_offset x = to_usize (in_offset (inout_in (io_ref x)))"

definition inout_len :: "inout_t \<Rightarrow> usize" where
  "inout_len x = to_usize (in_count (inout_in (io_ref x)))"

definition output_of_inout :: "inout_t \<Rightarrow> output_t" where
  "output_of_inout x = output_new_unchecked (out_ref_of_inout (io_ref x)) (io_val x)"

definition inout_ref_stage :: "inout_ref \<Rightarrow> byte list \<Rightarrow> inout_t" where
  "inout_ref_stage r v = \<lparr>io_ref = r, io_val = v\<rparr>"

definition inout_ref_stage_slice :: "inout_ref \<Rightarrow> byte list \<Rightarrow> inout_t" where
  "inout_ref_stage_slice r v = \<lparr>io_ref = r, io_val = v\<rparr>"

definition inout_stage :: "layout \<Rightarrow> byte list \<Rightarrow> (alloc, inout_t) stager" where
  "inout_stage T v = smap (\<lambda>r. inout_ref_stage r v) (allocate_inout T)"

definition inout_stage_slice :: "layout \<Rightarrow> byte list \<Rightarrow> (alloc, inout_t) stager" where
  "inout_stage_slice T v =
     smap (\<lambda>r. inout_ref_stage_slice r v) (allocate_inout_slice T (slice_len T v))"

definition inout_stage_slice_max :: "layout \<Rightarrow> byte list \<Rightarrow> (alloc, inout_t \<times> byte list) stager" where
  "inout_stage_slice_max T v al =
     (let n = min (slice_len T v) (alloc_free T al);
          head = take (n * l_size T) v; tail = drop (n * l_size T) v
      in smap (\<lambda>x. (x, tail)) (inout_stage_slice T head) al)"

definition inout_commit :: "inout_t \<Rightarrow> (mem, output_t) committer" where
  "inout_commit x =
     cbind (in_ref_copy_from (inout_in (io_ref x)) (io_val x)) (\<lambda>_. creturn (output_of_inout x))"

definition inout_commit_slice :: "inout_t \<Rightarrow> (mem, output_t) committer" where
  "inout_commit_slice x =
     cbind (copy_from_unchecked (inout_in (io_ref x)) (io_val x)) (\<lambda>_. creturn (output_of_inout x))"

section \<open>What is staged lies in the block\<close>

text \<open>A reference is good between two addresses when it is aligned and all its elements lie
  there.\<close>

definition in_ref_ok :: "nat \<Rightarrow> nat \<Rightarrow> in_ref \<Rightarrow> bool" where
  "in_ref_ok lo hi r \<longleftrightarrow> l_align (in_elem r) dvd in_ptr r \<and> lo \<le> in_ptr r \<and>
     in_ptr r + l_size (in_elem r) * in_count r \<le> hi"

definition out_ref_ok :: "nat \<Rightarrow> nat \<Rightarrow> out_ref \<Rightarrow> bool" where
  "out_ref_ok lo hi r \<longleftrightarrow> l_align (out_elem r) dvd out_ptr r \<and> lo \<le> out_ptr r \<and>
     out_ptr r + l_size (out_elem r) * out_count r \<le> hi"

definition input_ok :: "nat \<Rightarrow> nat \<Rightarrow> input_t \<Rightarrow> bool" where
  "input_ok lo hi i \<longleftrightarrow> in_ref_ok lo hi (i_ref i) \<and>
     length (i_val i) = l_size (in_elem (i_ref i)) * in_count (i_ref i)"

definition output_ok :: "nat \<Rightarrow> nat \<Rightarrow> output_t \<Rightarrow> bool" where
  "output_ok lo hi x \<longleftrightarrow> out_ref_ok lo hi (o_ref x) \<and>
     length (o_val x) = l_size (out_elem (o_ref x)) * out_count (o_ref x)"

definition inout_ok :: "nat \<Rightarrow> nat \<Rightarrow> inout_t \<Rightarrow> bool" where
  "inout_ok lo hi x \<longleftrightarrow> in_ref_ok lo hi (inout_in (io_ref x)) \<and>
     length (io_val x) = l_size (in_elem (inout_in (io_ref x))) * in_count (inout_in (io_ref x))"

lemma ref_ok_mono:
  "in_ref_ok lo hi r \<Longrightarrow> lo' \<le> lo \<Longrightarrow> hi \<le> hi' \<Longrightarrow> in_ref_ok lo' hi' r"
  "out_ref_ok lo hi r' \<Longrightarrow> lo' \<le> lo \<Longrightarrow> hi \<le> hi' \<Longrightarrow> out_ref_ok lo' hi' r'"
  by (auto simp: in_ref_ok_def out_ref_ok_def)

lemma data_ok_mono:
  "input_ok lo hi i \<Longrightarrow> lo' \<le> lo \<Longrightarrow> hi \<le> hi' \<Longrightarrow> input_ok lo' hi' i"
  "output_ok lo hi x \<Longrightarrow> lo' \<le> lo \<Longrightarrow> hi \<le> hi' \<Longrightarrow> output_ok lo' hi' x"
  "inout_ok lo hi y \<Longrightarrow> lo' \<le> lo \<Longrightarrow> hi \<le> hi' \<Longrightarrow> inout_ok lo' hi' y"
  by (auto simp: input_ok_def output_ok_def inout_ok_def intro: ref_ok_mono)

lemma out_ref_of_inout_ok [simp]:
  "out_ref_ok lo hi (out_ref_of_inout r) = in_ref_ok lo hi (inout_in r)"
  by (simp add: out_ref_ok_def in_ref_ok_def out_ref_of_inout_def)

lemma output_of_inout_ok [simp]: "output_ok lo hi (output_of_inout x) = inout_ok lo hi x"
  by (simp add: output_of_inout_def output_new_unchecked_def output_ok_def inout_ok_def)
     (simp add: out_ref_of_inout_def)

lemma array_layout_Ok: "array_layout T n = Ok L \<Longrightarrow> L = \<lparr>l_size = l_size T * n, l_align = l_align T\<rparr>"
  by (auto simp: array_layout_def ok_or_Inr layout_array_Some)

lemma allocate_layout_ok:
  assumes "allocate_layout L al = Ok (((addr, n), off), al')" "0 < l_align L"
  shows "l_align L dvd addr" "a_ptr al \<le> addr" "a_ptr al' = addr + l_size L"
    and "advances al al'" "off + a_ptr al = a_offset al + addr"
  using allocate_layout_Ok [OF assms(1)] align_offset_dvd [OF assms(2)] by auto

lemmas alloc_defs =
  allocate_input_def allocate_input_layout_def allocate_output_def allocate_output_layout_def
  allocate_inout_def allocate_inout_layout_def allocate_input_slice_def allocate_output_slice_def
  allocate_inout_slice_def

lemmas ref_defs =
  in_ref_new_def in_ref_cast_def in_ref_cast_slice_def out_ref_new_def out_ref_cast_def
  out_ref_cast_slice_def inout_ref_new_def inout_ref_cast_def inout_ref_cast_slice_def

lemma allocate_ref_ok:
  assumes "0 < l_align T"
  shows "allocate_input T al = Ok (r, al') \<Longrightarrow>
      in_ref_ok (a_ptr al) (a_ptr al') r \<and> in_elem r = T \<and> in_count r = 1 \<and> advances al al' \<and>
      in_offset r + a_ptr al = a_offset al + in_ptr r"
    and "allocate_output T al = Ok (x, al') \<Longrightarrow>
      out_ref_ok (a_ptr al) (a_ptr al') x \<and> out_elem x = T \<and> out_count x = 1 \<and> advances al al' \<and>
      out_offset x + a_ptr al = a_offset al + out_ptr x"
    and "allocate_inout T al = Ok (y, al') \<Longrightarrow>
      in_ref_ok (a_ptr al) (a_ptr al') (inout_in y) \<and> in_elem (inout_in y) = T \<and>
      in_count (inout_in y) = 1 \<and> advances al al' \<and>
      in_offset (inout_in y) + a_ptr al = a_offset al + in_ptr (inout_in y)"
  using assms
  by (auto simp: alloc_defs ref_defs stage_elims in_ref_ok_def out_ref_ok_def
      dest: allocate_layout_ok)

lemma allocate_slice_ok:
  assumes "0 < l_align T"
  shows "allocate_input_slice T n al = Ok (r, al') \<Longrightarrow>
      in_ref_ok (a_ptr al) (a_ptr al') r \<and> in_elem r = T \<and> in_count r = n \<and> advances al al' \<and>
      in_offset r + a_ptr al = a_offset al + in_ptr r"
    and "allocate_output_slice T n al = Ok (x, al') \<Longrightarrow>
      out_ref_ok (a_ptr al) (a_ptr al') x \<and> out_elem x = T \<and> out_count x = n \<and> advances al al' \<and>
      out_offset x + a_ptr al = a_offset al + out_ptr x"
    and "allocate_inout_slice T n al = Ok (y, al') \<Longrightarrow>
      in_ref_ok (a_ptr al) (a_ptr al') (inout_in y) \<and> in_elem (inout_in y) = T \<and>
      in_count (inout_in y) = n \<and> advances al al' \<and>
      in_offset (inout_in y) + a_ptr al = a_offset al + in_ptr (inout_in y)"
  using assms
  by (auto simp: alloc_defs ref_defs stage_elims in_ref_ok_def out_ref_ok_def
      dest!: array_layout_Ok dest: allocate_layout_ok)

lemma stage_sized_ok:
  assumes "0 < l_align T"
  shows "input_stage T v al = Ok (i, al') \<Longrightarrow> length v = l_size T \<Longrightarrow>
      input_ok (a_ptr al) (a_ptr al') i \<and> advances al al' \<and> i_val i = v \<and>
      in_elem (i_ref i) = T \<and> in_count (i_ref i) = 1"
    and "output_stage T v al = Ok (x, al') \<Longrightarrow>
      out_ref_ok (a_ptr al) (a_ptr al') (o_ref x) \<and> advances al al' \<and> o_val x = v \<and>
      out_elem (o_ref x) = T \<and> out_count (o_ref x) = 1"
    and "inout_stage T v al = Ok (y, al') \<Longrightarrow> length v = l_size T \<Longrightarrow>
      inout_ok (a_ptr al) (a_ptr al') y \<and> advances al al' \<and> io_val y = v \<and>
      in_elem (inout_in (io_ref y)) = T \<and> in_count (inout_in (io_ref y)) = 1"
  using assms
  by (auto simp: input_stage_def output_stage_def inout_stage_def in_ref_stage_def
      inout_ref_stage_def smap_Inr input_ok_def inout_ok_def dest: allocate_ref_ok)

lemma stage_slice_ok:
  assumes "0 < l_align T" "l_size T dvd length v"
  shows "input_stage_slice T v al = Ok (i, al') \<Longrightarrow>
      input_ok (a_ptr al) (a_ptr al') i \<and> advances al al' \<and> i_val i = v \<and>
      in_elem (i_ref i) = T \<and> in_count (i_ref i) = slice_len T v"
    and "output_stage_slice T v al = Ok (x, al') \<Longrightarrow>
      output_ok (a_ptr al) (a_ptr al') x \<and> advances al al' \<and> o_val x = v \<and>
      out_elem (o_ref x) = T \<and> out_count (o_ref x) = slice_len T v"
    and "inout_stage_slice T v al = Ok (y, al') \<Longrightarrow>
      inout_ok (a_ptr al) (a_ptr al') y \<and> advances al al' \<and> io_val y = v \<and>
      in_elem (inout_in (io_ref y)) = T \<and> in_count (inout_in (io_ref y)) = slice_len T v"
  using assms allocate_slice_ok [OF assms(1)]
  by (fastforce simp: input_stage_slice_def output_stage_slice_def inout_stage_slice_def
      in_ref_stage_slice_def inout_ref_stage_slice_def smap_Inr input_ok_def output_ok_def
      inout_ok_def slice_len_def)+

lemma slice_len_u8 [simp]: "slice_len u8_layout v = length v"
  by (simp add: slice_len_def layouts)

text \<open>The byte slices: no condition on the length, and the greedy variants take a prefix.\<close>

lemma stage_bytes_ok:
  "input_stage_slice u8_layout v al = Ok (i, al') \<Longrightarrow>
      input_ok (a_ptr al) (a_ptr al') i \<and> advances al al' \<and> i_val i = v \<and>
      in_elem (i_ref i) = u8_layout \<and> in_count (i_ref i) = length v"
  "output_stage_slice u8_layout v al = Ok (x, al') \<Longrightarrow>
      output_ok (a_ptr al) (a_ptr al') x \<and> advances al al' \<and> o_val x = v \<and>
      out_elem (o_ref x) = u8_layout \<and> out_count (o_ref x) = length v"
  "inout_stage_slice u8_layout v al = Ok (y, al') \<Longrightarrow>
      inout_ok (a_ptr al) (a_ptr al') y \<and> advances al al' \<and> io_val y = v \<and>
      in_elem (inout_in (io_ref y)) = u8_layout \<and> in_count (inout_in (io_ref y)) = length v"
proof -
  have "0 < l_align u8_layout" "l_size u8_layout dvd length v"
    by (simp_all add: layouts)
  note ok = stage_slice_ok [OF this]
  show "input_stage_slice u8_layout v al = Ok (i, al') \<Longrightarrow>
      input_ok (a_ptr al) (a_ptr al') i \<and> advances al al' \<and> i_val i = v \<and>
      in_elem (i_ref i) = u8_layout \<and> in_count (i_ref i) = length v"
    using ok(1) by simp
  show "output_stage_slice u8_layout v al = Ok (x, al') \<Longrightarrow>
      output_ok (a_ptr al) (a_ptr al') x \<and> advances al al' \<and> o_val x = v \<and>
      out_elem (o_ref x) = u8_layout \<and> out_count (o_ref x) = length v"
    using ok(2) by simp
  show "inout_stage_slice u8_layout v al = Ok (y, al') \<Longrightarrow>
      inout_ok (a_ptr al) (a_ptr al') y \<and> advances al al' \<and> io_val y = v \<and>
      in_elem (inout_in (io_ref y)) = u8_layout \<and> in_count (inout_in (io_ref y)) = length v"
    using ok(3) by simp
qed

lemma stage_bytes_max_ok:
  "input_stage_slice_max u8_layout v al = Ok ((i, rest), al') \<Longrightarrow>
      input_ok (a_ptr al) (a_ptr al') i \<and> advances al al' \<and> v = i_val i @ rest \<and>
      in_elem (i_ref i) = u8_layout \<and> in_count (i_ref i) = length (i_val i)"
  "output_stage_slice_max u8_layout v al = Ok ((x, rest), al') \<Longrightarrow>
      output_ok (a_ptr al) (a_ptr al') x \<and> advances al al' \<and> v = o_val x @ rest \<and>
      out_elem (o_ref x) = u8_layout \<and> out_count (o_ref x) = length (o_val x)"
  "inout_stage_slice_max u8_layout v al = Ok ((y, rest), al') \<Longrightarrow>
      inout_ok (a_ptr al) (a_ptr al') y \<and> advances al al' \<and> v = io_val y @ rest \<and>
      in_elem (inout_in (io_ref y)) = u8_layout \<and>
      in_count (inout_in (io_ref y)) = length (io_val y)"
  by (auto simp: input_stage_slice_max_def output_stage_slice_max_def inout_stage_slice_max_def
      Let_def smap_Inr dest!: stage_bytes_ok)

section \<open>Commit and collect are defined\<close>

text \<open>Every commit of good data is defined, touches only the data's own region and leaves the
  value there.\<close>

lemma input_commit_ok:
  assumes "input_ok lo hi i" "in_mem m lo (hi - lo)" "in_count (i_ref i) = 1"
  shows "\<exists>m'. input_commit i m = Some ((), m') \<and>
           unchanged m m' (in_ptr (i_ref i)) (in_ptr (i_ref i) + length (i_val i)) \<and>
           mem_read (in_ptr (i_ref i)) (length (i_val i)) m' = Some (i_val i)"
proof -
  have "in_mem m (in_ptr (i_ref i)) (length (i_val i))"
    using assms by (auto simp: input_ok_def in_ref_ok_def in_mem_def)
  from mem_write_ok [OF this] obtain m'
    where m': "mem_write (in_ptr (i_ref i)) (i_val i) m = Some ((), m')"
    by auto
  with assms mem_write_unchanged [OF m'] mem_read_write_same [OF m'] show ?thesis
    by (auto simp: input_commit_def in_ref_copy_from_def input_ok_def in_ref_ok_def)
qed

lemma input_commit_slice_ok:
  assumes "input_ok lo hi i" "in_mem m lo (hi - lo)"
  shows "\<exists>m'. input_commit_slice i m = Some ((), m') \<and>
           unchanged m m' (in_ptr (i_ref i)) (in_ptr (i_ref i) + length (i_val i)) \<and>
           mem_read (in_ptr (i_ref i)) (length (i_val i)) m' = Some (i_val i)"
proof -
  have "in_mem m (in_ptr (i_ref i)) (length (i_val i))"
    using assms by (auto simp: input_ok_def in_ref_ok_def in_mem_def)
  from mem_write_ok [OF this] obtain m'
    where m': "mem_write (in_ptr (i_ref i)) (i_val i) m = Some ((), m')"
    by auto
  with assms mem_write_unchanged [OF m'] mem_read_write_same [OF m'] show ?thesis
    by (auto simp: input_commit_slice_def copy_from_unchecked_def copy_from_iter_unchecked_def
        input_ok_def in_ref_ok_def cbind_def)
qed

lemma inout_commit_ok:
  assumes "inout_ok lo hi x" "in_mem m lo (hi - lo)" "in_count (inout_in (io_ref x)) = 1"
  shows "\<exists>m'. inout_commit x m = Some (output_of_inout x, m') \<and> unchanged m m' lo hi \<and>
           mem_read (in_ptr (inout_in (io_ref x))) (length (io_val x)) m' = Some (io_val x)"
proof -
  let ?i = "\<lparr>i_ref = inout_in (io_ref x), i_val = io_val x\<rparr>"
  have ok: "input_ok lo hi ?i"
    using assms by (simp add: inout_ok_def input_ok_def)
  from input_commit_ok [OF this assms(2)] assms(3) obtain m' where
    "input_commit ?i m = Some ((), m')"
    "unchanged m m' (in_ptr (i_ref ?i)) (in_ptr (i_ref ?i) + length (i_val ?i))"
    "mem_read (in_ptr (i_ref ?i)) (length (i_val ?i)) m' = Some (i_val ?i)" by auto
  with ok show ?thesis
    by (auto simp: inout_commit_def input_commit_def cbind_def input_ok_def in_ref_ok_def
        elim: unchanged_mono)
qed

lemma inout_commit_slice_ok:
  assumes "inout_ok lo hi x" "in_mem m lo (hi - lo)"
  shows "\<exists>m'. inout_commit_slice x m = Some (output_of_inout x, m') \<and> unchanged m m' lo hi \<and>
           mem_read (in_ptr (inout_in (io_ref x))) (length (io_val x)) m' = Some (io_val x)"
proof -
  let ?i = "\<lparr>i_ref = inout_in (io_ref x), i_val = io_val x\<rparr>"
  have ok: "input_ok lo hi ?i"
    using assms by (simp add: inout_ok_def input_ok_def)
  from input_commit_slice_ok [OF this assms(2)] obtain m' where
    "input_commit_slice ?i m = Some ((), m')"
    "unchanged m m' (in_ptr (i_ref ?i)) (in_ptr (i_ref ?i) + length (i_val ?i))"
    "mem_read (in_ptr (i_ref ?i)) (length (i_val ?i)) m' = Some (i_val ?i)" by auto
  with ok show ?thesis
    by (auto simp: inout_commit_slice_def input_commit_slice_def cbind_def input_ok_def
        in_ref_ok_def elim: unchanged_mono)
qed

lemma input_commit_within:
  assumes "input_ok lo hi i" "in_mem m lo (hi - lo)"
  shows "in_count (i_ref i) = 1 \<Longrightarrow> \<exists>m'. input_commit i m = Some ((), m') \<and> unchanged m m' lo hi"
    and "\<exists>m'. input_commit_slice i m = Some ((), m') \<and> unchanged m m' lo hi"
proof -
  have b: "lo \<le> in_ptr (i_ref i)" "in_ptr (i_ref i) + length (i_val i) \<le> hi"
    using assms(1) by (auto simp: input_ok_def in_ref_ok_def)
  show "in_count (i_ref i) = 1 \<Longrightarrow> \<exists>m'. input_commit i m = Some ((), m') \<and> unchanged m m' lo hi"
    using input_commit_ok [OF assms] b by (auto intro: unchanged_mono)
  show "\<exists>m'. input_commit_slice i m = Some ((), m') \<and> unchanged m m' lo hi"
    using input_commit_slice_ok [OF assms] b by (auto intro: unchanged_mono)
qed

text \<open>Collecting reads the block: the result has the size of the value it replaces, whatever the
  block holds.\<close>

lemma copy_to_unchecked_ok:
  assumes "out_ref_ok lo hi r" "in_mem m lo (hi - lo)"
    and "length d \<le> l_size (out_elem r) * out_count r"
  shows "\<exists>bs. copy_to_unchecked r d m = Ret bs \<and> length bs = length d \<and>
           mem_read (out_ptr r) (length d) m = Some bs"
proof -
  have "in_mem m (out_ptr r) (length d)"
    using assms by (auto simp: out_ref_ok_def in_mem_def)
  from mem_read_ok [OF this] obtain bs
    where "mem_read (out_ptr r) (length d) m = Some bs" "length bs = length d"
    by auto
  with assms show ?thesis
    by (auto simp: copy_to_unchecked_def copy_to_iter_unchecked_def out_ref_ok_def)
qed

lemma out_ref_copy_to_ok:
  assumes "out_ref_ok lo hi r" "in_mem m lo (hi - lo)" "out_count r = 1"
  shows "\<exists>bs. out_ref_copy_to r m = Ret bs \<and> length bs = l_size (out_elem r) \<and>
           mem_read (out_ptr r) (l_size (out_elem r)) m = Some bs"
proof -
  have "in_mem m (out_ptr r) (l_size (out_elem r))"
    using assms by (auto simp: out_ref_ok_def in_mem_def)
  from mem_read_ok [OF this] obtain bs
    where "mem_read (out_ptr r) (l_size (out_elem r)) m = Some bs" "length bs = l_size (out_elem r)"
    by auto
  with assms show ?thesis
    by (auto simp: out_ref_copy_to_def out_ref_ok_def)
qed

lemma output_collect_ok:
  "out_ref_ok lo hi (o_ref x) \<Longrightarrow> in_mem m lo (hi - lo) \<Longrightarrow> out_count (o_ref x) = 1 \<Longrightarrow>
     \<exists>bs. output_collect x m = Ret bs \<and> length bs = l_size (out_elem (o_ref x)) \<and>
       mem_read (out_ptr (o_ref x)) (l_size (out_elem (o_ref x))) m = Some bs"
  unfolding output_collect_def by (rule out_ref_copy_to_ok)

lemma output_collect_slice_ok:
  "output_ok lo hi x \<Longrightarrow> in_mem m lo (hi - lo) \<Longrightarrow>
     \<exists>bs. output_collect_slice x m = Ret bs \<and> length bs = length (o_val x) \<and>
       mem_read (out_ptr (o_ref x)) (length (o_val x)) m = Some bs"
  unfolding output_collect_slice_def output_ok_def
  using copy_to_unchecked_ok [of lo hi "o_ref x" m "o_val x"] by simp

lemma output_collect_range_ok:
  assumes "output_ok lo hi x" "in_mem m lo (hi - lo)" "n \<le> out_count (o_ref x)"
  shows "\<exists>bs. output_collect_range x n m = Ret (bs @ drop (length bs) (o_val x)) \<and>
           length bs = n * l_size (out_elem (o_ref x)) \<and> length bs \<le> length (o_val x) \<and>
           mem_read (out_ptr (o_ref x)) (length bs) m = Some bs"
proof -
  let ?k = "n * l_size (out_elem (o_ref x))"
  have k: "?k \<le> length (o_val x)"
    using assms by (auto simp: output_ok_def mult.commute)
  have "out_ref_ok lo hi (o_ref x)"
    "length (take ?k (o_val x)) \<le> l_size (out_elem (o_ref x)) * out_count (o_ref x)"
    using assms by (auto simp: output_ok_def)
  from copy_to_unchecked_ok [OF this(1) assms(2) this(2)] k obtain bs
    where "copy_to_unchecked (o_ref x) (take ?k (o_val x)) m = Ret bs" "length bs = ?k"
      "mem_read (out_ptr (o_ref x)) ?k m = Some bs" by auto
  with k show ?thesis
    by (intro exI [of _ bs]) (simp add: output_collect_range_def Let_def)
qed

end
