(* ===== verification/Calls.thy ===== *)
theory Calls
  imports Alloc_Refs
begin

text \<open>
  Calls (\<^verbatim>\<open>crates/sallyport/src/guest/call/{mod,alloc,maybe_alloc,stub}.rs\<close>,
  \<^verbatim>\<open>types/argv.rs\<close> and the three \<^verbatim>\<open>alloc.rs\<close> and \<^verbatim>\<open>types/alloc.rs\<close> of system
  calls, Enarx calls and GDB calls). The source expresses a call as a trait with three phases; an
  instance of the trait is here a record of the three functions, and a blanket implementation
  is a function between such records.

  The contract of a call is the locale \<open>call_laws\<close>: staging only advances the allocator,
  committing what was staged is defined and writes nothing outside of what was allocated, and
  collecting is defined and returns for every contents the host may leave in the block. The
  locale \<open>numbered_laws\<close> states the same of a system, Enarx or GDB call before it is
  wrapped into an item; the wrapping is a \<^theory_text>\<open>sublocale\<close>, so that a concrete call
  only proves the smaller contract.
\<close>

section \<open>The three phases of a call\<close>

record ('s, 'c, 'r) call =
  c_stage :: "(alloc, 's) stager"
  c_commit :: "'s \<Rightarrow> (mem, 'c) committer"
  c_collect :: "'c \<Rightarrow> mem \<Rightarrow> 'r outcome"

text \<open>Tuples of calls.\<close>

definition call_single :: "('s, 'c, 'r) call \<Rightarrow> ('s, 'c, 'r) call" where
  "call_single a =
     \<lparr>c_stage = smap (\<lambda>a. a) (c_stage a), c_commit = c_commit a, c_collect = c_collect a\<rparr>"

definition call_pair ::
  "('s, 'c, 'r) call \<Rightarrow> ('t, 'd, 'q) call \<Rightarrow> ('s \<times> 't, 'c \<times> 'd, 'r \<times> 'q) call" where
  "call_pair a b =
     \<lparr>c_stage = sbind (c_stage a) (\<lambda>x. sbind (c_stage b) (\<lambda>y. sreturn (x, y))),
      c_commit = (\<lambda>(x, y). cbind (c_commit a x) (\<lambda>x. cbind (c_commit b y) (\<lambda>y. creturn (x, y)))),
      c_collect = (\<lambda>(x, y) m. obind (c_collect a x m) (\<lambda>x. obind (c_collect b y m) (\<lambda>y. Ret (x, y))))\<rparr>"

definition call_triple ::
  "('s, 'c, 'r) call \<Rightarrow> ('t, 'd, 'q) call \<Rightarrow> ('u, 'e, 'p) call \<Rightarrow>
     ('s \<times> 't \<times> 'u, 'c \<times> 'd \<times> 'e, 'r \<times> 'q \<times> 'p) call" where
  "call_triple a b c =
     \<lparr>c_stage = smap (\<lambda>((x, y), z). (x, y, z)) (c_stage (call_pair (call_pair a b) c)),
      c_commit = (\<lambda>(x, y, z). cbind (c_commit a x) (\<lambda>x. cbind (c_commit b y) (\<lambda>y.
         cbind (c_commit c z) (\<lambda>z. creturn (x, y, z))))),
      c_collect = (\<lambda>(x, y, z) m. obind (c_collect a x m) (\<lambda>x. obind (c_collect b y m) (\<lambda>y.
         obind (c_collect c z m) (\<lambda>z. Ret (x, y, z)))))\<rparr>"

definition call_quad ::
  "('s, 'c, 'r) call \<Rightarrow> ('t, 'd, 'q) call \<Rightarrow> ('u, 'e, 'p) call \<Rightarrow> ('v, 'f, 'o) call \<Rightarrow>
     ('s \<times> 't \<times> 'u \<times> 'v, 'c \<times> 'd \<times> 'e \<times> 'f, 'r \<times> 'q \<times> 'p \<times> 'o) call" where
  "call_quad a b c d =
     \<lparr>c_stage = smap (\<lambda>((x, y), z, w). (x, y, z, w)) (c_stage (call_triple (call_pair a b) c d)),
      c_commit = (\<lambda>(x, y, z, w). cbind (c_commit a x) (\<lambda>x. cbind (c_commit b y) (\<lambda>y.
         cbind (c_commit c z) (\<lambda>z. cbind (c_commit d w) (\<lambda>w. creturn (x, y, z, w)))))),
      c_collect = (\<lambda>(x, y, z, w) m. obind (c_collect a x m) (\<lambda>x. obind (c_collect b y m) (\<lambda>y.
         obind (c_collect c z m) (\<lambda>z. obind (c_collect d w m) (\<lambda>w. Ret (x, y, z, w))))))\<rparr>"

text \<open>A stub never touches the block: its result is the argument of \<open>stub_call\<close>.\<close>

definition stub_call :: "'r \<Rightarrow> (unit, unit, 'r) call" where
  "stub_call r =
     \<lparr>c_stage = sreturn (), c_commit = (\<lambda>s. creturn s), c_collect = (\<lambda>_ _. Ret r)\<rparr>"

section \<open>Calls allocated in the block\<close>

record 's staged_call =
  sc_header_ref :: in_ref
  sc_staged :: 's
  sc_size :: nat

datatype 'c committed_call = CommittedCall 'c

definition alloc_call_stage :: "('s, 'c, 'r) call \<Rightarrow> (alloc, 's staged_call) stager" where
  "alloc_call_stage a =
     sbind (allocate_input header_layout) (\<lambda>header_ref.
     sbind (alloc_section (c_stage a)) (\<lambda>(staged, sz).
       let reminder = sz mod l_align usize_layout
       in if 0 < sz \<and> 0 < reminder
          then let pad_size = l_align usize_layout - reminder
               in sbind (sresult (ok_or (layout_from_size_align pad_size 1) ENOMEM)) (\<lambda>pad_layout.
                  sbind (allocate_input_layout pad_layout) (\<lambda>_.
                    sreturn \<lparr>sc_header_ref = header_ref, sc_staged = staged, sc_size = sz + pad_size\<rparr>))
          else sreturn \<lparr>sc_header_ref = header_ref, sc_staged = staged, sc_size = sz\<rparr>))"

definition alloc_call_commit ::
  "kind \<Rightarrow> ('s, 'c, 'r) call \<Rightarrow> 's staged_call \<Rightarrow> (mem, 'c committed_call) committer" where
  "alloc_call_commit k a s =
     cbind (in_ref_copy_from (sc_header_ref s)
              (header_bytes \<lparr>h_size = to_usize (sc_size s), h_kind = k\<rparr>)) (\<lambda>_.
     cbind (c_commit a (sc_staged s)) (\<lambda>c. creturn (CommittedCall c)))"

fun alloc_call_collect :: "('s, 'c, 'r) call \<Rightarrow> 'c committed_call \<Rightarrow> mem \<Rightarrow> 'r outcome" where
  "alloc_call_collect a (CommittedCall c) m = c_collect a c m"

definition alloc_call ::
  "kind \<Rightarrow> ('s, 'c, 'r) call \<Rightarrow> ('s staged_call, 'c committed_call, 'r) call" where
  "alloc_call k a =
     \<lparr>c_stage = alloc_call_stage a, c_commit = alloc_call_commit k a,
      c_collect = alloc_call_collect a\<rparr>"

text \<open>\<^verbatim>\<open>MaybeAlloc\<close>: the call decides whether it needs the host at all. \<open>a\<close> is the call in
  its allocated form (\<^verbatim>\<open>T::Alloc\<close>) and \<open>u\<close> the decision; an \<open>MAlloc\<close> holds what the
  phase made of \<open>a\<close>.\<close>

datatype ('a, 'r) maybe_alloc = MAlloc 'a | MStub 'r

definition maybe_alloc_stage ::
  "kind \<Rightarrow> ('s, 'c, 'r) call \<Rightarrow> (unit, 'r) maybe_alloc result \<Rightarrow>
     (alloc, ('s staged_call, 'r) maybe_alloc) stager" where
  "maybe_alloc_stage k a u =
     sbind (sresult u) (\<lambda>x. case x of
         MAlloc _ \<Rightarrow> smap MAlloc (c_stage (alloc_call k a))
       | MStub v \<Rightarrow> sreturn (MStub v))"

fun maybe_alloc_commit ::
  "kind \<Rightarrow> ('s, 'c, 'r) call \<Rightarrow> ('s staged_call, 'r) maybe_alloc \<Rightarrow>
     (mem, ('c committed_call, 'r) maybe_alloc) committer" where
  "maybe_alloc_commit k a (MAlloc staged) =
     cbind (c_commit (alloc_call k a) staged) (\<lambda>c. creturn (MAlloc c))"
| "maybe_alloc_commit k a (MStub v) = creturn (MStub v)"

fun maybe_alloc_collect ::
  "kind \<Rightarrow> ('s, 'c, 'r) call \<Rightarrow> ('c committed_call, 'r) maybe_alloc \<Rightarrow> mem \<Rightarrow> 'r outcome" where
  "maybe_alloc_collect k a (MAlloc committed) m = c_collect (alloc_call k a) committed m"
| "maybe_alloc_collect k a (MStub v) m = Ret v"

definition maybe_alloc_call ::
  "kind \<Rightarrow> ('s, 'c, 'r) call \<Rightarrow> (unit, 'r) maybe_alloc result \<Rightarrow>
     (('s staged_call, 'r) maybe_alloc, ('c committed_call, 'r) maybe_alloc, 'r) call" where
  "maybe_alloc_call k a u =
     \<lparr>c_stage = maybe_alloc_stage k a u, c_commit = maybe_alloc_commit k a,
      c_collect = maybe_alloc_collect k a\<rparr>"

section \<open>System calls, Enarx calls and GDB calls\<close>

text \<open>
  An instance of one of the three \<^verbatim>\<open>Alloc\<close> traits. \<open>'w\<close> is the raw return value (two
  registers for a system call, one for the others), \<open>na_ret\<close> the conversion
  \<^verbatim>\<open>types::Result<Ret>: Into<Result<Ret>>\<close>.
\<close>

record ('w, 'ret, 's, 'c, 'r) numbered_alloc =
  na_num :: usize
  na_stage :: "(alloc, usize list \<times> 's) stager"
  na_commit :: "'s \<Rightarrow> (mem, 'c) committer"
  na_ret :: "'w \<Rightarrow> 'ret result"
  na_collect :: "'c \<Rightarrow> 'ret result \<Rightarrow> mem \<Rightarrow> 'r outcome"

text \<open>What the three traits differ in: the item kind, the number of argument registers, the
  type of the return registers, the value they are initialised with, and how they are read.\<close>

record 'w call_kind =
  k_item :: kind
  k_argc :: nat
  k_ret_layout :: layout
  k_ret_init :: "byte list"
  k_ret_of :: "byte list \<Rightarrow> 'w"

definition syscall_kind :: "(usize \<times> usize) call_kind" where
  "syscall_kind =
     \<lparr>k_item = Syscall, k_argc = 6, k_ret_layout = array_of 2 usize_layout,
      k_ret_init = bytes_of_words [as_usize (- ENOSYS), 0],
      k_ret_of = (\<lambda>bs. (words_of_bytes bs ! 0, words_of_bytes bs ! 1))\<rparr>"

definition enarxcall_kind :: "usize call_kind" where
  "enarxcall_kind =
     \<lparr>k_item = Enarxcall, k_argc = 4, k_ret_layout = usize_layout,
      k_ret_init = usize_bytes (as_usize (- ENOSYS)), k_ret_of = usize_of_bytes\<rparr>"

definition gdbcall_kind :: "usize call_kind" where
  "gdbcall_kind =
     \<lparr>k_item = Gdbcall, k_argc = 4, k_ret_layout = usize_layout,
      k_ret_init = usize_bytes (as_usize (- ENOSYS)), k_ret_of = usize_of_bytes\<rparr>"

text \<open>\<^verbatim>\<open>From<Argv<N>> for [usize; n]\<close>: missing arguments are \<^verbatim>\<open>NULL\<close>.\<close>

definition argv_into :: "nat \<Rightarrow> usize list \<Rightarrow> usize list" where
  "argv_into n argv = argv @ replicate (n - length argv) NULL"

record 's staged_alloc =
  st_num_ref :: in_ref
  st_argv :: input_t
  st_ret_ref :: inout_ref
  st_staged :: 's

record 'c committed_alloc =
  co_ret_ref :: out_ref
  co_committed :: 'c

definition numbered_stage ::
  "'w call_kind \<Rightarrow> ('w, 'ret, 's, 'c, 'r) numbered_alloc \<Rightarrow> (alloc, 's staged_alloc) stager" where
  "numbered_stage k a =
     sbind (allocate_input usize_layout) (\<lambda>num_ref.
     sbind (allocate_input (array_of (k_argc k) usize_layout)) (\<lambda>argv_ref.
     sbind (allocate_inout (k_ret_layout k)) (\<lambda>ret_ref.
     sbind (alloc_section (na_stage a)) (\<lambda>((argv, staged), _).
       sreturn \<lparr>st_num_ref = num_ref,
                st_argv = in_ref_stage argv_ref (bytes_of_words (argv_into (k_argc k) argv)),
                st_ret_ref = ret_ref, st_staged = staged\<rparr>))))"

definition numbered_commit ::
  "'w call_kind \<Rightarrow> ('w, 'ret, 's, 'c, 'r) numbered_alloc \<Rightarrow> 's staged_alloc \<Rightarrow>
     (mem, 'c committed_alloc) committer" where
  "numbered_commit k a s =
     cbind (in_ref_copy_from (st_num_ref s) (usize_bytes (na_num a))) (\<lambda>_.
     cbind (input_commit (st_argv s)) (\<lambda>_.
     cbind (in_ref_copy_from (inout_in (st_ret_ref s)) (k_ret_init k)) (\<lambda>_.
     cbind (inout_ref_commit (st_ret_ref s)) (\<lambda>ret_ref.
     cbind (na_commit a (st_staged s)) (\<lambda>committed.
       creturn \<lparr>co_ret_ref = ret_ref, co_committed = committed\<rparr>)))))"

definition numbered_collect ::
  "'w call_kind \<Rightarrow> ('w, 'ret, 's, 'c, 'r) numbered_alloc \<Rightarrow> 'c committed_alloc \<Rightarrow> mem \<Rightarrow> 'r outcome" where
  "numbered_collect k a c m =
     obind (out_ref_copy_to (co_ret_ref c) m) (\<lambda>bs.
       na_collect a (co_committed c) (na_ret a (k_ret_of k bs)) m)"

definition numbered_call ::
  "'w call_kind \<Rightarrow> ('w, 'ret, 's, 'c, 'r) numbered_alloc \<Rightarrow>
     ('s staged_alloc, 'c committed_alloc, 'r) call" where
  "numbered_call k a =
     \<lparr>c_stage = numbered_stage k a, c_commit = numbered_commit k a,
      c_collect = numbered_collect k a\<rparr>"

text \<open>The whole of a call: the numbered call wrapped into an item of its kind.\<close>

definition item_call ::
  "'w call_kind \<Rightarrow> ('w, 'ret, 's, 'c, 'r) numbered_alloc \<Rightarrow>
     ('s staged_alloc staged_call, 'c committed_alloc committed_call, 'r) call" where
  "item_call k a = alloc_call (k_item k) (numbered_call k a)"

section \<open>Results\<close>

definition MAX_ERRNO :: c_int where
  "MAX_ERRNO = 4096"

definition ERRNO_START :: usize where
  "ERRNO_START = - 1 - as_usize MAX_ERRNO"

text \<open>\<^verbatim>\<open>-(errno as c_int)\<close>\<close>

definition errno_of :: "usize \<Rightarrow> c_int" where
  "errno_of w = - as_int w"

definition sys_result_unit :: "usize \<times> usize \<Rightarrow> unit result" where
  "sys_result_unit r = (if ERRNO_START \<le> fst r then Err (errno_of (fst r)) else Ok ())"

definition c_int_max :: usize where
  "c_int_max = 0x7fffffff"

definition sys_result_int :: "usize \<times> usize \<Rightarrow> c_int result" where
  "sys_result_int r =
     (if ERRNO_START \<le> fst r then Err (errno_of (fst r))
      else if fst r \<le> c_int_max then Ok (as_int (fst r))
      else Err EOVERFLOW)"

definition sys_result_usize :: "usize \<times> usize \<Rightarrow> usize result" where
  "sys_result_usize r = (if ERRNO_START \<le> fst r then Err (errno_of (fst r)) else Ok (fst r))"

definition sys_result_isize :: "usize \<times> usize \<Rightarrow> usize result" where
  "sys_result_isize r = sys_result_usize r"

definition enarx_result_unit :: "usize \<Rightarrow> unit result" where
  "enarx_result_unit r = (if ERRNO_START \<le> r then Err (errno_of r) else Ok ())"

definition enarx_result_usize :: "usize \<Rightarrow> usize result" where
  "enarx_result_usize r = (if ERRNO_START \<le> r then Err (errno_of r) else Ok r)"

definition gdb_result_unit :: "usize \<Rightarrow> unit result" where
  "gdb_result_unit r = (if ERRNO_START \<le> r then Err (errno_of r) else Ok ())"

definition gdb_result_usize :: "usize \<Rightarrow> usize result" where
  "gdb_result_usize r = (if ERRNO_START \<le> r then Err (errno_of r) else Ok r)"

definition gdb_result_u8 :: "usize \<Rightarrow> byte result" where
  "gdb_result_u8 r =
     (if ERRNO_START \<le> r then Err (errno_of r)
      else if r \<le> 255 then Ok (ucast r)
      else Err EOVERFLOW)"

definition gdb_result_option_u8 :: "usize \<Rightarrow> byte option result" where
  "gdb_result_option_u8 r =
     (if r = NULL then Ok None
      else if ERRNO_START \<le> r then Err (errno_of r)
      else if r \<le> 255 then Ok (Some (ucast r))
      else Err EOVERFLOW)"

end
