(* ===== verification/Call_Laws.thy ===== *)
theory Call_Laws
  imports Calls
begin

text \<open>
  The contracts of calls, as locales, and what follows from them.

  \<open>call_laws\<close> is what \<^verbatim>\<open>Handler::execute\<close> relies on; \<open>numbered_laws\<close> is what a
  system, Enarx or GDB call has to provide. The wrapping into an item turns the second contract
  into the first (\<^theory_text>\<open>sublocale\<close>), pairs, stubs and calls that may not need the host keep
  it. Both contracts name the two predicates that describe what lies in the block between two
  addresses after staging and after committing.
\<close>

section \<open>The contract of a call\<close>

locale call_laws =
  fixes c :: "('s, 'c, 'r) call"
    and s_ok :: "nat \<Rightarrow> nat \<Rightarrow> 's \<Rightarrow> bool"
    and c_ok :: "nat \<Rightarrow> nat \<Rightarrow> 'c \<Rightarrow> bool"
  assumes stage_ok:
      "c_stage c al = Ok (s, al') \<Longrightarrow> advances al al' \<and> s_ok (a_ptr al) (a_ptr al') s"
    and commit_ok:
      "s_ok lo hi s \<Longrightarrow> in_mem m lo (hi - lo) \<Longrightarrow>
         \<exists>x m'. c_commit c s m = Some (x, m') \<and> unchanged m m' lo hi \<and> c_ok lo hi x"
    and collect_ok:
      "c_ok lo hi x \<Longrightarrow> in_mem m lo (hi - lo) \<Longrightarrow> \<exists>r. c_collect c x m = Ret r"
begin

lemma stage_advancing: "advancing (c_stage c)"
  using stage_ok by (auto simp: advancing_def)

text \<open>From stage to collect, with anything at all happening to the block in between.\<close>

lemma round_trip_defined:
  assumes "c_stage c al = Ok (s, al')" "in_mem m (a_ptr al) (a_ptr al' - a_ptr al)"
  shows "\<exists>x m'. c_commit c s m = Some (x, m') \<and> unchanged m m' (a_ptr al) (a_ptr al') \<and>
           (\<forall>m''. same_shape m' m'' \<longrightarrow> (\<exists>r. c_collect c x m'' = Ret r))"
proof -
  from stage_ok [OF assms(1)] have "s_ok (a_ptr al) (a_ptr al') s" by simp
  from commit_ok [OF this assms(2)] obtain x m' where
    x: "c_commit c s m = Some (x, m')" "unchanged m m' (a_ptr al) (a_ptr al')"
      "c_ok (a_ptr al) (a_ptr al') x" by blast
  have "\<exists>r. c_collect c x m'' = Ret r" if "same_shape m' m''" for m''
  proof (rule collect_ok [OF x(3)])
    show "in_mem m'' (a_ptr al) (a_ptr al' - a_ptr al)"
      using assms(2) that x(2) by (metis in_mem_shape unchanged_shape)
  qed
  with x show ?thesis by blast
qed

end

section \<open>The contract of a numbered call\<close>

locale kind_laws =
  fixes k :: "'w call_kind"
  assumes ret_align: "0 < l_align (k_ret_layout k)"
    and ret_init: "length (k_ret_init k) = l_size (k_ret_layout k)"

interpretation syscall: kind_laws syscall_kind
  by unfold_locales (simp_all add: syscall_kind_def array_of_def layouts)

interpretation enarxcall: kind_laws enarxcall_kind
  by unfold_locales (simp_all add: enarxcall_kind_def layouts)

interpretation gdbcall: kind_laws gdbcall_kind
  by unfold_locales (simp_all add: gdbcall_kind_def layouts)

locale numbered_laws = kind_laws k
  for k :: "'w call_kind" +
  fixes a :: "('w, 'ret, 's, 'c, 'r) numbered_alloc"
    and s_ok :: "nat \<Rightarrow> nat \<Rightarrow> 's \<Rightarrow> bool"
    and c_ok :: "nat \<Rightarrow> nat \<Rightarrow> 'c \<Rightarrow> bool"
  assumes na_stage_ok:
      "na_stage a al = Ok ((argv, s), al') \<Longrightarrow>
         advances al al' \<and> length argv \<le> k_argc k \<and> s_ok (a_ptr al) (a_ptr al') s"
    and na_commit_ok:
      "s_ok lo hi s \<Longrightarrow> in_mem m lo (hi - lo) \<Longrightarrow>
         \<exists>x m'. na_commit a s m = Some (x, m') \<and> unchanged m m' lo hi \<and> c_ok lo hi x"
    and na_collect_ok:
      "c_ok lo hi x \<Longrightarrow> in_mem m lo (hi - lo) \<Longrightarrow> \<exists>r. na_collect a x ret m = Ret r"

text \<open>What staging a numbered call leaves between two addresses: the three references one after
  another, then the data of the call.\<close>

definition staged_alloc_ok ::
  "'w call_kind \<Rightarrow> (nat \<Rightarrow> nat \<Rightarrow> 's \<Rightarrow> bool) \<Rightarrow> nat \<Rightarrow> nat \<Rightarrow> 's staged_alloc \<Rightarrow> bool" where
  "staged_alloc_ok k ok lo hi s \<longleftrightarrow>
     (\<exists>p1 p2 p3. lo \<le> p1 \<and> p1 \<le> p2 \<and> p2 \<le> p3 \<and> p3 \<le> hi \<and>
        in_ref_ok lo p1 (st_num_ref s) \<and> in_elem (st_num_ref s) = usize_layout \<and>
        in_count (st_num_ref s) = 1 \<and>
        input_ok p1 p2 (st_argv s) \<and> in_count (i_ref (st_argv s)) = 1 \<and>
        in_ref_ok p2 p3 (inout_in (st_ret_ref s)) \<and>
        in_elem (inout_in (st_ret_ref s)) = k_ret_layout k \<and>
        in_count (inout_in (st_ret_ref s)) = 1 \<and>
        ok p3 hi (st_staged s))"

definition committed_alloc_ok ::
  "'w call_kind \<Rightarrow> (nat \<Rightarrow> nat \<Rightarrow> 'c \<Rightarrow> bool) \<Rightarrow> nat \<Rightarrow> nat \<Rightarrow> 'c committed_alloc \<Rightarrow> bool" where
  "committed_alloc_ok k ok lo hi c \<longleftrightarrow>
     (\<exists>p. lo \<le> p \<and> p \<le> hi \<and> out_ref_ok lo p (co_ret_ref c) \<and>
        out_elem (co_ret_ref c) = k_ret_layout k \<and> out_count (co_ret_ref c) = 1 \<and>
        ok p hi (co_committed c))"

definition staged_call_ok :: "(nat \<Rightarrow> nat \<Rightarrow> 's \<Rightarrow> bool) \<Rightarrow> nat \<Rightarrow> nat \<Rightarrow> 's staged_call \<Rightarrow> bool" where
  "staged_call_ok ok lo hi s \<longleftrightarrow>
     (\<exists>p q. lo \<le> p \<and> p \<le> q \<and> q \<le> hi \<and> in_ref_ok lo p (sc_header_ref s) \<and>
        in_elem (sc_header_ref s) = header_layout \<and> in_count (sc_header_ref s) = 1 \<and>
        ok p q (sc_staged s))"

definition committed_call_ok ::
  "(nat \<Rightarrow> nat \<Rightarrow> 'c \<Rightarrow> bool) \<Rightarrow> nat \<Rightarrow> nat \<Rightarrow> 'c committed_call \<Rightarrow> bool" where
  "committed_call_ok ok lo hi x \<longleftrightarrow>
     (case x of CommittedCall c \<Rightarrow> (\<exists>p q. lo \<le> p \<and> p \<le> q \<and> q \<le> hi \<and> ok p q c))"

lemma in_ref_copy_from_ok:
  assumes "in_ref_ok lo hi r" "in_mem m lo (hi - lo)" "length v = l_size (in_elem r)"
    and "in_count r = 1"
  shows "\<exists>m'. in_ref_copy_from r v m = Some ((), m') \<and> unchanged m m' lo hi \<and>
           mem_read (in_ptr r) (length v) m' = Some v"
proof -
  let ?i = "\<lparr>i_ref = r, i_val = v\<rparr>"
  have ok: "input_ok lo hi ?i"
    using assms by (simp add: input_ok_def)
  from input_commit_ok [OF this assms(2)] assms(4) obtain m' where
    "input_commit ?i m = Some ((), m')"
    "unchanged m m' (in_ptr r) (in_ptr r + length v)" "mem_read (in_ptr r) (length v) m' = Some v"
    by auto
  with ok show ?thesis
    by (auto simp: input_commit_def input_ok_def in_ref_ok_def elim: unchanged_mono)
qed

lemma in_mem_between:
  "in_mem m lo (hi - lo) \<Longrightarrow> lo \<le> p \<Longrightarrow> p \<le> q \<Longrightarrow> q \<le> hi \<Longrightarrow> in_mem m p (q - p)"
  by (auto simp: in_mem_def)

lemma length_argv_into [simp]: "length argv \<le> n \<Longrightarrow> length (argv_into n argv) = n"
  by (simp add: argv_into_def)

lemma array_of_simps [simp]:
  "l_size (array_of n T) = n * l_size T" "l_align (array_of n T) = l_align T"
  by (simp_all add: array_of_def)

lemma usize_layout_simps [simp]: "l_size usize_layout = 8" "l_align usize_layout = 8"
  by (simp_all add: layouts)

lemma header_layout_simps [simp]: "l_size header_layout = 16" "l_align header_layout = 8"
  by (simp_all add: layouts)

lemma length_header_bytes [simp]: "length (header_bytes h) = 16"
  by (simp add: header_bytes_def)

text \<open>One commit after another: each in its own part of an interval.\<close>

lemma cbind_ok:
  assumes "\<exists>x m'. f m = Some (x, m') \<and> unchanged m m' lo p \<and> P x"
    and "\<And>x m'. P x \<Longrightarrow> same_shape m m' \<Longrightarrow>
           \<exists>y m''. g x m' = Some (y, m'') \<and> unchanged m' m'' q hi \<and> Q y"
    and "p \<le> hi" "lo \<le> q"
  shows "\<exists>y m''. cbind f g m = Some (y, m'') \<and> unchanged m m'' lo hi \<and> Q y"
proof -
  from assms(1) obtain x m' where 1: "f m = Some (x, m')" "unchanged m m' lo p" "P x" by blast
  from assms(2) [OF 1(3) unchanged_shape [OF 1(2)]] obtain y m''
    where 2: "g x m' = Some (y, m'')" "unchanged m' m'' q hi" "Q y" by blast
  from 1 2 assms(3,4) show ?thesis
    by (auto simp: cbind_def intro: unchanged_trans unchanged_mono)
qed

lemma creturn_ok: "Q y \<Longrightarrow> \<exists>x m'. creturn y m = Some (x, m') \<and> unchanged m m' lo hi \<and> Q x"
  by simp

context numbered_laws
begin

lemma na_advancing: "advancing (na_stage a)"
  using na_stage_ok by (force simp: advancing_def)

lemma numbered_stage_ok:
  assumes "numbered_stage k a al = Ok (s, al')"
  shows "advances al al' \<and> staged_alloc_ok k s_ok (a_ptr al) (a_ptr al') s"
proof -
  from assms obtain num_ref argv_ref ret_ref al1 al2 al3 argv staged n where
    1: "allocate_input usize_layout al = Ok (num_ref, al1)" and
    2: "allocate_input (array_of (k_argc k) usize_layout) al1 = Ok (argv_ref, al2)" and
    3: "allocate_inout (k_ret_layout k) al2 = Ok (ret_ref, al3)" and
    4: "alloc_section (na_stage a) al3 = Ok (((argv, staged), n), al')" and
    s: "s = \<lparr>st_num_ref = num_ref,
             st_argv = in_ref_stage argv_ref (bytes_of_words (argv_into (k_argc k) argv)),
             st_ret_ref = ret_ref, st_staged = staged\<rparr>"
    unfolding numbered_stage_def by (fastforce simp: sbind_Inr)
  from alloc_section_Ok [OF 4 na_advancing] obtain b where
    b: "na_stage a \<lparr>a_ptr = a_ptr al3, a_len = a_len al3, a_offset = 0\<rparr> = Ok ((argv, staged), b)"
    "a_ptr b = a_ptr al'" "advances al3 al'" by auto
  note r1 = allocate_ref_ok(1) [OF _ 1, simplified]
  note r2 = allocate_ref_ok(1) [OF _ 2, simplified]
  note r3 = allocate_ref_ok(3) [OF ret_align 3]
  note r4 = na_stage_ok [OF b(1), simplified]
  have adv: "advances al al1" "advances al1 al2" "advances al2 al3"
    using r1 r2 r3 by auto
  have "staged_alloc_ok k s_ok (a_ptr al) (a_ptr al') s"
    unfolding staged_alloc_ok_def s
    by (rule exI [of _ "a_ptr al1"], rule exI [of _ "a_ptr al2"], rule exI [of _ "a_ptr al3"])
       (use r1 r2 r3 r4 b adv [THEN advances_ptr] advances_ptr [OF b(3)] in
         \<open>simp add: in_ref_stage_def input_ok_def\<close>)
  with adv b(3) show ?thesis
    by (meson advances_trans)
qed

lemma numbered_commit_ok:
  assumes "staged_alloc_ok k s_ok lo hi s" "in_mem m lo (hi - lo)"
  shows "\<exists>x m'. numbered_commit k a s m = Some (x, m') \<and> unchanged m m' lo hi \<and>
           committed_alloc_ok k c_ok lo hi x"
proof -
  from assms(1) obtain p1 p2 p3 where
    p: "lo \<le> p1" "p1 \<le> p2" "p2 \<le> p3" "p3 \<le> hi" and
    n: "in_ref_ok lo p1 (st_num_ref s)" "in_elem (st_num_ref s) = usize_layout"
       "in_count (st_num_ref s) = 1" and
    v: "input_ok p1 p2 (st_argv s)" "in_count (i_ref (st_argv s)) = 1" and
    r: "in_ref_ok p2 p3 (inout_in (st_ret_ref s))"
       "in_elem (inout_in (st_ret_ref s)) = k_ret_layout k"
       "in_count (inout_in (st_ret_ref s)) = 1" and
    d: "s_ok p3 hi (st_staged s)"
    unfolding staged_alloc_ok_def by blast
  have at: "in_mem m' x (y - x)" if "same_shape m m'" "lo \<le> x" "x \<le> y" "y \<le> hi" for m' x y
    using in_mem_between [of m' lo hi x y] assms(2) that by (simp add: in_mem_shape)
  obtain m1 where m1: "in_ref_copy_from (st_num_ref s) (usize_bytes (na_num a)) m = Some ((), m1)"
    "unchanged m m1 lo p1"
    using in_ref_copy_from_ok [OF n(1) at, of m "usize_bytes (na_num a)"] n p by auto
  then have s1: "same_shape m m1" by (blast dest: unchanged_shape)
  obtain m2 where m2: "input_commit (st_argv s) m1 = Some ((), m2)" "unchanged m1 m2 p1 p2"
    using input_commit_within(1) [OF v(1) at [OF s1] v(2)] p by auto
  then have s2: "same_shape m m2" by (blast dest: unchanged_shape same_shape_trans [OF s1])
  obtain m3 where m3: "in_ref_copy_from (inout_in (st_ret_ref s)) (k_ret_init k) m2 = Some ((), m3)"
    "unchanged m2 m3 p2 p3"
    using in_ref_copy_from_ok [OF r(1) at [OF s2], of "k_ret_init k"] r p ret_init by auto
  then have s3: "same_shape m m3" by (blast dest: unchanged_shape same_shape_trans [OF s2])
  obtain x m4 where m4: "na_commit a (st_staged s) m3 = Some (x, m4)" "unchanged m3 m4 p3 hi"
    "c_ok p3 hi x"
    using na_commit_ok [OF d at [OF s3]] p by auto
  have "unchanged m m1 lo hi" "unchanged m1 m2 lo hi" "unchanged m2 m3 lo hi" "unchanged m3 m4 lo hi"
    using p by (auto intro: unchanged_mono m1 m2 m3 m4)
  then have "unchanged m m4 lo hi"
    by (blast intro: unchanged_trans)
  moreover have "committed_alloc_ok k c_ok lo hi
      \<lparr>co_ret_ref = out_ref_of_inout (st_ret_ref s), co_committed = x\<rparr>"
    unfolding committed_alloc_ok_def
    by (rule exI [of _ p3])
       (use p r m4 in \<open>auto simp: out_ref_of_inout_def out_ref_ok_def in_ref_ok_def\<close>)
  ultimately show ?thesis
    using m1 m2 m3 m4 by (simp add: numbered_commit_def cbind_def inout_ref_commit_def)
qed

lemma numbered_collect_ok:
  assumes "committed_alloc_ok k c_ok lo hi x" "in_mem m lo (hi - lo)"
  shows "\<exists>r. numbered_collect k a x m = Ret r"
proof -
  from assms(1) obtain p where p: "lo \<le> p" "p \<le> hi" and r: "out_ref_ok lo p (co_ret_ref x)"
      "out_count (co_ret_ref x) = 1" and c: "c_ok p hi (co_committed x)"
    unfolding committed_alloc_ok_def by blast
  from out_ref_copy_to_ok [OF r(1) _ r(2)] in_mem_between [OF assms(2), of lo p] p
  obtain bs where bs: "out_ref_copy_to (co_ret_ref x) m = Ret bs" by auto
  have "in_mem m p (hi - p)"
    using in_mem_between [OF assms(2), of p hi] p by simp
  from na_collect_ok [OF c this, of "na_ret a (k_ret_of k bs)"] bs show ?thesis
    by (auto simp: numbered_collect_def)
qed

end

sublocale numbered_laws \<subseteq> num: call_laws "numbered_call k a" "staged_alloc_ok k s_ok" "committed_alloc_ok k c_ok"
  by unfold_locales
     (simp_all add: numbered_call_def numbered_stage_ok numbered_commit_ok numbered_collect_ok)

section \<open>Wrapping a call into an item\<close>

context call_laws
begin

lemma alloc_call_stage_ok:
  assumes "alloc_call_stage c al = Ok (s, al')"
  shows "advances al al' \<and> staged_call_ok s_ok (a_ptr al) (a_ptr al') s"
proof -
  from assms obtain hr al1 staged n al2 where
    1: "allocate_input header_layout al = Ok (hr, al1)" and
    2: "alloc_section (c_stage c) al1 = Ok ((staged, n), al2)" and
    3: "advances al2 al' \<and> sc_header_ref s = hr \<and> sc_staged s = staged"
    unfolding alloc_call_stage_def allocate_input_layout_def
    by (fastforce simp: stage_elims Let_def split: if_splits dest: allocate_layout_Ok(5))
  from alloc_section_Ok [OF 2 stage_advancing] obtain b where
    b: "c_stage c \<lparr>a_ptr = a_ptr al1, a_len = a_len al1, a_offset = 0\<rparr> = Ok (staged, b)"
      "a_ptr b = a_ptr al2" "advances al1 al2" by auto
  note r1 = allocate_ref_ok(1) [OF _ 1, simplified]
  note r2 = stage_ok [OF b(1), simplified]
  have "staged_call_ok s_ok (a_ptr al) (a_ptr al') s"
    unfolding staged_call_ok_def
    by (rule exI [of _ "a_ptr al1"], rule exI [of _ "a_ptr al2"])
       (use r1 r2 b 3 advances_ptr in auto)
  with r1 b(3) 3 show ?thesis
    by (blast intro: advances_trans)
qed

lemma alloc_call_commit_ok:
  assumes "staged_call_ok s_ok lo hi s" "in_mem m lo (hi - lo)"
  shows "\<exists>x m'. alloc_call_commit kd c s m = Some (x, m') \<and> unchanged m m' lo hi \<and>
           committed_call_ok c_ok lo hi x"
proof -
  from assms(1) obtain p q where p: "lo \<le> p" "p \<le> q" "q \<le> hi" and
    h: "in_ref_ok lo p (sc_header_ref s)" "in_elem (sc_header_ref s) = header_layout"
      "in_count (sc_header_ref s) = 1" and d: "s_ok p q (sc_staged s)"
    unfolding staged_call_ok_def by blast
  let ?h = "header_bytes \<lparr>h_size = to_usize (sc_size s), h_kind = kd\<rparr>"
  obtain m1 where m1: "in_ref_copy_from (sc_header_ref s) ?h m = Some ((), m1)"
    "unchanged m m1 lo p"
    using in_ref_copy_from_ok [OF h(1) in_mem_between [OF assms(2)], of ?h] h p by auto
  have "in_mem m1 p (q - p)"
    using in_mem_between [OF assms(2), of p q] p unchanged_shape [OF m1(2)] by (simp add: in_mem_shape)
  from commit_ok [OF d this] obtain x m2 where
    m2: "c_commit c (sc_staged s) m1 = Some (x, m2)" "unchanged m1 m2 p q" "c_ok p q x" by blast
  have "unchanged m m1 lo hi" "unchanged m1 m2 lo hi"
    using p by (auto intro: unchanged_mono m1 m2)
  then have "unchanged m m2 lo hi"
    by (rule unchanged_trans)
  with m1 m2 p show ?thesis
    by (auto simp: alloc_call_commit_def cbind_def committed_call_ok_def)
qed

lemma alloc_call_collect_ok:
  assumes "committed_call_ok c_ok lo hi x" "in_mem m lo (hi - lo)"
  shows "\<exists>r. alloc_call_collect c x m = Ret r"
  using assms collect_ok in_mem_between [OF assms(2)]
  by (cases x) (fastforce simp: committed_call_ok_def)

lemma alloc_call_laws:
  "call_laws (alloc_call kd c) (staged_call_ok s_ok) (committed_call_ok c_ok)"
  by unfold_locales
     (simp_all add: alloc_call_def alloc_call_stage_ok alloc_call_commit_ok alloc_call_collect_ok)

end

sublocale numbered_laws \<subseteq> item: call_laws "item_call k a"
  "staged_call_ok (staged_alloc_ok k s_ok)" "committed_call_ok (committed_alloc_ok k c_ok)"
  unfolding item_call_def by (rule num.alloc_call_laws)

text \<open>Stubs, pairs and calls that may not need the host.\<close>

interpretation stub: call_laws "stub_call r" "\<lambda>_ _ _. True" "\<lambda>_ _ _. True" for r :: 'r
  by unfold_locales (simp_all add: stub_call_def)

definition pair_ok ::
  "(nat \<Rightarrow> nat \<Rightarrow> 'a \<Rightarrow> bool) \<Rightarrow> (nat \<Rightarrow> nat \<Rightarrow> 'b \<Rightarrow> bool) \<Rightarrow> nat \<Rightarrow> nat \<Rightarrow> 'a \<times> 'b \<Rightarrow> bool" where
  "pair_ok P Q lo hi xy \<longleftrightarrow> (\<exists>p. lo \<le> p \<and> p \<le> hi \<and> P lo p (fst xy) \<and> Q p hi (snd xy))"

lemma call_pair_laws:
  assumes "call_laws a sa ca" "call_laws b sb cb"
  shows "call_laws (call_pair a b) (pair_ok sa sb) (pair_ok ca cb)"
proof
  fix al s al'
  assume "c_stage (call_pair a b) al = Ok (s, al')"
  then obtain x y al1 where 1: "c_stage a al = Ok (x, al1)" and 2: "c_stage b al1 = Ok (y, al')"
    and s: "s = (x, y)"
    by (auto simp: call_pair_def sbind_Inr)
  note x = call_laws.stage_ok [OF assms(1) 1] and y = call_laws.stage_ok [OF assms(2) 2]
  then have "pair_ok sa sb (a_ptr al) (a_ptr al') s"
    unfolding pair_ok_def s by (auto intro!: exI [of _ "a_ptr al1"] advances_ptr)
  with x y show "advances al al' \<and> pair_ok sa sb (a_ptr al) (a_ptr al') s"
    by (blast intro: advances_trans)
next
  fix lo hi s m
  assume "pair_ok sa sb lo hi s" and m: "in_mem m lo (hi - lo)"
  then obtain p where p: "lo \<le> p" "p \<le> hi" "sa lo p (fst s)" "sb p hi (snd s)"
    by (auto simp: pair_ok_def)
  from in_mem_between [OF m, of lo p] p have "in_mem m lo (p - lo)" by simp
  from call_laws.commit_ok [OF assms(1) p(3) this] obtain x m1 where
    1: "c_commit a (fst s) m = Some (x, m1)" "unchanged m m1 lo p" "ca lo p x" by auto
  have "in_mem m1 p (hi - p)"
    using in_mem_between [OF m, of p hi] p unchanged_shape [OF 1(2)] by (simp add: in_mem_shape)
  from call_laws.commit_ok [OF assms(2) p(4) this] obtain y m2 where
    2: "c_commit b (snd s) m1 = Some (y, m2)" "unchanged m1 m2 p hi" "cb p hi y" by auto
  have "unchanged m m1 lo hi" "unchanged m1 m2 lo hi"
    using p by (auto intro: unchanged_mono 1 2)
  then have "unchanged m m2 lo hi"
    by (rule unchanged_trans)
  with 1 2 p show "\<exists>x m'. c_commit (call_pair a b) s m = Some (x, m') \<and> unchanged m m' lo hi \<and>
      pair_ok ca cb lo hi x"
    by (auto simp: call_pair_def cbind_def pair_ok_def split_beta)
next
  fix lo hi x m
  assume "pair_ok ca cb lo hi x" and m: "in_mem m lo (hi - lo)"
  then obtain p where p: "lo \<le> p" "p \<le> hi" "ca lo p (fst x)" "cb p hi (snd x)"
    by (auto simp: pair_ok_def)
  with call_laws.collect_ok [OF assms(1) p(3)] call_laws.collect_ok [OF assms(2) p(4)]
    in_mem_between [OF m, of lo p] in_mem_between [OF m, of p hi]
  show "\<exists>r. c_collect (call_pair a b) x m = Ret r"
    by (fastforce simp: call_pair_def split_beta)
qed

text \<open>A call that may not need the host; a stub holds the value that was decided on.\<close>

fun maybe_ok :: "(unit, 'r) maybe_alloc result \<Rightarrow> (nat \<Rightarrow> nat \<Rightarrow> 'a \<Rightarrow> bool) \<Rightarrow> nat \<Rightarrow> nat \<Rightarrow> ('a, 'r) maybe_alloc \<Rightarrow> bool" where
  "maybe_ok u P lo hi (MAlloc x) \<longleftrightarrow> P lo hi x"
| "maybe_ok u P lo hi (MStub v) \<longleftrightarrow> u = Ok (MStub v)"

lemma maybe_alloc_laws:
  fixes a :: "('s, 'c, 'r) call" and u :: "(unit, 'r) maybe_alloc result"
  assumes "call_laws (alloc_call kd a) sa ca"
  shows "call_laws (maybe_alloc_call kd a u) (maybe_ok u sa) (maybe_ok u ca)"
proof
  fix al s al'
  assume "c_stage (maybe_alloc_call kd a u) al = Ok (s, al')"
  then obtain x where "u = Ok x" and x: "(case x of MAlloc _ \<Rightarrow> smap MAlloc (c_stage (alloc_call kd a))
      | MStub v \<Rightarrow> sreturn (MStub v)) al = Ok (s, al')"
    unfolding maybe_alloc_call_def maybe_alloc_stage_def call.simps sbind_Inr sresult_Inr
    by (elim exE conjE) simp
  with call_laws.stage_ok [OF assms] show "advances al al' \<and> maybe_ok u sa (a_ptr al) (a_ptr al') s"
    by (cases x) (auto simp: smap_Inr)
next
  fix lo hi m and s :: "('s staged_call, 'r) maybe_alloc"
  assume "maybe_ok u sa lo hi s" "in_mem m lo (hi - lo)"
  with call_laws.commit_ok [OF assms] show "\<exists>x m'. c_commit (maybe_alloc_call kd a u) s m =
      Some (x, m') \<and> unchanged m m' lo hi \<and> maybe_ok u ca lo hi x"
    by (cases s) (fastforce simp: maybe_alloc_call_def cbind_def)+
next
  fix lo hi m and x :: "('c committed_call, 'r) maybe_alloc"
  assume "maybe_ok u ca lo hi x" "in_mem m lo (hi - lo)"
  with call_laws.collect_ok [OF assms] show "\<exists>r. c_collect (maybe_alloc_call kd a u) x m = Ret r"
    by (cases x) (auto simp: maybe_alloc_call_def)
qed

end
