(* ===== verification/Syscalls.thy ===== *)
theory Syscalls
  imports Call_Laws
begin

text \<open>
  The system calls that go through the host
  (\<^verbatim>\<open>crates/sallyport/src/guest/call/syscall/*.rs\<close> with \<^verbatim>\<open>types/{bytes,sockaddr,sockopt}.rs\<close>):
  one definition per call, an instance of the system call trait, from the number and the argument
  vector to the collection of the results.

  A parameter that the Rust code takes by \<^verbatim>\<open>&mut\<close> is an argument, and its final value
  is part of what the call collects. Structures are byte lists of their size where the crate only
  copies them; \<^verbatim>\<open>timespec\<close>, \<^verbatim>\<open>epoll_event\<close>, \<^verbatim>\<open>pollfd\<close> and
  \<^verbatim>\<open>sigset_t\<close> arguments are given by their fields, which fixes their size.

  Every call is an interpretation of \<open>numbered_laws\<close> (section \<open>Contracts\<close>).
\<close>

unbundle bit_operations_syntax

section \<open>C structures as bytes\<close>

definition u32_bytes :: "32 word \<Rightarrow> byte list" where
  "u32_bytes w = le_bytes 4 (unat w)"

definition u32_of_bytes :: "byte list \<Rightarrow> 32 word" where
  "u32_of_bytes bs = of_nat (le_nat bs)"

record timespec =
  tv_sec :: "64 word"
  tv_nsec :: "64 word"

definition timespec_bytes :: "timespec \<Rightarrow> byte list" where
  "timespec_bytes t = usize_bytes (tv_sec t) @ usize_bytes (tv_nsec t)"

definition timespec_of_bytes :: "byte list \<Rightarrow> timespec" where
  "timespec_of_bytes bs =
     \<lparr>tv_sec = usize_of_bytes (take 8 bs), tv_nsec = usize_of_bytes (take 8 (drop 8 bs))\<rparr>"

text \<open>The four bytes of padding between the fields of an \<^verbatim>\<open>epoll_event\<close> are copied too; they
  are a field here.\<close>

record epoll_event =
  ev_events :: "32 word"
  ev_padding :: "32 word"
  ev_u64 :: "64 word"

definition epoll_event_bytes :: "epoll_event \<Rightarrow> byte list" where
  "epoll_event_bytes e = u32_bytes (ev_events e) @ u32_bytes (ev_padding e) @ usize_bytes (ev_u64 e)"

record pollfd =
  pfd_fd :: c_int
  pfd_events :: "16 word"
  pfd_revents :: "16 word"

definition pollfd_bytes :: "pollfd \<Rightarrow> byte list" where
  "pollfd_bytes p =
     u32_bytes (pfd_fd p) @ le_bytes 2 (unat (pfd_events p)) @ le_bytes 2 (unat (pfd_revents p))"

text \<open>\<^verbatim>\<open>sigset_t\<close> is an array of sixteen 64-bit words.\<close>

type_synonym sigset = "nat \<Rightarrow> 64 word"

definition sigset_bytes :: "sigset \<Rightarrow> byte list" where
  "sigset_bytes s = bytes_of_words (map s [0..<16])"

section \<open>Argument types\<close>

text \<open>The sum of \<^verbatim>\<open>usize\<close> lengths wraps in a release build.\<close>

definition iov_len :: "byte list list \<Rightarrow> nat" where
  "iov_len iovs = sum_list (map length iovs) mod usize_limit"

text \<open>The prefix of the buffers that fits a capacity, as \<^verbatim>\<open>map_while\<close> computes it: it stops at
  the first buffer it sees with no capacity left, and cuts the buffer that does not fit.\<close>

fun iovs_within :: "nat \<Rightarrow> byte list list \<Rightarrow> byte list list" where
  "iovs_within capacity [] = []"
| "iovs_within capacity (iov # iovs) =
     (if capacity = 0 then []
      else if length iov \<le> capacity then iov # iovs_within (capacity - length iov) iovs
      else take capacity iov # iovs_within 0 iovs)"

text \<open>\<^verbatim>\<open>StagedBytesInput\<close>: commits the bytes and returns how many they are.\<close>

definition bytes_input_commit :: "input_t \<Rightarrow> (mem, nat) committer" where
  "bytes_input_commit buf =
     (let len = in_count (i_ref buf)
      in cbind (input_commit_slice buf) (\<lambda>_. creturn len))"

definition sockaddr_input_stage :: "byte list \<Rightarrow> (alloc, input_t) stager" where
  "sockaddr_input_stage addr =
     sbind (sresult (ok_or (layout_from_size_align (length addr) (l_align sockaddr_storage_layout))
        EOVERFLOW)) (\<lambda>L.
     sbind (allocate_input_layout L) (\<lambda>r. sreturn (input_new_unchecked r addr)))"

definition sockopt_input_stage :: "byte list \<Rightarrow> (alloc, input_t) stager" where
  "sockopt_input_stage opt =
     sbind (sresult (ok_or (layout_from_size_align (length opt) (l_align usize_layout)) EOVERFLOW))
       (\<lambda>L. sbind (allocate_input_layout L) (\<lambda>r. sreturn (input_new_unchecked r opt)))"

record sockaddr_output =
  so_addr :: "byte list"
  so_addrlen :: "32 word"

record staged_sockaddr_output =
  ss_addr :: output_t
  ss_addrlen :: inout_t

record committed_sockaddr_output =
  cs_addr :: output_t
  cs_addrlen :: output_t

definition sockaddr_output_stage :: "sockaddr_output \<Rightarrow> (alloc, staged_sockaddr_output) stager" where
  "sockaddr_output_stage so =
     sbind (sresult (ok_or (layout_from_size_align (length (so_addr so))
        (l_align sockaddr_storage_layout)) EOVERFLOW)) (\<lambda>L.
     sbind (allocate_output_layout L) (\<lambda>addr.
     sbind (inout_stage socklen_layout (u32_bytes (so_addrlen so))) (\<lambda>addrlen.
       sreturn \<lparr>ss_addr = output_new_unchecked addr (so_addr so), ss_addrlen = addrlen\<rparr>)))"

definition sockaddr_output_commit ::
  "staged_sockaddr_output \<Rightarrow> (mem, committed_sockaddr_output) committer" where
  "sockaddr_output_commit s =
     cbind (inout_commit (ss_addrlen s)) (\<lambda>addrlen.
       creturn \<lparr>cs_addr = ss_addr s, cs_addrlen = addrlen\<rparr>)"

definition sockaddr_output_collect ::
  "committed_sockaddr_output \<Rightarrow> mem \<Rightarrow> sockaddr_output outcome" where
  "sockaddr_output_collect c m =
     obind (output_collect (cs_addrlen c) m) (\<lambda>bs.
       let addrlen = u32_of_bytes bs; len = min (out_count (o_ref (cs_addr c))) (unat addrlen)
       in obind (output_collect_range (cs_addr c) len m) (\<lambda>addr.
            Ret \<lparr>so_addr = addr, so_addrlen = addrlen\<rparr>))"

text \<open>The blanket implementations for \<^verbatim>\<open>Option\<close>.\<close>

definition option_stage :: "('a \<Rightarrow> (alloc, 'b) stager) \<Rightarrow> 'a option \<Rightarrow> (alloc, 'b option) stager" where
  "option_stage f x = (case x of None \<Rightarrow> sreturn None | Some v \<Rightarrow> smap Some (f v))"

definition option_commit ::
  "('a \<Rightarrow> (mem, 'b) committer) \<Rightarrow> 'a option \<Rightarrow> (mem, 'b option) committer" where
  "option_commit f x =
     (case x of None \<Rightarrow> creturn None | Some v \<Rightarrow> cbind (f v) (\<lambda>y. creturn (Some y)))"

definition option_collect ::
  "('a \<Rightarrow> mem \<Rightarrow> 'b outcome) \<Rightarrow> 'a option \<Rightarrow> mem \<Rightarrow> 'b option outcome" where
  "option_collect f x m =
     (case x of None \<Rightarrow> Ret None | Some v \<Rightarrow> obind (f v m) (\<lambda>y. Ret (Some y)))"

text \<open>The \<^verbatim>\<open>match\<close> that reading calls end with: a count above the size of the buffer is
  rejected (\<open>None\<close>), a valid one copies that many elements.\<close>

definition collect_counted :: "output_t \<Rightarrow> usize result \<Rightarrow> mem \<Rightarrow> (usize result option \<times> byte list) outcome" where
  "collect_counted buf ret m =
     (case ret of
        Inr n \<Rightarrow>
          if out_count (o_ref buf) < unat n then Ret (None, o_val buf)
          else obind (output_collect_range buf (unat n) m) (\<lambda>bs. Ret (Some ret, bs))
      | Inl e \<Rightarrow> Ret (Some ret, o_val buf))"

definition collect_counted_int :: "output_t \<Rightarrow> c_int result \<Rightarrow> mem \<Rightarrow> (c_int result option \<times> byte list) outcome" where
  "collect_counted_int buf ret m =
     (case ret of
        Inr n \<Rightarrow>
          if out_count (o_ref buf) < unat (as_usize n) then Ret (None, o_val buf)
          else obind (output_collect_range buf (unat (as_usize n)) m) (\<lambda>bs. Ret (Some ret, bs))
      | Inl e \<Rightarrow> Ret (Some ret, o_val buf))"

text \<open>The \<^verbatim>\<open>match\<close> that writing calls end with.\<close>

definition check_count :: "nat \<Rightarrow> usize result \<Rightarrow> usize result option" where
  "check_count count ret =
     (case ret of
        Inr n \<Rightarrow> if count < unat n then None else Some ret
      | Inl e \<Rightarrow> Some ret)"

section \<open>Calls that only pass their arguments through\<close>

type_synonym ('ret, 's, 'c, 'r) syscall_alloc = "(usize \<times> usize, 'ret, 's, 'c, 'r) numbered_alloc"

definition passthrough_alloc ::
  "usize \<Rightarrow> usize list \<Rightarrow> (usize \<times> usize \<Rightarrow> 'ret result) \<Rightarrow>
     ('ret, unit, unit, 'ret result) syscall_alloc" where
  "passthrough_alloc num argv conv =
     \<lparr>na_num = num, na_stage = sreturn (argv, ()), na_commit = (\<lambda>s. creturn s), na_ret = conv,
      na_collect = (\<lambda>_ ret _. Ret ret)\<rparr>"

definition close_alloc :: "c_int \<Rightarrow> (unit, unit, unit, unit result) syscall_alloc" where
  "close_alloc fd = passthrough_alloc SYS_close [as_usize fd] sys_result_unit"

definition dup_alloc :: "c_int \<Rightarrow> (unit, unit, unit, unit result) syscall_alloc" where
  "dup_alloc oldfd = passthrough_alloc SYS_dup [as_usize oldfd] sys_result_unit"

definition dup2_alloc :: "c_int \<Rightarrow> c_int \<Rightarrow> (unit, unit, unit, unit result) syscall_alloc" where
  "dup2_alloc oldfd newfd =
     passthrough_alloc SYS_dup2 [as_usize oldfd, as_usize newfd] sys_result_unit"

definition dup3_alloc :: "c_int \<Rightarrow> c_int \<Rightarrow> c_int \<Rightarrow> (unit, unit, unit, unit result) syscall_alloc" where
  "dup3_alloc oldfd newfd flags =
     passthrough_alloc SYS_dup3 [as_usize oldfd, as_usize newfd, as_usize flags] sys_result_unit"

definition epoll_create1_alloc :: "c_int \<Rightarrow> (c_int, unit, unit, c_int result) syscall_alloc" where
  "epoll_create1_alloc flags = passthrough_alloc SYS_epoll_create1 [as_usize flags] sys_result_int"

definition eventfd2_alloc :: "c_int \<Rightarrow> c_int \<Rightarrow> (c_int, unit, unit, c_int result) syscall_alloc" where
  "eventfd2_alloc initval flags =
     passthrough_alloc SYS_eventfd2 [as_usize initval, as_usize flags] sys_result_int"

definition exit_alloc :: "c_int \<Rightarrow> (unit, unit, unit, unit result) syscall_alloc" where
  "exit_alloc status = passthrough_alloc SYS_exit [as_usize status] sys_result_unit"

definition exit_group_alloc :: "c_int \<Rightarrow> (unit, unit, unit, unit result) syscall_alloc" where
  "exit_group_alloc status = passthrough_alloc SYS_exit_group [as_usize status] sys_result_unit"

definition listen_alloc :: "c_int \<Rightarrow> c_int \<Rightarrow> (unit, unit, unit, unit result) syscall_alloc" where
  "listen_alloc sockfd backlog =
     passthrough_alloc SYS_listen [as_usize sockfd, as_usize backlog] sys_result_unit"

definition socket_alloc :: "c_int \<Rightarrow> c_int \<Rightarrow> c_int \<Rightarrow> (c_int, unit, unit, c_int result) syscall_alloc" where
  "socket_alloc domain typ protocol =
     passthrough_alloc SYS_socket [as_usize domain, as_usize typ, as_usize protocol] sys_result_int"

definition sync_alloc :: "(unit, unit, unit, unit result) syscall_alloc" where
  "sync_alloc = passthrough_alloc SYS_sync [] sys_result_unit"

section \<open>Calls with data\<close>

definition read_alloc ::
  "c_int \<Rightarrow> byte list \<Rightarrow> (usize, output_t, output_t, usize result option \<times> byte list) syscall_alloc" where
  "read_alloc fd buf =
     \<lparr>na_num = SYS_read,
      na_stage = sbind (output_stage_slice_max u8_layout buf) (\<lambda>(b, _).
        sreturn ([as_usize fd, output_offset b, output_len b], b)),
      na_commit = output_commit,
      na_ret = sys_result_usize,
      na_collect = (\<lambda>b ret m. obind (collect_counted b ret m) (\<lambda>(res, bs).
        Ret (res, bs @ drop (length bs) buf)))\<rparr>"

definition write_alloc :: "c_int \<Rightarrow> byte list \<Rightarrow> (usize, input_t, nat, usize result option) syscall_alloc" where
  "write_alloc fd buf =
     \<lparr>na_num = SYS_write,
      na_stage = sbind (input_stage_slice_max u8_layout buf) (\<lambda>(b, _).
        sreturn ([as_usize fd, input_offset b, input_len b], b)),
      na_commit = bytes_input_commit,
      na_ret = sys_result_usize,
      na_collect = (\<lambda>count ret _. Ret (check_count count ret))\<rparr>"

record staged_readv =
  rv_buf :: out_ref
  rv_iovs :: "byte list list"

text \<open>Writing new prefixes over a list of buffers.\<close>

fun scatter :: "byte list list \<Rightarrow> byte list list \<Rightarrow> byte list list" where
  "scatter (new # news) (iov # iovs) = (new @ drop (length new) iov) # scatter news iovs"
| "scatter news iovs = iovs"

definition readv_alloc ::
  "c_int \<Rightarrow> byte list list \<Rightarrow>
     (usize, staged_readv, staged_readv, usize result option \<times> byte list list) syscall_alloc" where
  "readv_alloc fd iovs =
     \<lparr>na_num = SYS_read,
      na_stage = sbind (allocate_output_slice_max u8_layout (iov_len iovs)) (\<lambda>buf.
        sreturn ([as_usize fd, to_usize (out_offset buf), to_usize (out_count buf)],
                 \<lparr>rv_buf = buf, rv_iovs = iovs\<rparr>)),
      na_commit = (\<lambda>s. creturn s),
      na_ret = sys_result_usize,
      na_collect = (\<lambda>c ret m. case ret of
          Inr n \<Rightarrow>
            if out_count (rv_buf c) < unat n then Ret (None, rv_iovs c)
            else obind (copy_to_iter_unchecked (rv_buf c) (iovs_within (unat n) (rv_iovs c)) m)
                   (\<lambda>news. Ret (Some ret, scatter news (rv_iovs c)))
        | Inl e \<Rightarrow> Ret (Some ret, rv_iovs c))\<rparr>"

record staged_writev =
  wv_buf :: in_ref
  wv_iovs :: "byte list list"

definition writev_commit :: "staged_writev \<Rightarrow> (mem, nat) committer" where
  "writev_commit s =
     (let capacity = in_count (wv_buf s)
      in cbind (copy_from_iter_unchecked (wv_buf s) (iovs_within capacity (wv_iovs s)))
           (\<lambda>_. creturn (in_count (wv_buf s))))"

definition writev_alloc ::
  "c_int \<Rightarrow> byte list list \<Rightarrow> (usize, staged_writev, nat, usize result option) syscall_alloc" where
  "writev_alloc fd iovs =
     \<lparr>na_num = SYS_write,
      na_stage = sbind (allocate_input_slice_max u8_layout (iov_len iovs)) (\<lambda>buf.
        sreturn ([as_usize fd, to_usize (in_offset buf), to_usize (in_count buf)],
                 \<lparr>wv_buf = buf, wv_iovs = iovs\<rparr>)),
      na_commit = writev_commit,
      na_ret = sys_result_usize,
      na_collect = (\<lambda>count ret _. Ret (check_count count ret))\<rparr>"

definition recv_alloc ::
  "c_int \<Rightarrow> byte list \<Rightarrow> c_int \<Rightarrow>
     (usize, output_t, output_t, usize result option \<times> byte list) syscall_alloc" where
  "recv_alloc sockfd buf flags =
     \<lparr>na_num = SYS_recvfrom,
      na_stage = sbind (output_stage_slice_max u8_layout buf) (\<lambda>(b, _).
        sreturn ([as_usize sockfd, output_offset b, output_len b, as_usize flags], b)),
      na_commit = output_commit,
      na_ret = sys_result_usize,
      na_collect = (\<lambda>b ret m. obind (collect_counted b ret m) (\<lambda>(res, bs).
        Ret (res, bs @ drop (length bs) buf)))\<rparr>"

definition recvfrom_alloc ::
  "c_int \<Rightarrow> byte list \<Rightarrow> c_int \<Rightarrow> sockaddr_output \<Rightarrow>
     (usize, output_t \<times> staged_sockaddr_output, output_t \<times> committed_sockaddr_output,
      usize result option \<times> byte list \<times> sockaddr_output) syscall_alloc" where
  "recvfrom_alloc sockfd buf flags addr =
     \<lparr>na_num = SYS_recvfrom,
      na_stage = sbind (sockaddr_output_stage addr) (\<lambda>src_addr.
        sbind (output_stage_slice_max u8_layout buf) (\<lambda>(b, _).
          sreturn ([as_usize sockfd, output_offset b, output_len b, as_usize flags,
                    output_offset (ss_addr src_addr), inout_offset (ss_addrlen src_addr)],
                   (b, src_addr)))),
      na_commit = (\<lambda>(b, a). cbind (output_commit b) (\<lambda>b.
        cbind (sockaddr_output_commit a) (\<lambda>a. creturn (b, a)))),
      na_ret = sys_result_usize,
      na_collect = (\<lambda>(b, a) ret m. case ret of
          Inr n \<Rightarrow>
            if out_count (o_ref b) < unat n then Ret (None, buf, addr)
            else obind (output_collect_range b (unat n) m) (\<lambda>bs.
                 obind (sockaddr_output_collect a m) (\<lambda>addr'.
                   Ret (Some ret, bs @ drop (length bs) buf, addr')))
        | Inl e \<Rightarrow> Ret (Some ret, buf, addr))\<rparr>"

definition send_alloc ::
  "c_int \<Rightarrow> byte list \<Rightarrow> c_int \<Rightarrow> (usize, input_t, nat, usize result option) syscall_alloc" where
  "send_alloc sockfd buf flags =
     \<lparr>na_num = SYS_sendto,
      na_stage = sbind (input_stage_slice_max u8_layout buf) (\<lambda>(b, _).
        sreturn ([as_usize sockfd, input_offset b, input_len b, as_usize flags], b)),
      na_commit = bytes_input_commit,
      na_ret = sys_result_usize,
      na_collect = (\<lambda>len ret _. Ret (check_count len ret))\<rparr>"

record staged_sendto =
  sd_dest_addr :: input_t
  sd_buf :: input_t

definition sendto_commit :: "staged_sendto \<Rightarrow> (mem, nat) committer" where
  "sendto_commit s =
     cbind (input_commit_slice (sd_dest_addr s)) (\<lambda>_. bytes_input_commit (sd_buf s))"

definition sendto_alloc ::
  "c_int \<Rightarrow> byte list \<Rightarrow> c_int \<Rightarrow> byte list \<Rightarrow>
     (usize, staged_sendto, nat, usize result option) syscall_alloc" where
  "sendto_alloc sockfd buf flags addr =
     \<lparr>na_num = SYS_sendto,
      na_stage = sbind (sockaddr_input_stage addr) (\<lambda>dest_addr.
        sbind (input_stage_slice_max u8_layout buf) (\<lambda>(b, _).
          sreturn ([as_usize sockfd, input_offset b, input_len b, as_usize flags,
                    input_offset dest_addr, input_len dest_addr],
                   \<lparr>sd_dest_addr = dest_addr, sd_buf = b\<rparr>))),
      na_commit = sendto_commit,
      na_ret = sys_result_usize,
      na_collect = (\<lambda>len ret _. Ret (check_count len ret))\<rparr>"

definition accept_alloc ::
  "c_int \<Rightarrow> sockaddr_output option \<Rightarrow>
     (c_int, staged_sockaddr_output option, committed_sockaddr_output option,
      c_int result \<times> sockaddr_output option) syscall_alloc" where
  "accept_alloc sockfd addr =
     \<lparr>na_num = SYS_accept,
      na_stage = sbind (option_stage sockaddr_output_stage addr) (\<lambda>a.
        let (addr_offset, addrlen_offset) =
          (case a of None \<Rightarrow> (NULL, NULL)
           | Some s \<Rightarrow> (output_offset (ss_addr s), inout_offset (ss_addrlen s)))
        in sreturn ([as_usize sockfd, addr_offset, addrlen_offset], a)),
      na_commit = option_commit sockaddr_output_commit,
      na_ret = sys_result_int,
      na_collect = (\<lambda>a ret m. obind (option_collect sockaddr_output_collect a m) (\<lambda>addr'.
        Ret (ret, addr')))\<rparr>"

definition accept4_alloc ::
  "c_int \<Rightarrow> sockaddr_output option \<Rightarrow> c_int \<Rightarrow>
     (c_int, staged_sockaddr_output option, committed_sockaddr_output option,
      c_int result \<times> sockaddr_output option) syscall_alloc" where
  "accept4_alloc sockfd addr flags =
     \<lparr>na_num = SYS_accept4,
      na_stage = sbind (option_stage sockaddr_output_stage addr) (\<lambda>a.
        let (addr_offset, addrlen_offset) =
          (case a of None \<Rightarrow> (NULL, NULL)
           | Some s \<Rightarrow> (output_offset (ss_addr s), inout_offset (ss_addrlen s)))
        in sreturn ([as_usize sockfd, addr_offset, addrlen_offset, as_usize flags], a)),
      na_commit = option_commit sockaddr_output_commit,
      na_ret = sys_result_int,
      na_collect = (\<lambda>a ret m. obind (option_collect sockaddr_output_collect a m) (\<lambda>addr'.
        Ret (ret, addr')))\<rparr>"

definition getsockname_alloc ::
  "c_int \<Rightarrow> sockaddr_output \<Rightarrow>
     (unit, staged_sockaddr_output, committed_sockaddr_output, unit result \<times> sockaddr_output)
       syscall_alloc" where
  "getsockname_alloc sockfd addr =
     \<lparr>na_num = SYS_getsockname,
      na_stage = sbind (sockaddr_output_stage addr) (\<lambda>a.
        sreturn ([as_usize sockfd, output_offset (ss_addr a), inout_offset (ss_addrlen a)], a)),
      na_commit = sockaddr_output_commit,
      na_ret = sys_result_unit,
      na_collect = (\<lambda>a ret m. obind (sockaddr_output_collect a m) (\<lambda>addr'. Ret (ret, addr')))\<rparr>"

definition bind_alloc :: "c_int \<Rightarrow> byte list \<Rightarrow> (unit, input_t, unit, unit result) syscall_alloc" where
  "bind_alloc sockfd addr =
     \<lparr>na_num = SYS_bind,
      na_stage = sbind (sockaddr_input_stage addr) (\<lambda>a.
        sreturn ([as_usize sockfd, input_offset a, input_len a], a)),
      na_commit = input_commit_slice,
      na_ret = sys_result_unit,
      na_collect = (\<lambda>_ ret _. Ret ret)\<rparr>"

definition connect_alloc :: "c_int \<Rightarrow> byte list \<Rightarrow> (unit, input_t, unit, unit result) syscall_alloc" where
  "connect_alloc sockfd addr =
     \<lparr>na_num = SYS_connect,
      na_stage = sbind (sockaddr_input_stage addr) (\<lambda>a.
        sreturn ([as_usize sockfd, input_offset a, input_len a], a)),
      na_commit = input_commit_slice,
      na_ret = sys_result_unit,
      na_collect = (\<lambda>_ ret _. Ret ret)\<rparr>"

definition setsockopt_alloc ::
  "c_int \<Rightarrow> c_int \<Rightarrow> c_int \<Rightarrow> byte list option \<Rightarrow>
     (c_int, input_t option, unit, c_int result) syscall_alloc" where
  "setsockopt_alloc sockfd level optname optval =
     \<lparr>na_num = SYS_setsockopt,
      na_stage = sbind (option_stage sockopt_input_stage optval) (\<lambda>v.
        let (optval_offset, optlen) =
          (case v of None \<Rightarrow> (NULL, 0) | Some i \<Rightarrow> (input_offset i, input_len i))
        in sreturn ([as_usize sockfd, as_usize level, as_usize optname, optval_offset, optlen], v)),
      na_commit = (\<lambda>v. cbind (option_commit input_commit_slice v) (\<lambda>_. creturn ())),
      na_ret = sys_result_int,
      na_collect = (\<lambda>_ ret _. Ret ret)\<rparr>"

definition clock_getres_alloc ::
  "c_int \<Rightarrow> timespec option \<Rightarrow>
     (unit, output_t option, output_t option, unit result \<times> timespec option) syscall_alloc" where
  "clock_getres_alloc clockid res =
     \<lparr>na_num = SYS_clock_getres,
      na_stage = (case res of
          Some r \<Rightarrow> sbind (output_stage timespec_layout (timespec_bytes r)) (\<lambda>x.
            sreturn ([as_usize clockid, output_offset x], Some x))
        | None \<Rightarrow> sreturn ([as_usize clockid, NULL], None)),
      na_commit = option_commit output_commit,
      na_ret = sys_result_unit,
      na_collect = (\<lambda>x ret m.
        if is_ok ret
        then obind (option_collect output_collect x m) (\<lambda>bs.
               Ret (ret, map_option timespec_of_bytes bs))
        else Ret (ret, res))\<rparr>"

definition clock_gettime_alloc ::
  "c_int \<Rightarrow> timespec \<Rightarrow> (unit, output_t, output_t, unit result \<times> timespec) syscall_alloc" where
  "clock_gettime_alloc clockid tp =
     \<lparr>na_num = SYS_clock_gettime,
      na_stage = sbind (output_stage timespec_layout (timespec_bytes tp)) (\<lambda>x.
        sreturn ([as_usize clockid, output_offset x], x)),
      na_commit = output_commit,
      na_ret = sys_result_unit,
      na_collect = (\<lambda>x ret m.
        if is_ok ret
        then obind (output_collect x m) (\<lambda>bs. Ret (ret, timespec_of_bytes bs))
        else Ret (ret, tp))\<rparr>"

record staged_nanosleep =
  ns_req :: input_t
  ns_rem :: "inout_t option"

definition nanosleep_commit :: "staged_nanosleep \<Rightarrow> (mem, output_t option) committer" where
  "nanosleep_commit s =
     cbind (input_commit (ns_req s)) (\<lambda>_. option_commit inout_commit (ns_rem s))"

definition nanosleep_alloc ::
  "timespec \<Rightarrow> timespec option \<Rightarrow>
     (unit, staged_nanosleep, output_t option, unit result \<times> timespec option) syscall_alloc" where
  "nanosleep_alloc req rem =
     \<lparr>na_num = SYS_nanosleep,
      na_stage = sbind (input_stage timespec_layout (timespec_bytes req)) (\<lambda>r.
        (case rem of
           Some v \<Rightarrow> sbind (inout_stage timespec_layout (timespec_bytes v)) (\<lambda>x.
             sreturn ([input_offset r, inout_offset x], \<lparr>ns_req = r, ns_rem = Some x\<rparr>))
         | None \<Rightarrow> sreturn ([input_offset r, NULL], \<lparr>ns_req = r, ns_rem = None\<rparr>))),
      na_commit = nanosleep_commit,
      na_ret = sys_result_unit,
      na_collect = (\<lambda>x ret m.
        if ret = Err EINTR
        then obind (option_collect output_collect x m) (\<lambda>bs.
               Ret (ret, map_option timespec_of_bytes bs))
        else Ret (ret, rem))\<rparr>"

definition epoll_ctl_alloc ::
  "c_int \<Rightarrow> c_int \<Rightarrow> c_int \<Rightarrow> epoll_event \<Rightarrow> (unit, input_t, unit, unit result) syscall_alloc" where
  "epoll_ctl_alloc epfd op fd event =
     \<lparr>na_num = SYS_epoll_ctl,
      na_stage = sbind (input_stage epoll_event_layout (epoll_event_bytes event)) (\<lambda>e.
        sreturn ([as_usize epfd, as_usize op, as_usize fd, input_offset e], e)),
      na_commit = input_commit,
      na_ret = sys_result_unit,
      na_collect = (\<lambda>_ ret _. Ret ret)\<rparr>"

definition epoll_wait_alloc ::
  "c_int \<Rightarrow> epoll_event list \<Rightarrow> c_int \<Rightarrow>
     (c_int, output_t, output_t, c_int result option \<times> byte list) syscall_alloc" where
  "epoll_wait_alloc epfd events timeout =
     \<lparr>na_num = SYS_epoll_wait,
      na_stage =
        sbind (output_stage_slice epoll_event_layout (concat (map epoll_event_bytes events))) (\<lambda>e.
          sreturn ([as_usize epfd, output_offset e, output_len e, as_usize timeout], e)),
      na_commit = output_commit,
      na_ret = sys_result_int,
      na_collect = collect_counted_int\<rparr>"

record staged_epoll_pwait =
  ep_events :: output_t
  ep_sigmask :: input_t

definition epoll_pwait_commit :: "staged_epoll_pwait \<Rightarrow> (mem, output_t) committer" where
  "epoll_pwait_commit s =
     cbind (output_commit (ep_events s)) (\<lambda>events.
     cbind (input_commit (ep_sigmask s)) (\<lambda>_. creturn events))"

definition epoll_pwait_alloc ::
  "c_int \<Rightarrow> epoll_event list \<Rightarrow> c_int \<Rightarrow> sigset \<Rightarrow>
     (c_int, staged_epoll_pwait, output_t, c_int result option \<times> byte list) syscall_alloc" where
  "epoll_pwait_alloc epfd events timeout sigmask =
     \<lparr>na_num = SYS_epoll_pwait,
      na_stage =
        sbind (output_stage_slice epoll_event_layout (concat (map epoll_event_bytes events))) (\<lambda>e.
        sbind (input_stage sigset_layout (sigset_bytes sigmask)) (\<lambda>s.
          sreturn ([as_usize epfd, output_offset e, output_len e, as_usize timeout, input_offset s],
                   \<lparr>ep_events = e, ep_sigmask = s\<rparr>))),
      na_commit = epoll_pwait_commit,
      na_ret = sys_result_int,
      na_collect = collect_counted_int\<rparr>"

definition poll_alloc ::
  "pollfd list \<Rightarrow> c_int \<Rightarrow> (c_int, inout_t, output_t, c_int result option \<times> byte list) syscall_alloc" where
  "poll_alloc fds timeout =
     \<lparr>na_num = SYS_poll,
      na_stage = sbind (inout_stage_slice pollfd_layout (concat (map pollfd_bytes fds))) (\<lambda>x.
        sreturn ([inout_offset x, inout_len x, as_usize timeout], x)),
      na_commit = inout_commit_slice,
      na_ret = sys_result_int,
      na_collect = collect_counted_int\<rparr>"

section \<open>Calls that may not need the host\<close>

definition alloc_fcntl :: "c_int \<Rightarrow> c_int \<Rightarrow> c_int \<Rightarrow> (c_int, unit, unit, c_int result) syscall_alloc" where
  "alloc_fcntl fd cmd arg =
     passthrough_alloc SYS_fcntl [as_usize fd, as_usize cmd, as_usize arg] sys_result_int"

definition fcntl_stage :: "c_int \<Rightarrow> c_int \<Rightarrow> c_int \<Rightarrow> (unit, c_int result) maybe_alloc result" where
  "fcntl_stage fd cmd arg =
     (if fd = STDIN_FILENO \<and> cmd = F_GETFL then Ok (MStub (Ok (O_RDWR OR O_APPEND)))
      else if (fd = STDOUT_FILENO \<or> fd = STDERR_FILENO) \<and> cmd = F_GETFL
        then Ok (MStub (Ok O_WRONLY))
      else if fd = STDIN_FILENO \<or> fd = STDOUT_FILENO \<or> fd = STDERR_FILENO then Err EINVAL
      else if cmd = F_GETFD \<or> cmd = F_SETFD \<or> cmd = F_GETFL \<or> cmd = F_SETFL then Ok (MAlloc ())
      else Err EBADFD)"

definition alloc_ioctl ::
  "c_int \<Rightarrow> c_int \<Rightarrow> byte list option \<Rightarrow>
     (c_int, inout_t option, output_t option, c_int result \<times> byte list option) syscall_alloc" where
  "alloc_ioctl fd request argp =
     \<lparr>na_num = SYS_ioctl,
      na_stage = sbind (option_stage (inout_stage_slice u8_layout) argp) (\<lambda>x.
        let (argp_offset, argp_len) =
          (case x of None \<Rightarrow> (NULL, 0) | Some a \<Rightarrow> (inout_offset a, inout_len a))
        in sreturn ([as_usize fd, as_usize request, argp_offset, argp_len], x)),
      na_commit = option_commit inout_commit_slice,
      na_ret = sys_result_int,
      na_collect = (\<lambda>x ret m. obind (option_collect output_collect_slice x m) (\<lambda>bs.
        Ret (ret, bs)))\<rparr>"

definition ioctl_stage ::
  "c_int \<Rightarrow> c_int \<Rightarrow> byte list option \<Rightarrow>
     (unit, c_int result \<times> byte list option) maybe_alloc result" where
  "ioctl_stage fd request argp =
     (if (fd = STDIN_FILENO \<or> fd = STDOUT_FILENO \<or> fd = STDERR_FILENO) \<and> request = TIOCGWINSZ
        then Ok (MStub (Err ENOTTY, argp))
      else if fd = STDIN_FILENO \<or> fd = STDOUT_FILENO \<or> fd = STDERR_FILENO
        then Ok (MStub (Err EINVAL, argp))
      else if request = FIONBIO \<or> request = FIONREAD then Ok (MAlloc ())
      else Ok (MStub (Err EBADFD, argp)))"

definition bytes_of_string :: "string \<Rightarrow> byte list" where
  "bytes_of_string s = map of_char s"

definition alloc_open ::
  "byte list \<Rightarrow> c_int \<Rightarrow> 32 word option \<Rightarrow> (c_int, input_t, unit, c_int result) syscall_alloc" where
  "alloc_open pathname flags mode =
     \<lparr>na_num = SYS_open,
      na_stage = sbind (input_stage_slice u8_layout pathname) (\<lambda>p.
        sreturn ([input_offset p, input_len p, as_usize flags,
                  ucast (case mode of None \<Rightarrow> 0 | Some md \<Rightarrow> md)], p)),
      na_commit = input_commit_slice,
      na_ret = sys_result_int,
      na_collect = (\<lambda>_ ret _. Ret ret)\<rparr>"

definition open_stage ::
  "byte list \<Rightarrow> c_int \<Rightarrow> 32 word option \<Rightarrow> (unit, c_int result) maybe_alloc result" where
  "open_stage pathname flags mode =
     (if pathname = bytes_of_string ''/etc/resolv.conf'' @ [0] \<and>
         flags AND NOT (O_RDONLY OR O_CLOEXEC) = 0
      then Ok (MAlloc ())
      else Ok (MStub (Err EACCES)))"

text \<open>The three calls as \<^verbatim>\<open>Handler::execute\<close> gets them.\<close>

definition fcntl_call where
  "fcntl_call fd cmd arg =
     maybe_alloc_call Syscall (numbered_call syscall_kind (alloc_fcntl fd cmd arg))
       (fcntl_stage fd cmd arg)"

definition ioctl_call where
  "ioctl_call fd request argp =
     maybe_alloc_call Syscall (numbered_call syscall_kind (alloc_ioctl fd request argp))
       (ioctl_stage fd request argp)"

definition open_call where
  "open_call pathname flags mode =
     maybe_alloc_call Syscall (numbered_call syscall_kind (alloc_open pathname flags mode))
       (open_stage pathname flags mode)"

end
