(* ===== verification/Syscall_Laws.thy ===== *)
theory Syscall_Laws
  imports Syscalls
begin

text \<open>
  Every system call of \<^verbatim>\<open>guest/call/syscall\<close> keeps the contract of a call: an
  interpretation of \<open>numbered_laws\<close> per call, resting on one lemma per kind of argument.
  What the reading calls, the writing calls and the vectored calls compute is stated at the end.
\<close>

section \<open>Argument types\<close>

lemma length_c_structs [simp]:
  "length (u32_bytes w) = 4" "length (timespec_bytes t) = 16" "length (epoll_event_bytes e) = 16"
  "length (pollfd_bytes p) = 8" "length (sigset_bytes s) = 128"
  by (simp_all add: u32_bytes_def timespec_bytes_def epoll_event_bytes_def pollfd_bytes_def
      sigset_bytes_def)

lemma length_concat_const: "(\<And>x. length (f x) = n) \<Longrightarrow> length (concat (map f xs)) = n * length xs"
  by (induction xs) auto

lemma length_event_slices [simp]:
  "length (concat (map epoll_event_bytes es)) = 16 * length es"
  "length (concat (map pollfd_bytes ps)) = 8 * length ps"
  by (simp_all add: length_concat_const)

lemma layout_from_size_align_Ok:
  "ok_or (layout_from_size_align n a) e = Ok L \<Longrightarrow> l_size L = n \<and> l_align L = a \<and> 0 < a"
  by (auto simp: ok_or_Inr is_pow2_pos)

lemma allocate_layout_facts:
  "allocate_layout L al = Ok (((addr, n), off), al') \<Longrightarrow> 0 < l_align L \<Longrightarrow>
     a_ptr al \<le> addr \<and> a_ptr al' = addr + n \<and> n = l_size L \<and> advances al al'"
  using allocate_layout_Ok [of L al addr n off al'] by simp

lemma allocate_bytes_ok:
  "allocate_input_layout L al = Ok (r, al') \<Longrightarrow> 0 < l_align L \<Longrightarrow>
     in_ref_ok (a_ptr al) (a_ptr al') r \<and> in_elem r = u8_layout \<and> in_count r = l_size L \<and>
     advances al al'"
  "allocate_output_layout L al = Ok (x, al') \<Longrightarrow> 0 < l_align L \<Longrightarrow>
     out_ref_ok (a_ptr al) (a_ptr al') x \<and> out_elem x = u8_layout \<and> out_count x = l_size L \<and>
     advances al al'"
  by (auto simp: allocate_input_layout_def allocate_output_layout_def smap_Inr in_ref_new_def
      out_ref_new_def in_ref_ok_def out_ref_ok_def layouts dest!: allocate_layout_facts)

lemma u8_size [simp]: "l_size u8_layout = 1" "l_align u8_layout = 1"
  by (simp_all add: layouts)

lemma sockaddr_input_stage_ok:
  "sockaddr_input_stage addr al = Ok (i, al') \<Longrightarrow>
     input_ok (a_ptr al) (a_ptr al') i \<and> advances al al' \<and> i_val i = addr"
  by (auto simp: sockaddr_input_stage_def stage_elims input_new_unchecked_def input_ok_def
      dest!: layout_from_size_align_Ok allocate_bytes_ok(1))

lemma sockopt_input_stage_ok:
  "sockopt_input_stage opt al = Ok (i, al') \<Longrightarrow>
     input_ok (a_ptr al) (a_ptr al') i \<and> advances al al' \<and> i_val i = opt"
  by (auto simp: sockopt_input_stage_def stage_elims input_new_unchecked_def input_ok_def
      dest!: layout_from_size_align_Ok allocate_bytes_ok(1))

text \<open>The place for an address of \<open>n\<close> bytes and the one for its length.\<close>

definition sockaddr_staged_ok :: "nat \<Rightarrow> nat \<Rightarrow> nat \<Rightarrow> staged_sockaddr_output \<Rightarrow> bool" where
  "sockaddr_staged_ok n lo hi s \<longleftrightarrow> output_ok lo hi (ss_addr s) \<and> length (o_val (ss_addr s)) = n \<and> inout_ok lo hi (ss_addrlen s) \<and>
     in_count (inout_in (io_ref (ss_addrlen s))) = 1"

definition sockaddr_committed_ok :: "nat \<Rightarrow> nat \<Rightarrow> nat \<Rightarrow> committed_sockaddr_output \<Rightarrow> bool" where
  "sockaddr_committed_ok n lo hi c \<longleftrightarrow> output_ok lo hi (cs_addr c) \<and> length (o_val (cs_addr c)) = n \<and> output_ok lo hi (cs_addrlen c) \<and>
     out_count (o_ref (cs_addrlen c)) = 1"

lemma sockaddr_ok_mono:
  "sockaddr_staged_ok n lo hi s \<Longrightarrow> lo' \<le> lo \<Longrightarrow> hi \<le> hi' \<Longrightarrow> sockaddr_staged_ok n lo' hi' s"
  by (auto simp: sockaddr_staged_ok_def intro: data_ok_mono)

lemma socklen_layout_simps [simp]: "l_size socklen_layout = 4" "l_align socklen_layout = 4"
  by (simp_all add: layouts)

lemma sockaddr_output_stage_ok:
  assumes "sockaddr_output_stage so al = Ok (s, al')"
  shows "sockaddr_staged_ok (length (so_addr so)) (a_ptr al) (a_ptr al') s \<and> advances al al'"
proof -
  from assms obtain L addr al1 addrlen where
    L: "ok_or (layout_from_size_align (length (so_addr so)) (l_align sockaddr_storage_layout))
          EOVERFLOW = Ok L" and
    1: "allocate_output_layout L al = Ok (addr, al1)" and
    2: "inout_stage socklen_layout (u32_bytes (so_addrlen so)) al1 = Ok (addrlen, al')" and
    s: "s = \<lparr>ss_addr = output_new_unchecked addr (so_addr so), ss_addrlen = addrlen\<rparr>"
    by (auto simp: sockaddr_output_stage_def stage_elims)
  note L = layout_from_size_align_Ok [OF L]
  note r1 = allocate_bytes_ok(2) [OF 1] and r2 = stage_sized_ok(3) [OF _ 2]
  have o1: "output_ok (a_ptr al) (a_ptr al1) (ss_addr s)" and adv: "advances al al1" "advances al1 al'"
    using r1 r2 L by (simp_all add: s output_ok_def output_new_unchecked_def)
  then have "output_ok (a_ptr al) (a_ptr al') (ss_addr s)"
    by (auto intro: data_ok_mono advances_ptr)
  moreover have "inout_ok (a_ptr al) (a_ptr al') (ss_addrlen s)"
    using r2 adv by (auto simp: s intro: data_ok_mono advances_ptr)
  ultimately show ?thesis
    using r2 adv by (auto simp: sockaddr_staged_ok_def s output_new_unchecked_def intro: advances_trans)
qed

lemma sockaddr_output_commit_ok:
  assumes "sockaddr_staged_ok n lo hi s" "in_mem m lo (hi - lo)"
  shows "\<exists>x m'. sockaddr_output_commit s m = Some (x, m') \<and> unchanged m m' lo hi \<and>
           sockaddr_committed_ok n lo hi x"
  using inout_commit_ok [OF _ assms(2), of "ss_addrlen s"] assms(1)
  by (auto simp: sockaddr_output_commit_def sockaddr_staged_ok_def sockaddr_committed_ok_def
      cbind_def output_of_inout_def output_new_unchecked_def out_ref_of_inout_def)
     (auto simp: output_ok_def inout_ok_def out_ref_ok_def in_ref_ok_def)

lemma sockaddr_output_collect_ok:
  assumes "sockaddr_committed_ok n lo hi c" "in_mem m lo (hi - lo)"
  shows "\<exists>r. sockaddr_output_collect c m = Ret r \<and> length (so_addr r) = n"
proof -
  have "out_ref_ok lo hi (o_ref (cs_addrlen c))" "out_count (o_ref (cs_addrlen c)) = 1"
    using assms(1) by (auto simp: sockaddr_committed_ok_def output_ok_def)
  from output_collect_ok [OF this(1) assms(2) this(2)] obtain bs where
    1: "output_collect (cs_addrlen c) m = Ret bs" by blast
  have "output_ok lo hi (cs_addr c)"
    using assms(1) by (simp add: sockaddr_committed_ok_def)
  then have "\<exists>r. output_collect_range (cs_addr c) (min (out_count (o_ref (cs_addr c))) k) m = Ret r \<and>
      length r = n" for k
    using output_collect_range_ok [OF _ assms(2), of "cs_addr c" "min (out_count (o_ref (cs_addr c))) k"] assms(1)
    by (auto simp: sockaddr_committed_ok_def)
  then obtain r where "output_collect_range (cs_addr c)
      (min (out_count (o_ref (cs_addr c))) (unat (u32_of_bytes bs))) m = Ret r" "length r = n"
    by blast
  with 1 show ?thesis
    by (simp add: sockaddr_output_collect_def Let_def)
qed

lemma bytes_input_commit_ok:
  "input_ok lo hi i \<Longrightarrow> in_mem m lo (hi - lo) \<Longrightarrow>
     \<exists>m'. bytes_input_commit i m = Some (in_count (i_ref i), m') \<and> unchanged m m' lo hi"
  using input_commit_within(2) by (fastforce simp: bytes_input_commit_def cbind_def)

text \<open>The options.\<close>

definition option_ok :: "(nat \<Rightarrow> nat \<Rightarrow> 'a \<Rightarrow> bool) \<Rightarrow> nat \<Rightarrow> nat \<Rightarrow> 'a option \<Rightarrow> bool" where
  "option_ok P lo hi x \<longleftrightarrow> (case x of None \<Rightarrow> True | Some v \<Rightarrow> P lo hi v)"

lemma option_ok_simps [simp]: "option_ok P lo hi None" "option_ok P lo hi (Some v) = P lo hi v"
  by (simp_all add: option_ok_def)

lemma option_stage_ok:
  assumes "option_stage f x al = Ok (y, al')"
    and "\<And>v w. f v al = Ok (w, al') \<Longrightarrow> P (a_ptr al) (a_ptr al') w \<and> advances al al'"
  shows "option_ok P (a_ptr al) (a_ptr al') y \<and> advances al al'"
  using assms by (cases x) (auto simp: option_stage_def smap_Inr)

lemma option_commit_ok:
  assumes "option_ok P lo hi x"
    and "\<And>v. P lo hi v \<Longrightarrow> \<exists>y m'. f v m = Some (y, m') \<and> unchanged m m' lo hi \<and> Q lo hi y"
  shows "\<exists>y m'. option_commit f x m = Some (y, m') \<and> unchanged m m' lo hi \<and> option_ok Q lo hi y"
  using assms by (cases x) (force simp: option_commit_def cbind_def)+

lemma option_collect_ok:
  assumes "option_ok P lo hi x" "\<And>v. P lo hi v \<Longrightarrow> \<exists>y. f v m = Ret y"
  shows "\<exists>y. option_collect f x m = Ret y"
  using assms by (cases x) (force simp: option_collect_def)+

text \<open>The counted collections.\<close>

lemma collect_counted_ok:
  "output_ok lo hi x \<Longrightarrow> in_mem m lo (hi - lo) \<Longrightarrow> \<exists>r. collect_counted x ret m = Ret r"
  using output_collect_range_ok [of lo hi x m]
  by (cases ret) (force simp: collect_counted_def not_less)+

lemma collect_counted_int_ok:
  "output_ok lo hi x \<Longrightarrow> in_mem m lo (hi - lo) \<Longrightarrow> \<exists>r bs. collect_counted_int x ret m = Ret (r, bs)"
  using output_collect_range_ok [of lo hi x m]
  by (cases ret) (force simp: collect_counted_int_def not_less)+

text \<open>What waiting for events comes to: a count is within the array, and only that many entries of
  \<open>sz\<close> bytes at its beginning change.\<close>

definition events_post :: "nat \<Rightarrow> byte list \<Rightarrow> c_int result option \<Rightarrow> byte list \<Rightarrow> bool" where
  "events_post sz evs r b \<longleftrightarrow>
     (case r of
        None \<Rightarrow> b = evs
      | Some (Inl e) \<Rightarrow> b = evs
      | Some (Inr n) \<Rightarrow>
          sz * unat (as_usize n) \<le> length evs \<and> length b = length evs \<and>
          drop (sz * unat (as_usize n)) b = drop (sz * unat (as_usize n)) evs)"

definition events_ok :: "nat \<Rightarrow> byte list \<Rightarrow> nat \<Rightarrow> nat \<Rightarrow> output_t \<Rightarrow> bool" where
  "events_ok sz evs lo hi x \<longleftrightarrow> output_ok lo hi x \<and> l_size (out_elem (o_ref x)) = sz \<and> o_val x = evs"

lemma events_collectD:
  assumes "collect_counted_int x ret m = Ret (r, b)" "events_ok sz evs lo hi x" "in_mem m lo (hi - lo)"
  shows "events_post sz evs r b"
proof (cases ret)
  case (Inl e)
  with assms show ?thesis by (auto simp: collect_counted_int_def events_post_def events_ok_def)
next
  case (Inr n)
  show ?thesis
  proof (cases "out_count (o_ref x) < unat (as_usize n)")
    case True
    with Inr assms show ?thesis by (auto simp: collect_counted_int_def events_post_def events_ok_def)
  next
    case False
    have ok: "output_ok lo hi x"
      using assms(2) by (simp add: events_ok_def)
    from output_collect_range_ok [OF ok assms(3), of "unat (as_usize n)"] False obtain bs where
      "output_collect_range x (unat (as_usize n)) m = Ret (bs @ drop (length bs) (o_val x))"
      "length bs = unat (as_usize n) * l_size (out_elem (o_ref x))" "length bs \<le> length (o_val x)"
      by auto
    with Inr False assms show ?thesis
      by (auto simp: collect_counted_int_def events_post_def events_ok_def mult.commute)
  qed
qed

lemma events_collect_ok:
  "events_ok sz evs lo hi x \<Longrightarrow> in_mem m lo (hi - lo) \<Longrightarrow>
     \<exists>r bs. collect_counted_int x ret m = Ret (r, bs)"
  using collect_counted_int_ok by (auto simp: events_ok_def)

section \<open>Vectored copies\<close>

lemma concat_iovs_within: "concat (iovs_within n iovs) = take n (concat iovs)"
proof (induction n iovs rule: iovs_within.induct)
  case (2 n iov iovs)
  have z: "iovs_within 0 iovs = []"
    by (cases iovs) simp_all
  with 2 show ?case
    by (simp add: z)
qed simp

lemma splice_splice:
  assumes "i + length xs + length ys \<le> length zs"
  shows "splice (i + length xs) ys (splice i xs zs) = splice i (xs @ ys) zs"
  using assms by (simp add: splice_def add.commute add.left_commute)

text \<open>Copying buffer after buffer is copying their concatenation.\<close>

lemma copy_from_iter_concat:
  "in_mem m p (length (concat srcs)) \<Longrightarrow> copy_from_iter p srcs m = mem_write p (concat srcs) m"
proof (induction srcs arbitrary: p m)
  case Nil
  then show ?case by (simp add: mem_write_def)
next
  case (Cons src srcs)
  have i: "in_mem m p (length src)"
    using Cons.prems by (simp add: in_mem_def)
  let ?m = "m\<lparr>mem_data := splice (p - mem_base m) src (mem_data m)\<rparr>"
  have w: "mem_write p src m = Some ((), ?m)"
    using i by (rule mem_write_Some)
  have l: "length (mem_data ?m) = length (mem_data m)"
    using i by (auto simp: in_mem_def)
  have i': "in_mem ?m (p + length src) (length (concat srcs))"
    using Cons.prems l by (simp add: in_mem_def)
  have e: "p + length src - mem_base m = (p - mem_base m) + length src"
    "(p - mem_base m) + length src + length (concat srcs) \<le> length (mem_data m)"
    using Cons.prems by (auto simp: in_mem_def)
  have "copy_from_iter p (src # srcs) m = copy_from_iter (p + length src) srcs ?m"
    using w by (simp add: cbind_def)
  also have "\<dots> = mem_write (p + length src) (concat srcs) ?m"
    by (rule Cons.IH [OF i'])
  also have "\<dots> = Some ((), ?m\<lparr>mem_data :=
      splice (p + length src - mem_base m) (concat srcs) (mem_data ?m)\<rparr>)"
    using mem_write_Some [OF i'] by simp
  also have "\<dots> = mem_write p (concat (src # srcs)) m"
    using mem_write_Some [OF Cons.prems] splice_splice [OF e(2)] by (simp only: e(1)) simp
  finally show ?case .
qed

lemma copy_to_iter_concat:
  "in_mem m p (length (concat dests)) \<Longrightarrow>
     \<exists>ds. copy_to_iter p dests m = Some ds \<and> map length ds = map length dests \<and>
       mem_read p (length (concat dests)) m = Some (concat ds)"
proof (induction dests arbitrary: p)
  case Nil
  then show ?case by (simp add: mem_read_def)
next
  case (Cons d dests)
  have i: "in_mem m p (length d)" "in_mem m (p + length d) (length (concat dests))"
    using Cons.prems by (simp_all add: in_mem_def)
  from Cons.IH [OF i(2)] obtain ds where
    ds: "copy_to_iter (p + length d) dests m = Some ds" "map length ds = map length dests"
      "mem_read (p + length d) (length (concat dests)) m = Some (concat ds)" by blast
  let ?b = "take (length d) (drop (p - mem_base m) (mem_data m))"
  have b: "mem_read p (length d) m = Some ?b" "length ?b = length d"
    using i(1) by (auto simp: mem_read_def in_mem_def)
  have "mem_read p (length d + length (concat dests)) m = Some (?b @ concat ds)"
    using ds(3) Cons.prems i
    by (auto simp: mem_read_def take_add in_mem_def add.commute)
  with ds b show ?case by simp
qed

lemma copy_from_iter_unchecked_ok:
  assumes "in_ref_ok lo hi r" "in_mem m lo (hi - lo)"
    and "length (concat srcs) \<le> l_size (in_elem r) * in_count r"
  shows "\<exists>m'. copy_from_iter_unchecked r srcs m = Some ((), m') \<and> unchanged m m' lo hi \<and>
           mem_read (in_ptr r) (length (concat srcs)) m' = Some (concat srcs)"
proof -
  have i: "in_mem m (in_ptr r) (length (concat srcs))"
    using assms by (auto simp: in_ref_ok_def in_mem_def)
  from mem_write_ok [OF i] obtain m' where m': "mem_write (in_ptr r) (concat srcs) m = Some ((), m')"
    by auto
  have "unchanged m m' lo hi"
    by (rule unchanged_mono [OF mem_write_unchanged [OF m']])
       (use assms in \<open>auto simp: in_ref_ok_def\<close>)
  with assms m' mem_read_write_same [OF m'] copy_from_iter_concat [OF i] show ?thesis
    by (auto simp: copy_from_iter_unchecked_def in_ref_ok_def length_concat)
qed

lemma copy_to_iter_unchecked_ok:
  assumes "out_ref_ok lo hi r" "in_mem m lo (hi - lo)"
    and "length (concat dests) \<le> l_size (out_elem r) * out_count r"
  shows "\<exists>ds. copy_to_iter_unchecked r dests m = Ret ds \<and> map length ds = map length dests \<and>
           mem_read (out_ptr r) (length (concat dests)) m = Some (concat ds)"
proof -
  have "in_mem m (out_ptr r) (length (concat dests))"
    using assms by (auto simp: out_ref_ok_def in_mem_def)
  from copy_to_iter_concat [OF this] assms show ?thesis
    by (auto simp: copy_to_iter_unchecked_def out_ref_ok_def length_concat)
qed

section \<open>Contracts\<close>

lemma syscall_lawsI:
  assumes "\<And>al argv s al'. na_stage a al = Ok ((argv, s), al') \<Longrightarrow>
      advances al al' \<and> length argv \<le> 6 \<and> s_ok (a_ptr al) (a_ptr al') s"
    and "\<And>lo hi s m. s_ok lo hi s \<Longrightarrow> in_mem m lo (hi - lo) \<Longrightarrow>
      \<exists>x m'. na_commit a s m = Some (x, m') \<and> unchanged m m' lo hi \<and> c_ok lo hi x"
    and "\<And>lo hi x m ret. c_ok lo hi x \<Longrightarrow> in_mem m lo (hi - lo) \<Longrightarrow>
      \<exists>r. na_collect a x ret m = Ret r"
  shows "numbered_laws syscall_kind a s_ok c_ok"
  by unfold_locales (use assms in \<open>auto simp: syscall_kind_def\<close>)

definition no_data :: "nat \<Rightarrow> nat \<Rightarrow> 'a \<Rightarrow> bool" where
  "no_data lo hi x \<longleftrightarrow> True"

lemma no_data [simp]: "no_data lo hi x"
  by (simp add: no_data_def)

lemma passthrough_laws:
  "length argv \<le> 6 \<Longrightarrow> numbered_laws syscall_kind (passthrough_alloc num argv conv) no_data no_data"
  by (rule syscall_lawsI) (auto simp: passthrough_alloc_def)

interpretation close: numbered_laws syscall_kind "close_alloc fd" no_data no_data for fd
  unfolding close_alloc_def by (rule passthrough_laws) simp

interpretation dup: numbered_laws syscall_kind "dup_alloc oldfd" no_data no_data for oldfd
  unfolding dup_alloc_def by (rule passthrough_laws) simp

interpretation dup2: numbered_laws syscall_kind "dup2_alloc oldfd newfd" no_data no_data
  for oldfd newfd
  unfolding dup2_alloc_def by (rule passthrough_laws) simp

interpretation dup3: numbered_laws syscall_kind "dup3_alloc oldfd newfd flags" no_data no_data
  for oldfd newfd flags
  unfolding dup3_alloc_def by (rule passthrough_laws) simp

interpretation epoll_create1: numbered_laws syscall_kind "epoll_create1_alloc flags" no_data no_data
  for flags
  unfolding epoll_create1_alloc_def by (rule passthrough_laws) simp

interpretation eventfd2: numbered_laws syscall_kind "eventfd2_alloc initval flags" no_data no_data
  for initval flags
  unfolding eventfd2_alloc_def by (rule passthrough_laws) simp

interpretation exit: numbered_laws syscall_kind "exit_alloc status" no_data no_data for status
  unfolding exit_alloc_def by (rule passthrough_laws) simp

interpretation exit_group: numbered_laws syscall_kind "exit_group_alloc status" no_data no_data
  for status
  unfolding exit_group_alloc_def by (rule passthrough_laws) simp

interpretation listen: numbered_laws syscall_kind "listen_alloc sockfd backlog" no_data no_data
  for sockfd backlog
  unfolding listen_alloc_def by (rule passthrough_laws) simp

interpretation socket: numbered_laws syscall_kind "socket_alloc domain kind protocol" no_data no_data
  for domain kind protocol
  unfolding socket_alloc_def by (rule passthrough_laws) simp

interpretation sync: numbered_laws syscall_kind sync_alloc no_data no_data
  unfolding sync_alloc_def by (rule passthrough_laws) simp

interpretation fcntl: numbered_laws syscall_kind "alloc_fcntl fd cmd arg" no_data no_data
  for fd cmd arg
  unfolding alloc_fcntl_def by (rule passthrough_laws) simp

text \<open>Calls with one byte buffer.\<close>

definition buf_ok :: "byte list \<Rightarrow> nat \<Rightarrow> nat \<Rightarrow> output_t \<Rightarrow> bool" where
  "buf_ok buf lo hi x \<longleftrightarrow> output_ok lo hi x \<and> out_elem (o_ref x) = u8_layout \<and>
     (\<exists>rest. buf = o_val x @ rest)"

lemma buf_ok_output_ok: "buf_ok buf lo hi x \<Longrightarrow> output_ok lo hi x"
  by (simp add: buf_ok_def)

lemma stage_buf_ok:
  "output_stage_slice_max u8_layout buf al = Ok ((x, rest), al') \<Longrightarrow>
     buf_ok buf (a_ptr al) (a_ptr al') x \<and> advances al al'"
  by (auto simp: buf_ok_def dest: stage_bytes_max_ok(2))

text \<open>What reading into a buffer comes to, whatever the host answers: the call is rejected, or
  the count is within the buffer and only that many bytes at its beginning change.\<close>

definition read_post :: "byte list \<Rightarrow> usize result option \<Rightarrow> byte list \<Rightarrow> bool" where
  "read_post buf r b \<longleftrightarrow>
     (case r of
        None \<Rightarrow> b = buf
      | Some (Inl e) \<Rightarrow> b = buf
      | Some (Inr n) \<Rightarrow>
          unat n \<le> length buf \<and> length b = length buf \<and> drop (unat n) b = drop (unat n) buf)"

lemma collect_counted_post:
  assumes "buf_ok buf lo hi x" "in_mem m lo (hi - lo)"
  shows "\<exists>r bs. collect_counted x ret m = Ret (r, bs) \<and> length bs = length (o_val x) \<and>
           read_post buf r (bs @ drop (length bs) buf)"
proof (cases ret)
  case (Inl e)
  then show ?thesis
    using assms(1) by (auto simp: collect_counted_def read_post_def buf_ok_def)
next
  case (Inr n)
  show ?thesis
  proof (cases "out_count (o_ref x) < unat n")
    case True
    with Inr show ?thesis
      using assms(1) by (auto simp: collect_counted_def read_post_def buf_ok_def)
  next
    case False
    with output_collect_range_ok [OF _ assms(2), of x "unat n"] assms(1) obtain bs where
      bs: "output_collect_range x (unat n) m = Ret (bs @ drop (length bs) (o_val x))"
        "length bs = unat n" "unat n \<le> length (o_val x)"
      by (auto simp: buf_ok_def not_less)
    from assms(1) obtain rest where "buf = o_val x @ rest"
      by (auto simp: buf_ok_def)
    with Inr False bs show ?thesis
      by (auto simp: collect_counted_def read_post_def)
  qed
qed

lemma collect_countedD:
  "collect_counted x ret m = Ret (r, bs) \<Longrightarrow> buf_ok buf lo hi x \<Longrightarrow> in_mem m lo (hi - lo) \<Longrightarrow>
     read_post buf r (bs @ drop (length bs) buf)"
  using collect_counted_post [of buf lo hi x m ret] by auto

interpretation read: numbered_laws syscall_kind "read_alloc fd buf" "buf_ok buf" "buf_ok buf"
  for fd buf
proof (rule syscall_lawsI)
  fix al argv s al'
  assume "na_stage (read_alloc fd buf) al = Ok ((argv, s), al')"
  then show "advances al al' \<and> length argv \<le> 6 \<and> buf_ok buf (a_ptr al) (a_ptr al') s"
    by (auto simp: read_alloc_def stage_elims dest!: stage_buf_ok)
next
  fix lo hi x m ret
  assume "buf_ok buf lo hi x" "in_mem m lo (hi - lo)"
  then show "\<exists>r. na_collect (read_alloc fd buf) x ret m = Ret r"
    using collect_counted_post [of buf lo hi x m ret] by (auto simp: read_alloc_def)
qed (auto simp: read_alloc_def output_commit_def)

interpretation recv: numbered_laws syscall_kind "recv_alloc sockfd buf flags" "buf_ok buf" "buf_ok buf"
  for sockfd buf flags
proof (rule syscall_lawsI)
  fix al argv s al'
  assume "na_stage (recv_alloc sockfd buf flags) al = Ok ((argv, s), al')"
  then show "advances al al' \<and> length argv \<le> 6 \<and> buf_ok buf (a_ptr al) (a_ptr al') s"
    by (auto simp: recv_alloc_def stage_elims dest!: stage_buf_ok)
next
  fix lo hi x m ret
  assume "buf_ok buf lo hi x" "in_mem m lo (hi - lo)"
  then show "\<exists>r. na_collect (recv_alloc sockfd buf flags) x ret m = Ret r"
    using collect_counted_post [of buf lo hi x m ret] by (auto simp: recv_alloc_def)
qed (auto simp: recv_alloc_def output_commit_def)

text \<open>What is staged of a buffer to send is a prefix of it, and the count a call commits to is the
  length of that prefix.\<close>

definition bytes_ok :: "byte list \<Rightarrow> nat \<Rightarrow> nat \<Rightarrow> input_t \<Rightarrow> bool" where
  "bytes_ok buf lo hi i \<longleftrightarrow> input_ok lo hi i \<and> in_elem (i_ref i) = u8_layout \<and>
     (\<exists>rest. buf = i_val i @ rest)"

definition count_ok :: "nat \<Rightarrow> nat \<Rightarrow> nat \<Rightarrow> nat \<Rightarrow> bool" where
  "count_ok n lo hi c \<longleftrightarrow> c \<le> n"

lemma bytes_ok_count: "bytes_ok buf lo hi i \<Longrightarrow> in_count (i_ref i) \<le> length buf"
  by (auto simp: bytes_ok_def input_ok_def)

lemma stage_sent_ok:
  "input_stage_slice_max u8_layout buf al = Ok ((i, rest), al') \<Longrightarrow>
     bytes_ok buf (a_ptr al) (a_ptr al') i \<and> advances al al'"
  by (auto simp: bytes_ok_def dest: stage_bytes_max_ok(1))

lemma bytes_commit_ok:
  "bytes_ok buf lo hi i \<Longrightarrow> in_mem m lo (hi - lo) \<Longrightarrow>
     \<exists>n m'. bytes_input_commit i m = Some (n, m') \<and> unchanged m m' lo hi \<and> count_ok (length buf) lo hi n"
  using bytes_input_commit_ok [of lo hi i m] bytes_ok_count [of buf lo hi i]
  by (auto simp: bytes_ok_def count_ok_def)

text \<open>A count that is accepted is within what was sent.\<close>

definition sent_post :: "nat \<Rightarrow> usize result \<Rightarrow> bool" where
  "sent_post n r \<longleftrightarrow> (case r of Inl e \<Rightarrow> True | Inr k \<Rightarrow> unat k \<le> n)"

lemma check_countD: "check_count c ret = Some r \<Longrightarrow> count_ok n lo hi c \<Longrightarrow> sent_post n r"
  by (auto simp: check_count_def sent_post_def count_ok_def split: sum.splits if_splits)

interpretation sys_write: numbered_laws syscall_kind "write_alloc fd buf" "bytes_ok buf"
  "count_ok (length buf)" for fd buf
  by (rule syscall_lawsI)
     (auto simp: write_alloc_def stage_elims dest!: stage_sent_ok dest: bytes_commit_ok)

interpretation send: numbered_laws syscall_kind "send_alloc sockfd buf flags" "bytes_ok buf"
  "count_ok (length buf)" for sockfd buf flags
  by (rule syscall_lawsI)
     (auto simp: send_alloc_def stage_elims dest!: stage_sent_ok dest: bytes_commit_ok)

interpretation bind: numbered_laws syscall_kind "bind_alloc sockfd addr" input_ok no_data
  for sockfd addr
  by (rule syscall_lawsI)
     (auto simp: bind_alloc_def stage_elims dest!: sockaddr_input_stage_ok
       dest: input_commit_within(2))

interpretation connect: numbered_laws syscall_kind "connect_alloc sockfd addr" input_ok no_data
  for sockfd addr
  by (rule syscall_lawsI)
     (auto simp: connect_alloc_def stage_elims dest!: sockaddr_input_stage_ok
       dest: input_commit_within(2))

interpretation sys_open: numbered_laws syscall_kind "alloc_open pathname flags mode" input_ok no_data
  for pathname flags mode
  by (rule syscall_lawsI)
     (auto simp: alloc_open_def stage_elims dest!: stage_bytes_ok(1) dest: input_commit_within(2))

text \<open>Vectored calls.\<close>

definition readv_ok :: "byte list list \<Rightarrow> nat \<Rightarrow> nat \<Rightarrow> staged_readv \<Rightarrow> bool" where
  "readv_ok iovs lo hi s \<longleftrightarrow> out_ref_ok lo hi (rv_buf s) \<and> out_elem (rv_buf s) = u8_layout \<and>
     rv_iovs s = iovs \<and> out_count (rv_buf s) \<le> iov_len iovs"

definition writev_ok :: "byte list list \<Rightarrow> nat \<Rightarrow> nat \<Rightarrow> staged_writev \<Rightarrow> bool" where
  "writev_ok iovs lo hi s \<longleftrightarrow> in_ref_ok lo hi (wv_buf s) \<and> in_elem (wv_buf s) = u8_layout \<and>
     wv_iovs s = iovs \<and> in_count (wv_buf s) \<le> iov_len iovs"

lemma readv_collect_ok:
  assumes "readv_ok iovs lo hi x" "in_mem m lo (hi - lo)" "n \<le> out_count (rv_buf x)"
  shows "\<exists>ds. copy_to_iter_unchecked (rv_buf x) (iovs_within n iovs) m = Ret ds \<and>
           map length ds = map length (iovs_within n iovs) \<and>
           mem_read (out_ptr (rv_buf x)) (length (take n (concat iovs))) m = Some (concat ds)"
  using copy_to_iter_unchecked_ok [of lo hi "rv_buf x" m "iovs_within n iovs"] assms
  by (auto simp: readv_ok_def concat_iovs_within)

lemma writev_commit_ok:
  assumes "writev_ok iovs lo hi s" "in_mem m lo (hi - lo)"
  shows "\<exists>m'. writev_commit s m = Some (in_count (wv_buf s), m') \<and> unchanged m m' lo hi \<and>
           mem_read (in_ptr (wv_buf s)) (length (take (in_count (wv_buf s)) (concat (wv_iovs s)))) m' =
             Some (take (in_count (wv_buf s)) (concat (wv_iovs s)))"
  using copy_from_iter_unchecked_ok [of lo hi "wv_buf s" m
      "iovs_within (in_count (wv_buf s)) (wv_iovs s)"] assms
  by (auto simp: writev_ok_def concat_iovs_within writev_commit_def cbind_def)

text \<open>Scattering over the buffers is copying over their concatenation.\<close>

lemma scatter_concat:
  "map length news = map length (iovs_within n iovs) \<Longrightarrow>
     map length (scatter news iovs) = map length iovs \<and>
     concat (scatter news iovs) = concat news @ drop (length (concat news)) (concat iovs)"
proof (induction n iovs arbitrary: news rule: iovs_within.induct)
  case (2 n iov iovs)
  have z: "iovs_within 0 iovs = []"
    by (cases iovs) simp_all
  consider (none) "n = 0" | (all) "n \<noteq> 0" "length iov \<le> n" | (cut) "n \<noteq> 0" "n < length iov"
    by linarith
  then show ?case
  proof cases
    case none
    with "2.prems" show ?thesis by simp
  next
    case all
    with "2.prems" obtain new rest where
      n: "news = new # rest" "length new = length iov"
        "map length rest = map length (iovs_within (n - length iov) iovs)"
      by (cases news) auto
    from "2.IH"(1) [OF all n(3)] n(1,2) show ?thesis
      by simp
  next
    case cut
    with "2.prems" z obtain new where "news = [new]" "length new = n"
      by (cases news) auto
    with cut show ?thesis
      by simp
  qed
qed simp

lemma iov_len_le: "iov_len iovs \<le> length (concat iovs)"
  by (simp add: iov_len_def length_concat)

definition readv_post :: "byte list list \<Rightarrow> usize result option \<Rightarrow> byte list list \<Rightarrow> bool" where
  "readv_post iovs r iovs' \<longleftrightarrow>
     (case r of
        None \<Rightarrow> iovs' = iovs
      | Some (Inl e) \<Rightarrow> iovs' = iovs
      | Some (Inr n) \<Rightarrow>
          unat n \<le> length (concat iovs) \<and> map length iovs' = map length iovs \<and>
          drop (unat n) (concat iovs') = drop (unat n) (concat iovs))"

lemma readv_collect_post:
  assumes "na_collect (readv_alloc fd iovs) x ret m = Ret (r, iovs')"
    and ok: "readv_ok iovs lo hi x" "in_mem m lo (hi - lo)"
  shows "readv_post iovs r iovs'"
proof (cases ret)
  case (Inl e)
  with assms show ?thesis by (auto simp: readv_alloc_def readv_post_def readv_ok_def)
next
  case (Inr n)
  have x: "rv_iovs x = iovs" "out_count (rv_buf x) \<le> length (concat iovs)"
    using ok(1) iov_len_le [of iovs] by (auto simp: readv_ok_def)
  show ?thesis
  proof (cases "out_count (rv_buf x) < unat n")
    case True
    with Inr x assms(1) show ?thesis by (auto simp: readv_alloc_def readv_post_def)
  next
    case False
    then have n: "unat n \<le> out_count (rv_buf x)" by simp
    from readv_collect_ok [OF ok n] obtain ds where
      ds: "copy_to_iter_unchecked (rv_buf x) (iovs_within (unat n) iovs) m = Ret ds"
        "map length ds = map length (iovs_within (unat n) iovs)" by blast
    then have l: "length (concat ds) = unat n"
      using n x by (simp add: length_concat flip: concat_iovs_within)
        (simp add: concat_iovs_within flip: length_concat)
    from False Inr ds x assms(1) have "r = Some (Ok n)" "iovs' = scatter ds iovs"
      by (auto simp: readv_alloc_def)
    with scatter_concat [OF ds(2)] l n x show ?thesis
      by (auto simp: readv_post_def)
  qed
qed

interpretation readv: numbered_laws syscall_kind "readv_alloc fd iovs" "readv_ok iovs" "readv_ok iovs"
  for fd iovs
proof (rule syscall_lawsI)
  fix al argv s al'
  assume "na_stage (readv_alloc fd iovs) al = Ok ((argv, s), al')"
  then show "advances al al' \<and> length argv \<le> 6 \<and> readv_ok iovs (a_ptr al) (a_ptr al') s"
    by (auto simp: readv_alloc_def stage_elims allocate_output_slice_max_def readv_ok_def
        dest!: allocate_slice_ok(2) [rotated])
next
  fix lo hi x m and ret :: "usize result"
  assume "readv_ok iovs lo hi x" "in_mem m lo (hi - lo)"
  then show "\<exists>r. na_collect (readv_alloc fd iovs) x ret m = Ret r"
    using readv_collect_ok [of iovs lo hi x m]
    by (cases ret) (force simp: readv_alloc_def not_less readv_ok_def)+
qed (auto simp: readv_alloc_def)

interpretation writev: numbered_laws syscall_kind "writev_alloc fd iovs" "writev_ok iovs"
  "count_ok (iov_len iovs)" for fd iovs
proof (rule syscall_lawsI)
  fix al argv s al'
  assume "na_stage (writev_alloc fd iovs) al = Ok ((argv, s), al')"
  then show "advances al al' \<and> length argv \<le> 6 \<and> writev_ok iovs (a_ptr al) (a_ptr al') s"
    by (auto simp: writev_alloc_def stage_elims allocate_input_slice_max_def writev_ok_def
        dest!: allocate_slice_ok(1) [rotated])
next
  fix lo hi s m
  assume "writev_ok iovs lo hi s" "in_mem m lo (hi - lo)"
  then show "\<exists>x m'. na_commit (writev_alloc fd iovs) s m = Some (x, m') \<and> unchanged m m' lo hi \<and>
      count_ok (iov_len iovs) lo hi x"
    using writev_commit_ok [of iovs lo hi s m] by (auto simp: writev_alloc_def count_ok_def writev_ok_def)
qed (auto simp: writev_alloc_def)

text \<open>Calls with addresses.\<close>

interpretation getsockname: numbered_laws syscall_kind "getsockname_alloc sockfd addr"
  "sockaddr_staged_ok (length (so_addr addr))" "sockaddr_committed_ok (length (so_addr addr))" for sockfd addr
  by (rule syscall_lawsI)
     (auto simp: getsockname_alloc_def stage_elims obind_Ret
       dest!: sockaddr_output_stage_ok dest: sockaddr_output_commit_ok sockaddr_output_collect_ok)

definition option_len :: "sockaddr_output option \<Rightarrow> nat" where
  "option_len x = (case x of None \<Rightarrow> 0 | Some so \<Rightarrow> length (so_addr so))"

lemma option_sockaddr_ok:
  "option_stage sockaddr_output_stage x al = Ok (y, al') \<Longrightarrow>
     option_ok (sockaddr_staged_ok (option_len x)) (a_ptr al) (a_ptr al') y \<and> advances al al'"
  "option_ok (sockaddr_staged_ok n) lo hi y \<Longrightarrow> in_mem m lo (hi - lo) \<Longrightarrow>
     \<exists>z m'. option_commit sockaddr_output_commit y m = Some (z, m') \<and> unchanged m m' lo hi \<and>
       option_ok (sockaddr_committed_ok n) lo hi z"
  "option_ok (sockaddr_committed_ok n) lo hi z \<Longrightarrow> in_mem m lo (hi - lo) \<Longrightarrow>
     \<exists>r. option_collect sockaddr_output_collect z m = Ret r"
proof -
  show "option_stage sockaddr_output_stage x al = Ok (y, al') \<Longrightarrow>
      option_ok (sockaddr_staged_ok (option_len x)) (a_ptr al) (a_ptr al') y \<and> advances al al'"
    by (cases x) (auto simp: option_stage_def smap_Inr option_len_def dest: sockaddr_output_stage_ok)
  show "option_ok (sockaddr_staged_ok n) lo hi y \<Longrightarrow> in_mem m lo (hi - lo) \<Longrightarrow>
      \<exists>z m'. option_commit sockaddr_output_commit y m = Some (z, m') \<and> unchanged m m' lo hi \<and>
        option_ok (sockaddr_committed_ok n) lo hi z"
    by (erule option_commit_ok, erule (1) sockaddr_output_commit_ok)
  show "option_ok (sockaddr_committed_ok n) lo hi z \<Longrightarrow> in_mem m lo (hi - lo) \<Longrightarrow>
      \<exists>r. option_collect sockaddr_output_collect z m = Ret r"
    by (erule option_collect_ok) (use sockaddr_output_collect_ok in blast)
qed

interpretation accept: numbered_laws syscall_kind "accept_alloc sockfd addr"
  "option_ok (sockaddr_staged_ok (option_len addr))" "option_ok (sockaddr_committed_ok (option_len addr))"
  for sockfd addr
  by (rule syscall_lawsI)
     (auto simp: accept_alloc_def stage_elims obind_Ret split_beta Let_def
       dest: option_sockaddr_ok)

interpretation accept4: numbered_laws syscall_kind "accept4_alloc sockfd addr flags"
  "option_ok (sockaddr_staged_ok (option_len addr))" "option_ok (sockaddr_committed_ok (option_len addr))"
  for sockfd addr flags
  by (rule syscall_lawsI)
     (auto simp: accept4_alloc_def stage_elims obind_Ret split_beta Let_def
       dest: option_sockaddr_ok)

definition recvfrom_staged_ok ::
  "byte list \<Rightarrow> nat \<Rightarrow> nat \<Rightarrow> nat \<Rightarrow> output_t \<times> staged_sockaddr_output \<Rightarrow> bool" where
  "recvfrom_staged_ok buf n lo hi s \<longleftrightarrow> buf_ok buf lo hi (fst s) \<and> sockaddr_staged_ok n lo hi (snd s)"

definition recvfrom_committed_ok ::
  "byte list \<Rightarrow> nat \<Rightarrow> nat \<Rightarrow> nat \<Rightarrow> output_t \<times> committed_sockaddr_output \<Rightarrow> bool" where
  "recvfrom_committed_ok buf n lo hi c \<longleftrightarrow> buf_ok buf lo hi (fst c) \<and> sockaddr_committed_ok n lo hi (snd c)"

interpretation recvfrom: numbered_laws syscall_kind "recvfrom_alloc sockfd buf flags addr"
  "recvfrom_staged_ok buf (length (so_addr addr))" "recvfrom_committed_ok buf (length (so_addr addr))" for sockfd buf flags addr
proof (rule syscall_lawsI)
  fix al argv s al'
  assume "na_stage (recvfrom_alloc sockfd buf flags addr) al = Ok ((argv, s), al')"
  then obtain a al1 b rest where 1: "sockaddr_output_stage addr al = Ok (a, al1)"
    and 2: "output_stage_slice_max u8_layout buf al1 = Ok ((b, rest), al')" and s: "s = (b, a)"
    and argv: "length argv = 6"
    by (auto simp: recvfrom_alloc_def stage_elims)
  note r1 = sockaddr_output_stage_ok [OF 1] and r2 = stage_buf_ok [OF 2]
  then show "advances al al' \<and> length argv \<le> 6 \<and> recvfrom_staged_ok buf (length (so_addr addr)) (a_ptr al) (a_ptr al') s"
    by (auto simp: recvfrom_staged_ok_def s argv buf_ok_def
        intro: advances_trans data_ok_mono sockaddr_ok_mono advances_ptr)
next
  fix lo hi s m
  assume "recvfrom_staged_ok buf (length (so_addr addr)) lo hi s" "in_mem m lo (hi - lo)"
  then show "\<exists>x m'. na_commit (recvfrom_alloc sockfd buf flags addr) s m = Some (x, m') \<and>
      unchanged m m' lo hi \<and> recvfrom_committed_ok buf (length (so_addr addr)) lo hi x"
    using sockaddr_output_commit_ok [of "length (so_addr addr)" lo hi "snd s" m]
    by (auto simp: recvfrom_alloc_def recvfrom_staged_ok_def recvfrom_committed_ok_def cbind_def
        output_commit_def split_beta)
next
  fix lo hi x m and ret :: "usize result"
  assume "recvfrom_committed_ok buf (length (so_addr addr)) lo hi x" "in_mem m lo (hi - lo)"
  then show "\<exists>r. na_collect (recvfrom_alloc sockfd buf flags addr) x ret m = Ret r"
    using output_collect_range_ok [of lo hi "fst x" m] sockaddr_output_collect_ok [of "length (so_addr addr)" lo hi "snd x" m]
    by (cases ret)
       (force simp: recvfrom_alloc_def recvfrom_committed_ok_def buf_ok_def split_beta not_less)+
qed

definition sendto_ok :: "byte list \<Rightarrow> nat \<Rightarrow> nat \<Rightarrow> staged_sendto \<Rightarrow> bool" where
  "sendto_ok buf lo hi s \<longleftrightarrow> input_ok lo hi (sd_dest_addr s) \<and> bytes_ok buf lo hi (sd_buf s)"

lemma bytes_ok_mono: "bytes_ok buf lo hi i \<Longrightarrow> lo' \<le> lo \<Longrightarrow> hi \<le> hi' \<Longrightarrow> bytes_ok buf lo' hi' i"
  by (auto simp: bytes_ok_def intro: data_ok_mono)

interpretation sendto: numbered_laws syscall_kind "sendto_alloc sockfd buf flags addr"
  "sendto_ok buf" "count_ok (length buf)" for sockfd buf flags addr
proof (rule syscall_lawsI)
  fix al argv s al'
  assume "na_stage (sendto_alloc sockfd buf flags addr) al = Ok ((argv, s), al')"
  then obtain a al1 b rest where 1: "sockaddr_input_stage addr al = Ok (a, al1)"
    and 2: "input_stage_slice_max u8_layout buf al1 = Ok ((b, rest), al')"
    and s: "s = \<lparr>sd_dest_addr = a, sd_buf = b\<rparr>" and argv: "length argv = 6"
    by (auto simp: sendto_alloc_def stage_elims)
  note r1 = sockaddr_input_stage_ok [OF 1] and r2 = stage_sent_ok [OF 2]
  then show "advances al al' \<and> length argv \<le> 6 \<and> sendto_ok buf (a_ptr al) (a_ptr al') s"
    by (auto simp: sendto_ok_def s argv intro: advances_trans data_ok_mono bytes_ok_mono advances_ptr)
next
  fix lo hi s m
  assume ok: "sendto_ok buf lo hi s" and m: "in_mem m lo (hi - lo)"
  from input_commit_within(2) [OF _ m, of "sd_dest_addr s"] ok obtain m1 where
    m1: "input_commit_slice (sd_dest_addr s) m = Some ((), m1)" "unchanged m m1 lo hi"
    by (auto simp: sendto_ok_def)
  have "in_mem m1 lo (hi - lo)"
    using m unchanged_shape [OF m1(2)] by (simp add: in_mem_shape)
  from bytes_commit_ok [OF _ this, of buf "sd_buf s"] ok m1
  show "\<exists>x m'. na_commit (sendto_alloc sockfd buf flags addr) s m = Some (x, m') \<and>
      unchanged m m' lo hi \<and> count_ok (length buf) lo hi x"
    by (auto simp: sendto_alloc_def sendto_commit_def sendto_ok_def cbind_def
        intro: unchanged_trans)
qed (auto simp: sendto_alloc_def)

lemma option_sockopt_ok:
  "option_stage sockopt_input_stage x al = Ok (y, al') \<Longrightarrow>
     option_ok input_ok (a_ptr al) (a_ptr al') y \<and> advances al al'"
  by (erule option_stage_ok) (blast dest: sockopt_input_stage_ok)

interpretation setsockopt: numbered_laws syscall_kind "setsockopt_alloc sockfd level optname optval"
  "option_ok input_ok" no_data for sockfd level optname optval
proof (rule syscall_lawsI)
  fix lo hi s m
  assume ok: "option_ok input_ok lo hi s" and m: "in_mem m lo (hi - lo)"
  have "\<exists>y m'. option_commit input_commit_slice s m = Some (y, m') \<and> unchanged m m' lo hi \<and>
      option_ok no_data lo hi y"
    by (rule option_commit_ok [OF ok]) (use m input_commit_within(2) in fastforce)
  then show "\<exists>x m'. na_commit (setsockopt_alloc sockfd level optname optval) s m = Some (x, m') \<and>
      unchanged m m' lo hi \<and> no_data lo hi x"
    by (auto simp: setsockopt_alloc_def cbind_def)
qed (auto simp: setsockopt_alloc_def stage_elims split_beta Let_def dest: option_sockopt_ok)

text \<open>Calls with structures.\<close>

definition sized_output_ok :: "nat \<Rightarrow> nat \<Rightarrow> output_t \<Rightarrow> bool" where
  "sized_output_ok lo hi x \<longleftrightarrow> out_ref_ok lo hi (o_ref x) \<and> out_count (o_ref x) = 1"

definition sized_input_ok :: "nat \<Rightarrow> nat \<Rightarrow> input_t \<Rightarrow> bool" where
  "sized_input_ok lo hi i \<longleftrightarrow> input_ok lo hi i \<and> in_count (i_ref i) = 1"

definition sized_inout_ok :: "nat \<Rightarrow> nat \<Rightarrow> inout_t \<Rightarrow> bool" where
  "sized_inout_ok lo hi x \<longleftrightarrow> inout_ok lo hi x \<and> in_count (inout_in (io_ref x)) = 1"

lemma struct_layout_simps [simp]:
  "l_size timespec_layout = 16" "l_align timespec_layout = 8"
  "l_size epoll_event_layout = 16" "l_align epoll_event_layout = 8"
  "l_size sigset_layout = 128" "l_align sigset_layout = 8"
  "l_size pollfd_layout = 8" "l_align pollfd_layout = 4"
  by (simp_all add: layouts)

lemma stage_struct_ok:
  "output_stage timespec_layout v al = Ok (x, al') \<Longrightarrow>
     sized_output_ok (a_ptr al) (a_ptr al') x \<and> advances al al'"
  "input_stage timespec_layout (timespec_bytes t) al = Ok (i, al') \<Longrightarrow>
     sized_input_ok (a_ptr al) (a_ptr al') i \<and> advances al al'"
  "inout_stage timespec_layout (timespec_bytes t) al = Ok (y, al') \<Longrightarrow>
     sized_inout_ok (a_ptr al) (a_ptr al') y \<and> advances al al'"
  "input_stage epoll_event_layout (epoll_event_bytes e) al = Ok (i, al') \<Longrightarrow>
     sized_input_ok (a_ptr al) (a_ptr al') i \<and> advances al al'"
  "input_stage sigset_layout (sigset_bytes s) al = Ok (i, al') \<Longrightarrow>
     sized_input_ok (a_ptr al) (a_ptr al') i \<and> advances al al'"
  using stage_sized_ok [of timespec_layout] stage_sized_ok(1) [of epoll_event_layout]
    stage_sized_ok(1) [of sigset_layout]
  by (auto simp: sized_output_ok_def sized_input_ok_def sized_inout_ok_def)

lemma sized_collect_ok:
  "sized_output_ok lo hi x \<Longrightarrow> in_mem m lo (hi - lo) \<Longrightarrow> \<exists>bs. output_collect x m = Ret bs"
  unfolding sized_output_ok_def using output_collect_ok by blast

lemma sized_commit_ok:
  "sized_input_ok lo hi i \<Longrightarrow> in_mem m lo (hi - lo) \<Longrightarrow>
     \<exists>m'. input_commit i m = Some ((), m') \<and> unchanged m m' lo hi"
  unfolding sized_input_ok_def using input_commit_within(1) by blast

lemma sized_inout_commit_ok:
  "sized_inout_ok lo hi y \<Longrightarrow> in_mem m lo (hi - lo) \<Longrightarrow>
     \<exists>x m'. inout_commit y m = Some (x, m') \<and> unchanged m m' lo hi \<and> sized_output_ok lo hi x"
  using inout_commit_ok [of lo hi y m]
  by (auto simp: sized_inout_ok_def sized_output_ok_def output_of_inout_def
      output_new_unchecked_def inout_ok_def) (simp add: out_ref_of_inout_def)

interpretation clock_gettime: numbered_laws syscall_kind "clock_gettime_alloc clockid tp"
  sized_output_ok sized_output_ok for clockid tp
  by (rule syscall_lawsI)
     (auto simp: clock_gettime_alloc_def stage_elims output_commit_def obind_Ret
       dest!: stage_struct_ok(1) dest: sized_collect_ok)

interpretation clock_getres: numbered_laws syscall_kind "clock_getres_alloc clockid res"
  "option_ok sized_output_ok" "option_ok sized_output_ok" for clockid res
proof (rule syscall_lawsI)
  fix al argv s al'
  assume "na_stage (clock_getres_alloc clockid res) al = Ok ((argv, s), al')"
  then show "advances al al' \<and> length argv \<le> 6 \<and>
      option_ok sized_output_ok (a_ptr al) (a_ptr al') s"
    by (cases res) (auto simp: clock_getres_alloc_def stage_elims dest!: stage_struct_ok(1))
next
  fix lo hi s m
  assume "option_ok sized_output_ok lo hi s"
  then show "\<exists>x m'. na_commit (clock_getres_alloc clockid res) s m = Some (x, m') \<and>
      unchanged m m' lo hi \<and> option_ok sized_output_ok lo hi x"
    by (cases s) (auto simp: clock_getres_alloc_def option_commit_def output_commit_def cbind_def)
next
  fix lo hi x m ret
  assume ok: "option_ok sized_output_ok lo hi x" and m: "in_mem m lo (hi - lo)"
  have "\<exists>y. option_collect output_collect x m = Ret y"
    by (rule option_collect_ok [OF ok]) (erule sized_collect_ok [OF _ m])
  then show "\<exists>r. na_collect (clock_getres_alloc clockid res) x ret m = Ret r"
    by (auto simp: clock_getres_alloc_def)
qed

definition nanosleep_ok :: "nat \<Rightarrow> nat \<Rightarrow> staged_nanosleep \<Rightarrow> bool" where
  "nanosleep_ok lo hi s \<longleftrightarrow> sized_input_ok lo hi (ns_req s) \<and> option_ok sized_inout_ok lo hi (ns_rem s)"

lemma sized_ok_mono:
  "sized_input_ok lo hi i \<Longrightarrow> lo' \<le> lo \<Longrightarrow> hi \<le> hi' \<Longrightarrow> sized_input_ok lo' hi' i"
  "sized_inout_ok lo hi y \<Longrightarrow> lo' \<le> lo \<Longrightarrow> hi \<le> hi' \<Longrightarrow> sized_inout_ok lo' hi' y"
  by (auto simp: sized_input_ok_def sized_inout_ok_def intro: data_ok_mono)

interpretation nanosleep: numbered_laws syscall_kind "nanosleep_alloc req rem"
  nanosleep_ok "option_ok sized_output_ok" for req rem
proof (rule syscall_lawsI)
  fix al argv s al'
  assume "na_stage (nanosleep_alloc req rem) al = Ok ((argv, s), al')"
  then show "advances al al' \<and> length argv \<le> 6 \<and> nanosleep_ok (a_ptr al) (a_ptr al') s"
    by (cases rem) (auto simp: nanosleep_alloc_def stage_elims nanosleep_ok_def
        dest!: stage_struct_ok(2,3)
        intro: advances_trans sized_ok_mono(1) sized_ok_mono(2) [OF _ advances_ptr order_refl]
          advances_ptr)
next
  fix lo hi s m
  assume ok: "nanosleep_ok lo hi s" and m: "in_mem m lo (hi - lo)"
  from sized_commit_ok [OF _ m, of "ns_req s"] ok obtain m1 where
    m1: "input_commit (ns_req s) m = Some ((), m1)" "unchanged m m1 lo hi"
    by (auto simp: nanosleep_ok_def)
  have i: "in_mem m1 lo (hi - lo)"
    using m unchanged_shape [OF m1(2)] by (simp add: in_mem_shape)
  have "option_ok sized_inout_ok lo hi (ns_rem s)"
    using ok by (simp add: nanosleep_ok_def)
  then have "\<exists>y m'. option_commit inout_commit (ns_rem s) m1 = Some (y, m') \<and>
      unchanged m1 m' lo hi \<and> option_ok sized_output_ok lo hi y"
    by (rule option_commit_ok) (erule sized_inout_commit_ok [OF _ i])
  with m1 show "\<exists>x m'. na_commit (nanosleep_alloc req rem) s m = Some (x, m') \<and>
      unchanged m m' lo hi \<and> option_ok sized_output_ok lo hi x"
    by (auto simp: nanosleep_alloc_def nanosleep_commit_def cbind_def intro: unchanged_trans)
next
  fix lo hi x m ret
  assume ok: "option_ok sized_output_ok lo hi x" and m: "in_mem m lo (hi - lo)"
  have "\<exists>y. option_collect output_collect x m = Ret y"
    by (rule option_collect_ok [OF ok]) (erule sized_collect_ok [OF _ m])
  then show "\<exists>r. na_collect (nanosleep_alloc req rem) x ret m = Ret r"
    by (auto simp: nanosleep_alloc_def)
qed

interpretation epoll_ctl: numbered_laws syscall_kind "epoll_ctl_alloc epfd op fd event"
  sized_input_ok no_data for epfd op fd event
  by (rule syscall_lawsI)
     (auto simp: epoll_ctl_alloc_def stage_elims dest!: stage_struct_ok(4) dest: sized_commit_ok)

lemma stage_events_ok:
  "output_stage_slice epoll_event_layout (concat (map epoll_event_bytes es)) al = Ok (x, al') \<Longrightarrow>
     events_ok 16 (concat (map epoll_event_bytes es)) (a_ptr al) (a_ptr al') x \<and> advances al al'"
  "inout_stage_slice pollfd_layout (concat (map pollfd_bytes ps)) al = Ok (y, al') \<Longrightarrow>
     events_ok 8 (concat (map pollfd_bytes ps)) (a_ptr al) (a_ptr al') (output_of_inout y) \<and>
     advances al al'"
  using stage_slice_ok(2) [of epoll_event_layout "concat (map epoll_event_bytes es)"]
    stage_slice_ok(3) [of pollfd_layout "concat (map pollfd_bytes ps)"]
  by (auto simp: events_ok_def)
     (auto simp: output_of_inout_def output_new_unchecked_def out_ref_of_inout_def)

lemma events_ok_mono:
  "events_ok sz evs lo hi x \<Longrightarrow> lo' \<le> lo \<Longrightarrow> hi \<le> hi' \<Longrightarrow> events_ok sz evs lo' hi' x"
  by (auto simp: events_ok_def intro: data_ok_mono)

interpretation epoll_wait: numbered_laws syscall_kind "epoll_wait_alloc epfd events timeout"
  "events_ok 16 (concat (map epoll_event_bytes events))"
  "events_ok 16 (concat (map epoll_event_bytes events))" for epfd events timeout
  by (rule syscall_lawsI)
     (auto simp: epoll_wait_alloc_def stage_elims output_commit_def
       dest!: stage_events_ok(1) dest: events_collect_ok)

definition epoll_pwait_ok :: "byte list \<Rightarrow> nat \<Rightarrow> nat \<Rightarrow> staged_epoll_pwait \<Rightarrow> bool" where
  "epoll_pwait_ok evs lo hi s \<longleftrightarrow> events_ok 16 evs lo hi (ep_events s) \<and>
     sized_input_ok lo hi (ep_sigmask s)"

interpretation epoll_pwait: numbered_laws syscall_kind "epoll_pwait_alloc epfd events timeout sigmask"
  "epoll_pwait_ok (concat (map epoll_event_bytes events))"
  "events_ok 16 (concat (map epoll_event_bytes events))" for epfd events timeout sigmask
proof (rule syscall_lawsI)
  fix al argv s al'
  assume "na_stage (epoll_pwait_alloc epfd events timeout sigmask) al = Ok ((argv, s), al')"
  then show "advances al al' \<and> length argv \<le> 6 \<and>
      epoll_pwait_ok (concat (map epoll_event_bytes events)) (a_ptr al) (a_ptr al') s"
    by (auto simp: epoll_pwait_alloc_def stage_elims epoll_pwait_ok_def
        dest!: stage_struct_ok(5) stage_events_ok(1)
        intro: advances_trans sized_ok_mono events_ok_mono advances_ptr)
next
  fix lo hi s m
  assume "epoll_pwait_ok (concat (map epoll_event_bytes events)) lo hi s" "in_mem m lo (hi - lo)"
  then show "\<exists>x m'. na_commit (epoll_pwait_alloc epfd events timeout sigmask) s m = Some (x, m') \<and>
      unchanged m m' lo hi \<and> events_ok 16 (concat (map epoll_event_bytes events)) lo hi x"
    using sized_commit_ok [of lo hi "ep_sigmask s" m]
    by (auto simp: epoll_pwait_alloc_def epoll_pwait_commit_def epoll_pwait_ok_def cbind_def
        output_commit_def)
qed (auto simp: epoll_pwait_alloc_def dest: events_collect_ok)

definition poll_ok :: "byte list \<Rightarrow> nat \<Rightarrow> nat \<Rightarrow> inout_t \<Rightarrow> bool" where
  "poll_ok evs lo hi y \<longleftrightarrow> events_ok 8 evs lo hi (output_of_inout y)"

interpretation poll: numbered_laws syscall_kind "poll_alloc fds timeout"
  "poll_ok (concat (map pollfd_bytes fds))" "events_ok 8 (concat (map pollfd_bytes fds))"
  for fds timeout
proof (rule syscall_lawsI)
  fix lo hi s m
  assume "poll_ok (concat (map pollfd_bytes fds)) lo hi s" "in_mem m lo (hi - lo)"
  then show "\<exists>x m'. na_commit (poll_alloc fds timeout) s m = Some (x, m') \<and>
      unchanged m m' lo hi \<and> events_ok 8 (concat (map pollfd_bytes fds)) lo hi x"
    using inout_commit_slice_ok [of lo hi s m]
    by (auto simp: poll_alloc_def poll_ok_def events_ok_def)
qed (auto simp: poll_alloc_def stage_elims poll_ok_def dest!: stage_events_ok(2)
       dest: events_collect_ok)

text \<open>An optional buffer of \<open>n\<close> bytes.\<close>

definition arg_staged_ok :: "nat \<Rightarrow> nat \<Rightarrow> nat \<Rightarrow> inout_t option \<Rightarrow> bool" where
  "arg_staged_ok n = option_ok (\<lambda>lo hi x. inout_ok lo hi x \<and> length (io_val x) = n)"

definition arg_committed_ok :: "nat \<Rightarrow> nat \<Rightarrow> nat \<Rightarrow> output_t option \<Rightarrow> bool" where
  "arg_committed_ok n = option_ok (\<lambda>lo hi x. output_ok lo hi x \<and> length (o_val x) = n)"

definition arg_len :: "byte list option \<Rightarrow> nat" where
  "arg_len argp = (case argp of None \<Rightarrow> 0 | Some bs \<Rightarrow> length bs)"

lemma arg_collect_ok:
  "arg_committed_ok n lo hi x \<Longrightarrow> in_mem m lo (hi - lo) \<Longrightarrow>
     \<exists>y. option_collect output_collect_slice x m = Ret y \<and> (\<forall>bs. y = Some bs \<longrightarrow> length bs = n)"
  using output_collect_slice_ok [of lo hi _ m]
  by (cases x) (force simp: arg_committed_ok_def option_collect_def)+

lemma o_val_of_inout [simp]: "o_val (output_of_inout x) = io_val x"
  by (simp add: output_of_inout_def output_new_unchecked_def)

interpretation ioctl: numbered_laws syscall_kind "alloc_ioctl fd request argp"
  "arg_staged_ok (arg_len argp)" "arg_committed_ok (arg_len argp)" for fd request argp
proof (rule syscall_lawsI)
  fix al argv s al'
  assume "na_stage (alloc_ioctl fd request argp) al = Ok ((argv, s), al')"
  then show "advances al al' \<and> length argv \<le> 6 \<and> arg_staged_ok (arg_len argp) (a_ptr al) (a_ptr al') s"
    by (cases argp) (auto simp: alloc_ioctl_def stage_elims split_beta Let_def arg_staged_ok_def arg_len_def
        option_stage_def smap_Inr dest: stage_bytes_ok(3))
next
  fix lo hi s m
  assume ok: "arg_staged_ok (arg_len argp) lo hi s" and m: "in_mem m lo (hi - lo)"
  have "\<exists>y m'. option_commit inout_commit_slice s m = Some (y, m') \<and> unchanged m m' lo hi \<and>
      option_ok (\<lambda>lo hi x. output_ok lo hi x \<and> length (o_val x) = arg_len argp) lo hi y"
    by (rule option_commit_ok [OF ok [unfolded arg_staged_ok_def]])
      (use m inout_commit_slice_ok in fastforce)
  then show "\<exists>x m'. na_commit (alloc_ioctl fd request argp) s m = Some (x, m') \<and>
      unchanged m m' lo hi \<and> arg_committed_ok (arg_len argp) lo hi x"
    by (auto simp: alloc_ioctl_def arg_committed_ok_def)
next
  fix lo hi x m ret
  assume "arg_committed_ok (arg_len argp) lo hi x" "in_mem m lo (hi - lo)"
  then show "\<exists>r. na_collect (alloc_ioctl fd request argp) x ret m = Ret r"
    using arg_collect_ok [of "arg_len argp" lo hi x m] by (auto simp: alloc_ioctl_def)
qed

text \<open>The calls that may not need the host.\<close>

interpretation fcntl_call: call_laws "fcntl_call fd cmd arg"
  "maybe_ok (fcntl_stage fd cmd arg) (staged_call_ok (staged_alloc_ok syscall_kind no_data))"
  "maybe_ok (fcntl_stage fd cmd arg) (committed_call_ok (committed_alloc_ok syscall_kind no_data))" for fd cmd arg
  unfolding fcntl_call_def by (rule maybe_alloc_laws) (rule fcntl.num.alloc_call_laws)

interpretation ioctl_call: call_laws "ioctl_call fd request argp"
  "maybe_ok (ioctl_stage fd request argp) (staged_call_ok (staged_alloc_ok syscall_kind (arg_staged_ok (arg_len argp))))"
  "maybe_ok (ioctl_stage fd request argp) (committed_call_ok (committed_alloc_ok syscall_kind (arg_committed_ok (arg_len argp))))"
  for fd request argp
  unfolding ioctl_call_def by (rule maybe_alloc_laws) (rule ioctl.num.alloc_call_laws)

interpretation open_call: call_laws "open_call pathname flags mode"
  "maybe_ok (open_stage pathname flags mode) (staged_call_ok (staged_alloc_ok syscall_kind input_ok))"
  "maybe_ok (open_stage pathname flags mode) (committed_call_ok (committed_alloc_ok syscall_kind no_data))"
  for pathname flags mode
  unfolding open_call_def by (rule maybe_alloc_laws) (rule sys_open.num.alloc_call_laws)

end
