(* ===== verification/Enarx_Gdb_Calls.thy ===== *)
theory Enarx_Gdb_Calls
  imports Syscall_Laws
begin

text \<open>
  Enarx calls and GDB calls (\<^verbatim>\<open>crates/sallyport/src/guest/call/enarxcall/*.rs\<close> and
  \<^verbatim>\<open>gdbcall/*.rs\<close>), each an instance of its trait and an interpretation of
  \<open>numbered_laws\<close>.
\<close>

section \<open>Enarx calls\<close>

type_synonym ('ret, 's, 'c, 'r) enarxcall_alloc = "(usize, 'ret, 's, 'c, 'r) numbered_alloc"

definition enarxcall_passthrough ::
  "enarxcall_number \<Rightarrow> usize list \<Rightarrow> (usize \<Rightarrow> 'ret result) \<Rightarrow>
     ('ret, unit, unit, 'ret result) enarxcall_alloc" where
  "enarxcall_passthrough num argv conv =
     \<lparr>na_num = enarxcall_number_as_usize num, na_stage = sreturn (argv, ()),
      na_commit = (\<lambda>s. creturn s), na_ret = conv, na_collect = (\<lambda>_ ret _. Ret ret)\<rparr>"

definition balloon_memory_alloc ::
  "usize \<Rightarrow> usize \<Rightarrow> usize \<Rightarrow> (usize, unit, unit, usize result) enarxcall_alloc" where
  "balloon_memory_alloc size_exponent pages addr =
     enarxcall_passthrough BalloonMemory [size_exponent, pages, addr] enarx_result_usize"

definition get_sgx_quote_size_alloc :: "(usize, unit, unit, usize result) enarxcall_alloc" where
  "get_sgx_quote_size_alloc = enarxcall_passthrough GetSgxQuoteSize [] enarx_result_usize"

definition mem_info_alloc :: "(usize, unit, unit, usize result) enarxcall_alloc" where
  "mem_info_alloc = enarxcall_passthrough MemInfo [] enarx_result_usize"

definition mmap_host_alloc ::
  "usize \<Rightarrow> usize \<Rightarrow> c_int \<Rightarrow> (unit, unit, unit, unit result) enarxcall_alloc" where
  "mmap_host_alloc addr len prot =
     enarxcall_passthrough MmapHost [addr, len, as_usize prot] enarx_result_unit"

definition mprotect_host_alloc ::
  "usize \<Rightarrow> usize \<Rightarrow> c_int \<Rightarrow> (unit, unit, unit, unit result) enarxcall_alloc" where
  "mprotect_host_alloc addr len prot =
     enarxcall_passthrough MprotectHost [addr, len, as_usize prot] enarx_result_unit"

definition munmap_host_alloc ::
  "usize \<Rightarrow> usize \<Rightarrow> (unit, unit, unit, unit result) enarxcall_alloc" where
  "munmap_host_alloc addr len = enarxcall_passthrough MunmapHost [addr, len] enarx_result_unit"

definition trim_sgx_pages_alloc ::
  "usize \<Rightarrow> usize \<Rightarrow> (unit, unit, unit, unit result) enarxcall_alloc" where
  "trim_sgx_pages_alloc addr len = enarxcall_passthrough TrimSgxPages [addr, len] enarx_result_unit"

record cpuid_result =
  cpuid_eax :: "32 word"
  cpuid_ebx :: "32 word"
  cpuid_ecx :: "32 word"
  cpuid_edx :: "32 word"

definition cpuid_result_bytes :: "cpuid_result \<Rightarrow> byte list" where
  "cpuid_result_bytes r =
     u32_bytes (cpuid_eax r) @ u32_bytes (cpuid_ebx r) @ u32_bytes (cpuid_ecx r) @
     u32_bytes (cpuid_edx r)"

definition cpuid_result_of_bytes :: "byte list \<Rightarrow> cpuid_result" where
  "cpuid_result_of_bytes bs =
     \<lparr>cpuid_eax = u32_of_bytes (take 4 bs), cpuid_ebx = u32_of_bytes (take 4 (drop 4 bs)),
      cpuid_ecx = u32_of_bytes (take 4 (drop 8 bs)), cpuid_edx = u32_of_bytes (take 4 (drop 12 bs))\<rparr>"

definition cpuid_alloc ::
  "32 word \<Rightarrow> 32 word \<Rightarrow> cpuid_result \<Rightarrow>
     (unit, output_t, output_t, unit result \<times> cpuid_result) enarxcall_alloc" where
  "cpuid_alloc leaf sub_leaf res =
     \<lparr>na_num = enarxcall_number_as_usize Cpuid,
      na_stage = sbind (output_stage cpuid_result_layout (cpuid_result_bytes res)) (\<lambda>x.
        sreturn ([ucast leaf, ucast sub_leaf, output_offset x], x)),
      na_commit = output_commit,
      na_ret = enarx_result_unit,
      na_collect = (\<lambda>x ret m.
        if is_ok ret
        then obind (output_collect x m) (\<lambda>bs. Ret (ret, cpuid_result_of_bytes bs))
        else Ret (ret, res))\<rparr>"

text \<open>A fixed-size byte array is given by its elements.\<close>

type_synonym byte_array = "nat \<Rightarrow> byte"

definition array_bytes :: "nat \<Rightarrow> byte_array \<Rightarrow> byte list" where
  "array_bytes n f = map f [0..<n]"

definition sgx_report_size :: nat where
  "sgx_report_size = 512"

record staged_get_sgx_quote =
  gq_report :: input_t
  gq_quote :: output_t

definition get_sgx_quote_commit :: "staged_get_sgx_quote \<Rightarrow> (mem, output_t) committer" where
  "get_sgx_quote_commit s = cbind (input_commit (gq_report s)) (\<lambda>_. output_commit (gq_quote s))"

definition get_sgx_quote_alloc ::
  "byte_array \<Rightarrow> byte list \<Rightarrow>
     (usize, staged_get_sgx_quote, output_t, usize result option \<times> byte list) enarxcall_alloc" where
  "get_sgx_quote_alloc report quote =
     \<lparr>na_num = enarxcall_number_as_usize GetSgxQuote,
      na_stage = sbind (input_stage (array_of sgx_report_size u8_layout)
          (array_bytes sgx_report_size report)) (\<lambda>r.
        sbind (output_stage_slice u8_layout quote) (\<lambda>q.
          sreturn ([input_offset r, output_offset q, output_len q],
                   \<lparr>gq_report = r, gq_quote = q\<rparr>))),
      na_commit = get_sgx_quote_commit,
      na_ret = enarx_result_usize,
      na_collect = collect_counted\<rparr>"

definition get_sgx_target_info_alloc ::
  "byte_array \<Rightarrow> (unit, output_t, output_t, unit result \<times> byte list) enarxcall_alloc" where
  "get_sgx_target_info_alloc info =
     \<lparr>na_num = enarxcall_number_as_usize GetSgxTargetInfo,
      na_stage = sbind (output_stage (array_of 512 u8_layout) (array_bytes 512 info)) (\<lambda>x.
        sreturn ([output_offset x], x)),
      na_commit = output_commit,
      na_ret = enarx_result_unit,
      na_collect = (\<lambda>x ret m.
        if is_ok ret then obind (output_collect x m) (\<lambda>bs. Ret (ret, bs))
        else Ret (ret, o_val x))\<rparr>"

definition get_snp_vcek_alloc ::
  "byte list \<Rightarrow> (usize, output_t, output_t, usize result option \<times> byte list) enarxcall_alloc" where
  "get_snp_vcek_alloc vcek =
     \<lparr>na_num = enarxcall_number_as_usize GetSnpVcek,
      na_stage = sbind (output_stage_slice u8_layout vcek) (\<lambda>x.
        sreturn ([output_offset x, output_len x], x)),
      na_commit = output_commit,
      na_ret = enarx_result_usize,
      na_collect = collect_counted\<rparr>"

section \<open>GDB calls\<close>

type_synonym ('ret, 's, 'c, 'r) gdbcall_alloc = "(usize, 'ret, 's, 'c, 'r) numbered_alloc"

definition gdbcall_passthrough ::
  "gdbcall_number \<Rightarrow> usize list \<Rightarrow> (usize \<Rightarrow> 'ret result) \<Rightarrow>
     ('ret, unit, unit, 'ret result) gdbcall_alloc" where
  "gdbcall_passthrough num argv conv =
     \<lparr>na_num = gdbcall_number_as_usize num, na_stage = sreturn (argv, ()),
      na_commit = (\<lambda>s. creturn s), na_ret = conv, na_collect = (\<lambda>_ ret _. Ret ret)\<rparr>"

definition gdb_flush_alloc :: "(unit, unit, unit, unit result) gdbcall_alloc" where
  "gdb_flush_alloc = gdbcall_passthrough GdbFlush [] gdb_result_unit"

definition gdb_on_session_start_alloc :: "(unit, unit, unit, unit result) gdbcall_alloc" where
  "gdb_on_session_start_alloc = gdbcall_passthrough GdbOnSessionStart [] gdb_result_unit"

definition gdb_peek_alloc :: "(byte option, unit, unit, byte option result) gdbcall_alloc" where
  "gdb_peek_alloc = gdbcall_passthrough GdbPeek [] gdb_result_option_u8"

definition gdb_read_alloc :: "(byte, unit, unit, byte result) gdbcall_alloc" where
  "gdb_read_alloc = gdbcall_passthrough GdbRead [] gdb_result_u8"

definition gdb_write_alloc :: "byte \<Rightarrow> (unit, unit, unit, unit result) gdbcall_alloc" where
  "gdb_write_alloc b = gdbcall_passthrough GdbWrite [ucast b] gdb_result_unit"

definition gdb_bytes_input_commit :: "input_t \<Rightarrow> (mem, nat) committer" where
  "gdb_bytes_input_commit buf =
     (let len = in_count (i_ref buf)
      in cbind (input_commit_slice buf) (\<lambda>_. creturn len))"

definition gdb_write_all_alloc ::
  "byte list \<Rightarrow> (usize, input_t, nat, usize result option) gdbcall_alloc" where
  "gdb_write_all_alloc buf =
     \<lparr>na_num = gdbcall_number_as_usize GdbWriteAll,
      na_stage = sbind (input_stage_slice_max u8_layout buf) (\<lambda>(b, _).
        sreturn ([input_offset b, input_len b], b)),
      na_commit = gdb_bytes_input_commit,
      na_ret = gdb_result_usize,
      na_collect = (\<lambda>count ret _. Ret (check_count count ret))\<rparr>"

section \<open>Contracts\<close>

lemma four_argument_lawsI:
  assumes "\<And>al argv s al'. na_stage a al = Ok ((argv, s), al') \<Longrightarrow>
      advances al al' \<and> length argv \<le> 4 \<and> s_ok (a_ptr al) (a_ptr al') s"
    and "\<And>lo hi s m. s_ok lo hi s \<Longrightarrow> in_mem m lo (hi - lo) \<Longrightarrow>
      \<exists>x m'. na_commit a s m = Some (x, m') \<and> unchanged m m' lo hi \<and> c_ok lo hi x"
    and "\<And>lo hi x m ret. c_ok lo hi x \<Longrightarrow> in_mem m lo (hi - lo) \<Longrightarrow>
      \<exists>r. na_collect a x ret m = Ret r"
  shows "numbered_laws enarxcall_kind a s_ok c_ok" "numbered_laws gdbcall_kind a s_ok c_ok"
  by unfold_locales (use assms in \<open>auto simp: enarxcall_kind_def gdbcall_kind_def\<close>)

lemma enarxcall_passthrough_laws:
  "length argv \<le> 4 \<Longrightarrow>
     numbered_laws enarxcall_kind (enarxcall_passthrough num argv conv) no_data no_data"
  by (rule four_argument_lawsI) (auto simp: enarxcall_passthrough_def)

lemma gdbcall_passthrough_laws:
  "length argv \<le> 4 \<Longrightarrow>
     numbered_laws gdbcall_kind (gdbcall_passthrough num argv conv) no_data no_data"
  by (rule four_argument_lawsI) (auto simp: gdbcall_passthrough_def)

interpretation balloon_memory: numbered_laws enarxcall_kind
  "balloon_memory_alloc size_exponent pages addr" no_data no_data for size_exponent pages addr
  unfolding balloon_memory_alloc_def by (rule enarxcall_passthrough_laws) simp

interpretation get_sgx_quote_size: numbered_laws enarxcall_kind get_sgx_quote_size_alloc no_data no_data
  unfolding get_sgx_quote_size_alloc_def by (rule enarxcall_passthrough_laws) simp

interpretation mem_info: numbered_laws enarxcall_kind mem_info_alloc no_data no_data
  unfolding mem_info_alloc_def by (rule enarxcall_passthrough_laws) simp

interpretation mmap_host: numbered_laws enarxcall_kind "mmap_host_alloc addr len prot" no_data no_data
  for addr len prot
  unfolding mmap_host_alloc_def by (rule enarxcall_passthrough_laws) simp

interpretation mprotect_host: numbered_laws enarxcall_kind "mprotect_host_alloc addr len prot"
  no_data no_data for addr len prot
  unfolding mprotect_host_alloc_def by (rule enarxcall_passthrough_laws) simp

interpretation munmap_host: numbered_laws enarxcall_kind "munmap_host_alloc addr len" no_data no_data
  for addr len
  unfolding munmap_host_alloc_def by (rule enarxcall_passthrough_laws) simp

interpretation trim_sgx_pages: numbered_laws enarxcall_kind "trim_sgx_pages_alloc addr len"
  no_data no_data for addr len
  unfolding trim_sgx_pages_alloc_def by (rule enarxcall_passthrough_laws) simp

lemma cpuid_layout_simps [simp]: "l_align cpuid_result_layout = 4" "l_size cpuid_result_layout = 16"
  by (simp_all add: layouts)

lemma stage_sized_output_ok:
  "output_stage T v al = Ok (x, al') \<Longrightarrow> 0 < l_align T \<Longrightarrow>
     sized_output_ok (a_ptr al) (a_ptr al') x \<and> advances al al'"
  using stage_sized_ok(2) by (auto simp: sized_output_ok_def)

interpretation cpuid: numbered_laws enarxcall_kind "cpuid_alloc leaf sub_leaf res"
  sized_output_ok sized_output_ok for leaf sub_leaf res
  by (rule four_argument_lawsI)
     (auto simp: cpuid_alloc_def stage_elims output_commit_def obind_Ret
       dest!: stage_sized_output_ok dest: sized_collect_ok)

interpretation get_sgx_target_info: numbered_laws enarxcall_kind "get_sgx_target_info_alloc info"
  sized_output_ok sized_output_ok for info
  by (rule four_argument_lawsI)
     (auto simp: get_sgx_target_info_alloc_def stage_elims output_commit_def obind_Ret
       dest!: stage_sized_output_ok dest: sized_collect_ok)

text \<open>A buffer that is staged whole.\<close>

definition whole_buf_ok :: "byte list \<Rightarrow> nat \<Rightarrow> nat \<Rightarrow> output_t \<Rightarrow> bool" where
  "whole_buf_ok buf lo hi x \<longleftrightarrow> buf_ok buf lo hi x \<and> o_val x = buf"

lemma stage_whole_buf_ok:
  "output_stage_slice u8_layout buf al = Ok (x, al') \<Longrightarrow>
     whole_buf_ok buf (a_ptr al) (a_ptr al') x \<and> advances al al'"
  by (auto simp: whole_buf_ok_def buf_ok_def dest: stage_bytes_ok(2))

lemma collect_whole_post:
  assumes "whole_buf_ok buf lo hi x" "in_mem m lo (hi - lo)"
  shows "\<exists>r bs. collect_counted x ret m = Ret (r, bs) \<and> read_post buf r bs"
  using collect_counted_post [of buf lo hi x m ret] assms by (auto simp: whole_buf_ok_def)

lemma collect_counted_ok_pair:
  "whole_buf_ok buf lo hi x \<Longrightarrow> in_mem m lo (hi - lo) \<Longrightarrow>
     \<exists>r bs. collect_counted x ret m = Ret (r, bs)"
  using collect_whole_post by blast

interpretation get_snp_vcek: numbered_laws enarxcall_kind "get_snp_vcek_alloc vcek"
  "whole_buf_ok vcek" "whole_buf_ok vcek" for vcek
  by (rule four_argument_lawsI)
     (auto simp: get_snp_vcek_alloc_def stage_elims output_commit_def
       dest!: stage_whole_buf_ok dest: collect_counted_ok_pair)

definition get_sgx_quote_ok :: "byte list \<Rightarrow> nat \<Rightarrow> nat \<Rightarrow> staged_get_sgx_quote \<Rightarrow> bool" where
  "get_sgx_quote_ok quote lo hi s \<longleftrightarrow>
     sized_input_ok lo hi (gq_report s) \<and> whole_buf_ok quote lo hi (gq_quote s)"

interpretation get_sgx_quote: numbered_laws enarxcall_kind "get_sgx_quote_alloc report quote"
  "get_sgx_quote_ok quote" "whole_buf_ok quote" for report quote
proof (rule four_argument_lawsI)
  fix al argv s al'
  assume "na_stage (get_sgx_quote_alloc report quote) al = Ok ((argv, s), al')"
  then obtain r al1 q where
    1: "input_stage (array_of sgx_report_size u8_layout) (array_bytes sgx_report_size report) al
          = Ok (r, al1)" and
    2: "output_stage_slice u8_layout quote al1 = Ok (q, al')" and
    s: "s = \<lparr>gq_report = r, gq_quote = q\<rparr>" "length argv = 3"
    by (auto simp: get_sgx_quote_alloc_def stage_elims)
  from stage_sized_ok(1) [OF _ 1] have "sized_input_ok (a_ptr al) (a_ptr al1) r" "advances al al1"
    by (auto simp: sized_input_ok_def array_bytes_def)
  moreover from stage_whole_buf_ok [OF 2]
  have "whole_buf_ok quote (a_ptr al1) (a_ptr al') q" "advances al1 al'"
    by auto
  ultimately show "advances al al' \<and> length argv \<le> 4 \<and> get_sgx_quote_ok quote (a_ptr al) (a_ptr al') s"
    by (auto simp: get_sgx_quote_ok_def whole_buf_ok_def buf_ok_def s
        intro: advances_trans sized_ok_mono data_ok_mono(2) [OF _ advances_ptr order_refl]
          advances_ptr)
next
  fix lo hi s m
  assume "get_sgx_quote_ok quote lo hi s" "in_mem m lo (hi - lo)"
  then show "\<exists>x m'. na_commit (get_sgx_quote_alloc report quote) s m = Some (x, m') \<and>
      unchanged m m' lo hi \<and> whole_buf_ok quote lo hi x"
    using sized_commit_ok [of lo hi "gq_report s" m]
    by (auto simp: get_sgx_quote_alloc_def get_sgx_quote_commit_def get_sgx_quote_ok_def cbind_def
        output_commit_def)
qed (auto simp: get_sgx_quote_alloc_def dest: collect_counted_ok_pair)

interpretation gdb_flush: numbered_laws gdbcall_kind gdb_flush_alloc no_data no_data
  unfolding gdb_flush_alloc_def by (rule gdbcall_passthrough_laws) simp

interpretation gdb_on_session_start: numbered_laws gdbcall_kind gdb_on_session_start_alloc
  no_data no_data
  unfolding gdb_on_session_start_alloc_def by (rule gdbcall_passthrough_laws) simp

interpretation gdb_peek: numbered_laws gdbcall_kind gdb_peek_alloc no_data no_data
  unfolding gdb_peek_alloc_def by (rule gdbcall_passthrough_laws) simp

interpretation gdb_read: numbered_laws gdbcall_kind gdb_read_alloc no_data no_data
  unfolding gdb_read_alloc_def by (rule gdbcall_passthrough_laws) simp

interpretation gdb_write: numbered_laws gdbcall_kind "gdb_write_alloc b" no_data no_data for b
  unfolding gdb_write_alloc_def by (rule gdbcall_passthrough_laws) simp

interpretation gdb_write_all: numbered_laws gdbcall_kind "gdb_write_all_alloc buf" "bytes_ok buf"
  "count_ok (length buf)" for buf
proof (rule four_argument_lawsI)
  fix lo hi s m
  assume "bytes_ok buf lo hi s" "in_mem m lo (hi - lo)"
  then show "\<exists>x m'. na_commit (gdb_write_all_alloc buf) s m = Some (x, m') \<and> unchanged m m' lo hi \<and>
      count_ok (length buf) lo hi x"
    using bytes_commit_ok [of buf lo hi s m]
    by (simp add: gdb_write_all_alloc_def gdb_bytes_input_commit_def bytes_input_commit_def)
qed (auto simp: gdb_write_all_alloc_def stage_elims dest!: stage_sent_ok)

end
