(* ===== verification/Stubs.thy ===== *)
theory Stubs
  imports Syscalls
begin

text \<open>
  The system calls the guest answers by itself
  (\<^verbatim>\<open>crates/sallyport/src/guest/call/syscall/stub.rs\<close>). They are functions of their
  arguments; a parameter taken by \<^verbatim>\<open>&mut\<close> is returned with its final value.

  \<^verbatim>\<open>getrandom\<close> polls the \<^verbatim>\<open>rdrand\<close> instruction, which may fail. The instruction is a
  parameter (what its \<open>t\<close>-th execution delivers), and the loop around it, which need not end,
  is a partial function; that it ends when the instruction keeps delivering is a theorem.
\<close>

unbundle bit_operations_syntax

section \<open>Constant answers\<close>

definition FAKE_GID :: "32 word" where "FAKE_GID = 1000"
definition FAKE_PID :: c_int where "FAKE_PID = 1000"
definition FAKE_TID :: c_int where "FAKE_TID = 1"
definition FAKE_UID :: "32 word" where "FAKE_UID = 1000"

definition getegid_collect :: "32 word" where "getegid_collect = FAKE_GID"
definition geteuid_collect :: "32 word" where "geteuid_collect = FAKE_UID"
definition getgid_collect :: "32 word" where "getgid_collect = FAKE_GID"
definition getpid_collect :: c_int where "getpid_collect = FAKE_PID"
definition getuid_collect :: "32 word" where "getuid_collect = FAKE_UID"
definition set_tid_address_collect :: "c_int \<Rightarrow> c_int" where "set_tid_address_collect tidptr = FAKE_TID"

definition rt_sigprocmask_collect ::
  "c_int \<Rightarrow> sigset option \<Rightarrow> sigset option \<Rightarrow> usize \<Rightarrow> unit result \<times> sigset option" where
  "rt_sigprocmask_collect how newset oldset sigsetsize = (Ok (), oldset)"

record stack_t =
  ss_sp :: usize
  ss_flags :: c_int
  ss_size :: usize

definition sigaltstack_collect ::
  "stack_t option \<Rightarrow> stack_t option \<Rightarrow> unit result \<times> stack_t option" where
  "sigaltstack_collect ss old_ss = (Ok (), old_ss)"

section \<open>fstat\<close>

record stat =
  st_dev :: "64 word"
  st_ino :: "64 word"
  st_nlink :: "64 word"
  st_mode :: "32 word"
  st_uid :: "32 word"
  st_gid :: "32 word"
  st_rdev :: "64 word"
  st_size :: "64 word"
  st_blksize :: "64 word"
  st_blocks :: "64 word"
  st_atime :: "64 word"
  st_atime_nsec :: "64 word"
  st_mtime :: "64 word"
  st_mtime_nsec :: "64 word"
  st_ctime :: "64 word"
  st_ctime_nsec :: "64 word"

definition makedev :: "64 word \<Rightarrow> 64 word \<Rightarrow> 64 word" where
  "makedev x y =
     push_bit 32 (x AND 0xfffff000) OR push_bit 8 (x AND 0x00000fff) OR
     push_bit 12 (y AND 0xffffff00) OR (y AND 0x000000ff)"

definition fstat_collect :: "c_int \<Rightarrow> stat \<Rightarrow> unit result \<times> stat" where
  "fstat_collect fd statbuf =
     (if fd = STDIN_FILENO \<or> fd = STDOUT_FILENO \<or> fd = STDERR_FILENO
      then (Ok (),
        \<lparr>st_dev = makedev 0 (if fd = 0 then 0x19 else 0xc),
         st_ino = 3, st_nlink = 1, st_mode = S_IFIFO OR 0x180, st_uid = 1000, st_gid = 5,
         st_rdev = makedev 0x88 0, st_size = 0, st_blksize = 4096, st_blocks = 0,
         st_atime = 1579507218, st_atime_nsec = 0, st_mtime = 1579507218, st_mtime_nsec = 0,
         st_ctime = 1579507218, st_ctime_nsec = 0\<rparr>)
      else (Err EBADFD, statbuf))"

section \<open>readlink and uname\<close>

definition readlink_collect :: "byte list \<Rightarrow> byte list \<Rightarrow> usize result option \<times> byte list" where
  "readlink_collect pathname buf =
     (if pathname = bytes_of_string ''/proc/self/exe'' @ [0]
      then let DEST = bytes_of_string ''/init'' @ [0]
           in if length buf < length DEST then (Some (Err EINVAL), buf)
              else (Some (Ok (to_usize (length DEST))), splice 0 DEST buf)
      else (Some (Err ENOENT), buf))"

record utsname =
  un_sysname :: "byte list"
  un_nodename :: "byte list"
  un_release :: "byte list"
  un_version :: "byte list"
  un_machine :: "byte list"
  un_domainname :: "byte list"

definition uname_fill :: "string \<Rightarrow> byte list" where
  "uname_fill s =
     (let src = bytes_of_string s
      in map (\<lambda>i. if i < length src then src ! i else 0) [0..<65])"

definition uname_collect :: "utsname \<Rightarrow> unit result \<times> utsname" where
  "uname_collect buf =
     (Ok (), buf\<lparr>un_sysname := uname_fill ''Linux'',
                un_nodename := uname_fill ''localhost.localdomain'',
                un_release := uname_fill ''5.6.0'',
                un_version := uname_fill ''#1'',
                un_machine := uname_fill ''x86_64''\<rparr>)"

section \<open>getrandom\<close>

text \<open>\<open>rdrand t\<close>: what execution \<open>t\<close> of the instruction delivers, \<open>None\<close> when it
  fails. \<open>Inl\<close> is a random word, \<open>Inr\<close> an early return from \<^verbatim>\<open>getrandom\<close>.\<close>

type_synonym rdrand = "nat \<Rightarrow> 64 word option"

partial_function (option) rdrand_loop ::
  "rdrand \<Rightarrow> c_int \<Rightarrow> nat \<Rightarrow> nat \<Rightarrow> ((64 word + usize result) \<times> nat) option" where
  [code]: "rdrand_loop rdrand flags i t =
     (case rdrand t of
        Some el \<Rightarrow> Some (Inl el, Suc t)
      | None \<Rightarrow>
        if flags AND GRND_NONBLOCK \<noteq> 0 then Some (Inr (Err EAGAIN), Suc t)
        else if flags AND GRND_RANDOM \<noteq> 0 then Some (Inr (Ok (to_usize (i * 8))), Suc t)
        else rdrand_loop rdrand flags i (Suc t))"

function chunks8 :: "'a list \<Rightarrow> 'a list list" where
  "chunks8 xs = (if xs = [] then [] else take 8 xs # chunks8 (drop 8 xs))"
  by pat_completeness auto
termination
  by (relation "measure length") auto

declare chunks8.simps [simp del]

text \<open>The loop over the chunks: the early return value, if any, and the buffer.\<close>

fun getrandom_chunks ::
  "rdrand \<Rightarrow> c_int \<Rightarrow> nat \<Rightarrow> nat \<Rightarrow> byte list list \<Rightarrow> (usize result option \<times> byte list \<times> nat) option" where
  "getrandom_chunks rdrand flags i t [] = Some (None, [], t)"
| "getrandom_chunks rdrand flags i t (chunk # chunks) =
     (case rdrand_loop rdrand flags i t of
        None \<Rightarrow> None
      | Some (Inl el, t') \<Rightarrow>
          map_option (\<lambda>(r, bs, t''). (r, take (length chunk) (usize_bytes el) @ bs, t''))
            (getrandom_chunks rdrand flags (Suc i) t' chunks)
      | Some (Inr r, t') \<Rightarrow> Some (Some r, chunk @ concat chunks, t'))"

definition getrandom_collect ::
  "rdrand \<Rightarrow> nat \<Rightarrow> byte list \<Rightarrow> c_int \<Rightarrow> (usize result \<times> byte list \<times> nat) option" where
  "getrandom_collect rdrand t buf flags =
     (if flags AND NOT (GRND_NONBLOCK OR GRND_RANDOM) \<noteq> 0 then Some (Err EINVAL, buf, t)
      else case getrandom_chunks rdrand flags 0 t (chunks8 buf) of
             None \<Rightarrow> None
           | Some (Some r, bs, t') \<Rightarrow> Some (r, bs, t')
           | Some (None, bs, t') \<Rightarrow> Some (Ok (to_usize (length buf)), bs, t'))"

section \<open>Facts\<close>

lemma concat_chunks8 [simp]: "concat (chunks8 xs) = xs"
proof (induction xs rule: chunks8.induct)
  case (1 xs)
  then show ?case by (subst chunks8.simps) simp
qed

lemma chunks8_short: "c \<in> set (chunks8 xs) \<Longrightarrow> length c \<le> 8"
proof (induction xs rule: chunks8.induct)
  case (1 xs)
  then show ?case by (subst (asm) (2) chunks8.simps) (auto split: if_splits)
qed

lemma rdrand_loop_ends:
  assumes "rdrand t' \<noteq> None" "t \<le> t'"
  shows "\<exists>r u. rdrand_loop rdrand flags i t = Some (r, u) \<and> u \<le> Suc t' \<and> t < u"
  using assms(2)
proof (induction t rule: inc_induct)
  case base
  with assms(1) show ?case by (subst rdrand_loop.simps) auto
next
  case (step n)
  then show ?case
    by (subst rdrand_loop.simps) (auto split: option.splits)
qed

lemma rdrand_loop_blocking:
  assumes "flags AND GRND_NONBLOCK = 0" "flags AND GRND_RANDOM = 0"
    and "rdrand_loop rdrand flags i t = Some (r, u)"
  shows "\<exists>el. r = Inl el"
proof -
  have "flags AND GRND_NONBLOCK = 0 \<longrightarrow> flags AND GRND_RANDOM = 0 \<longrightarrow> (\<exists>el. fst (r, u) = Inl el)"
    using assms(3)
    by (rule rdrand_loop.raw_induct [rotated, where P = "\<lambda>rd flags i t x. flags AND GRND_NONBLOCK = 0 \<longrightarrow>
          flags AND GRND_RANDOM = 0 \<longrightarrow> (\<exists>el. fst x = Inl el)"])
       (auto split: option.splits)
  with assms show ?thesis by simp
qed

lemma getrandom_chunks_length:
  "getrandom_chunks rdrand flags i t chunks = Some (r, bs, u) \<Longrightarrow> \<forall>c \<in> set chunks. length c \<le> 8 \<Longrightarrow>
     length bs = length (concat chunks)"
  by (induction rdrand flags i t chunks arbitrary: r bs u rule: getrandom_chunks.induct)
     (fastforce split: option.splits prod.splits sum.splits)+

lemma getrandom_chunks_ends:
  assumes "\<And>t. \<exists>t' \<ge> t. rdrand t' \<noteq> None"
  shows "\<exists>x. getrandom_chunks rdrand flags i t chunks = Some x"
proof (induction chunks arbitrary: i t)
  case (Cons c cs)
  obtain t' where "rdrand t' \<noteq> None" "t \<le> t'"
    using assms by blast
  from rdrand_loop_ends [of rdrand, OF this] obtain r u where "rdrand_loop rdrand flags i t = Some (r, u)"
    by blast
  with Cons.IH [of "Suc i" u] show ?case
    by (cases r) auto
qed simp

lemma getrandom_chunks_blocking:
  assumes "flags AND GRND_NONBLOCK = 0" "flags AND GRND_RANDOM = 0"
  shows "getrandom_chunks rdrand flags i t chunks = Some (r, bs, u) \<Longrightarrow> r = None"
proof (induction chunks arbitrary: i t bs)
  case (Cons c cs)
  from Cons.prems obtain x v where x: "rdrand_loop rdrand flags i t = Some (x, v)"
    by (auto split: option.splits)
  with rdrand_loop_blocking [OF assms] obtain el where "x = Inl el"
    by blast
  with Cons x show ?case by auto
qed simp

section \<open>Properties\<close>



text \<open>\<^verbatim>\<open>fstat\<close> answers for the three standard streams only, describing each as a pipe of
  user 1000, and leaves the buffer alone for any other descriptor.\<close>

lemma fstat_standard_streams:
  "fstat_collect fd buf =
     (if unat fd \<le> 2 then (Ok (), snd (fstat_collect fd buf)) else (Err EBADFD, buf)) \<and>
   (unat fd \<le> 2 \<longrightarrow> st_mode (snd (fstat_collect fd buf)) = 0x1180 \<and>
      st_uid (snd (fstat_collect fd buf)) = 1000 \<and> st_rdev (snd (fstat_collect fd buf)) = 0x8800)"
proof -
  have "unat fd \<le> 2 \<longleftrightarrow> fd = STDIN_FILENO \<or> fd = STDOUT_FILENO \<or> fd = STDERR_FILENO"
  proof -
    have "unat fd \<le> 2 \<longleftrightarrow> unat fd = unat (0 :: c_int) \<or> unat fd = unat (1 :: c_int) \<or>
        unat fd = unat (2 :: c_int)" by simp linarith
    also have "\<dots> \<longleftrightarrow> fd = 0 \<or> fd = 1 \<or> fd = 2"
      by (simp only: word_unat_eq_iff)
    finally show ?thesis by (simp add: libc_consts)
  qed
  then show ?thesis
    by (auto simp: fstat_collect_def libc_consts makedev_def)
qed

end
