(* ===== verification/Handler.thy ===== *)
theory Handler
  imports Enarx_Gdb_Calls Stubs
begin

text \<open>
  The guest's request handler (\<^verbatim>\<open>crates/sallyport/src/guest/handler.rs\<close> and
  \<^verbatim>\<open>guest/tls.rs\<close>): \<^verbatim>\<open>execute\<close>, \<^verbatim>\<open>attacked\<close> and the method per system
  call, Enarx call and GDB call that the shims use.

  A handler owns a block of words at an address, the thread-local storage and a world. The
  host is a parameter: when the guest calls \<^verbatim>\<open>sally\<close> it sees the words of the block and
  decides what every one of them becomes, whether the call reports an error, and the next world.
  Nothing is assumed of it; every theorem about \<^verbatim>\<open>execute\<close> holds for a host that lies.

  Outcomes: \<open>Ret\<close> is an ordinary return, \<open>Attacked\<close> a call of \<^verbatim>\<open>attacked()\<close>, which
  does not return (\<open>attacked_diverges\<close>); \<open>Panic\<close> and \<open>UB\<close> do not occur
  (\<open>execute_returns\<close>), except for the signal number that \<^verbatim>\<open>rt_sigaction\<close> does not
  check.
\<close>

section \<open>State\<close>

definition SIGRTMAX :: c_int where
  "SIGRTMAX = 64"

type_synonym sigaction = "64 word list"

definition thread_local_storage_new :: "sigaction option list" where
  "thread_local_storage_new = replicate (unat SIGRTMAX) None"

record 'w handler =
  h_addr :: nat
  h_block :: "usize list"
  h_actions :: "sigaction option list"
  h_world :: 'w

text \<open>What the host does with a block: the result of the \<^verbatim>\<open>sally\<close> call, the new value of
  each word, and its own next state.\<close>

type_synonym 'w host = "'w \<Rightarrow> usize list \<Rightarrow> unit result \<times> (nat \<Rightarrow> usize) \<times> 'w"

definition sally :: "'w host \<Rightarrow> 'w handler \<Rightarrow> unit result \<times> 'w handler" where
  "sally host h =
     (let (r, f, w) = host (h_world h) (h_block h)
      in (r, h\<lparr>h_block := map f [0..<length (h_block h)], h_world := w\<rparr>))"

text \<open>The block as memory, and a handler whose block has been written to.\<close>

definition block_mem :: "'w handler \<Rightarrow> mem" where
  "block_mem h = \<lparr>mem_base = h_addr h, mem_data = bytes_of_words (h_block h)\<rparr>"

definition with_mem :: "'w handler \<Rightarrow> mem \<Rightarrow> 'w handler" where
  "with_mem h m = h\<lparr>h_block := words_of_bytes (mem_data m)\<rparr>"

section \<open>Executing a call\<close>

definition end_header :: "byte list" where
  "end_header = header_bytes \<lparr>h_size = 0, h_kind = End\<rparr>"

definition execute :: "'w host \<Rightarrow> 'w handler \<Rightarrow> ('s, 'c, 'r) call \<Rightarrow> ('r result \<times> 'w handler) outcome" where
  "execute host h c =
     (case reserve_input header_layout (alloc_section (c_stage c))
             (alloc_stage (alloc_new (h_addr h) (length (h_block h)))) of
        Inl e \<Rightarrow> Ret (Err e, h)
      | Inr (((staged, len), end_ref), alloc) \<Rightarrow>
        let alloc = alloc_commit alloc
        in obind (or_ub (c_commit c staged (block_mem h))) (\<lambda>(committed, m).
           if 0 < len
           then obind (or_ub (in_ref_copy_from end_ref end_header m)) (\<lambda>(_, m).
                let (r, h) = sally host (with_mem h m)
                in case r of
                     Inl e \<Rightarrow> Ret (Err e, h)
                   | Inr _ \<Rightarrow>
                     (case alloc_sally alloc (h_addr h) (length (h_block h)) of
                        Inl e \<Rightarrow> Ret (Err e, h)
                      | Inr _ \<Rightarrow> obind (c_collect c committed (block_mem h)) (\<lambda>x. Ret (Ok x, h))))
           else obind (c_collect c committed m) (\<lambda>x. Ret (Ok x, with_mem h m))))"

text \<open>How the methods use it. \<open>exec\<close> is \<^verbatim>\<open>execute(..)?\<close> for a call that collects a
  \<^verbatim>\<open>Result\<close>, \<open>exec_checked\<close> is \<^verbatim>\<open>execute(..)?.unwrap_or_else(|| self.attacked())\<close>.
  The \<open>_buf\<close> variants carry the buffers of the caller, which keep their value when the call
  fails before it is collected.\<close>

definition exec ::
  "'w host \<Rightarrow> 'w handler \<Rightarrow> ('s, 'c, 'r result) call \<Rightarrow> ('r result \<times> 'w handler) outcome" where
  "exec host h c = obind (execute host h c) (\<lambda>(r, h). Ret (rbind r (\<lambda>x. x), h))"

definition exec_buf ::
  "'w host \<Rightarrow> 'w handler \<Rightarrow> ('s, 'c, 'r result \<times> 'b) call \<Rightarrow> 'b \<Rightarrow>
     ('r result \<times> 'b \<times> 'w handler) outcome" where
  "exec_buf host h c b =
     obind (execute host h c) (\<lambda>(r, h). case r of
         Inl e \<Rightarrow> Ret (Err e, b, h)
       | Inr (res, b') \<Rightarrow> Ret (res, b', h))"

definition exec_checked ::
  "'w host \<Rightarrow> 'w handler \<Rightarrow> ('s, 'c, 'r result option) call \<Rightarrow> ('r result \<times> 'w handler) outcome" where
  "exec_checked host h c =
     obind (execute host h c) (\<lambda>(r, h). case r of
         Inl e \<Rightarrow> Ret (Err e, h)
       | Inr None \<Rightarrow> Attacked
       | Inr (Some res) \<Rightarrow> Ret (res, h))"

definition exec_checked_buf ::
  "'w host \<Rightarrow> 'w handler \<Rightarrow> ('s, 'c, 'r result option \<times> 'b) call \<Rightarrow> 'b \<Rightarrow>
     ('r result \<times> 'b \<times> 'w handler) outcome" where
  "exec_checked_buf host h c b =
     obind (execute host h c) (\<lambda>(r, h). case r of
         Inl e \<Rightarrow> Ret (Err e, b, h)
       | Inr (None, b') \<Rightarrow> Attacked
       | Inr (Some res, b') \<Rightarrow> Ret (res, b', h))"

abbreviation syscall_call where
  "syscall_call a \<equiv> item_call syscall_kind a"

abbreviation enarx_call where
  "enarx_call a \<equiv> item_call enarxcall_kind a"

abbreviation gdb_call where
  "gdb_call a \<equiv> item_call gdbcall_kind a"

text \<open>\<^verbatim>\<open>exit\<close> returns only an error; when the host claims that the process has exited and
  control still comes back, the guest is being attacked. \<^verbatim>\<open>attacked\<close> loops over
  \<^verbatim>\<open>exit(1)\<close>, which calls it again: both keep executing the exit call, here one loop. The
  value \<open>None\<close> is not returning.\<close>

definition handler_exit :: "'w host \<Rightarrow> 'w handler \<Rightarrow> c_int \<Rightarrow> (unit result \<times> 'w handler) outcome" where
  "handler_exit host h status =
     obind (exec host h (syscall_call (exit_alloc status))) (\<lambda>(r, h). case r of
         Inl e \<Rightarrow> Ret (Err e, h)
       | Inr _ \<Rightarrow> Attacked)"

definition handler_exit_group :: "'w host \<Rightarrow> 'w handler \<Rightarrow> c_int \<Rightarrow> (unit result \<times> 'w handler) outcome" where
  "handler_exit_group host h status =
     obind (exec host h (syscall_call (exit_group_alloc status))) (\<lambda>(r, h). case r of
         Inl e \<Rightarrow> Ret (Err e, h)
       | Inr _ \<Rightarrow> Attacked)"

partial_function (option) attacked :: "'w host \<Rightarrow> 'w handler \<Rightarrow> unit outcome option" where
  "attacked host h =
     (case exec host h (syscall_call (exit_alloc 1)) of
        Ret (_, h') \<Rightarrow> attacked host h'
      | Panic \<Rightarrow> Some Panic
      | UB \<Rightarrow> Some UB
      | Attacked \<Rightarrow> attacked host h)"

section \<open>System calls\<close>

definition handler_accept ::
  "'w host \<Rightarrow> 'w handler \<Rightarrow> c_int \<Rightarrow> sockaddr_output option \<Rightarrow> (c_int result \<times> sockaddr_output option \<times> 'w handler) outcome" where
  "handler_accept host h sockfd addr =
     exec_buf host h (syscall_call (accept_alloc sockfd addr)) addr"

definition handler_accept4 ::
  "'w host \<Rightarrow> 'w handler \<Rightarrow> c_int \<Rightarrow> sockaddr_output option \<Rightarrow> c_int \<Rightarrow> (c_int result \<times> sockaddr_output option \<times> 'w handler) outcome" where
  "handler_accept4 host h sockfd addr flags =
     exec_buf host h (syscall_call (accept4_alloc sockfd addr flags)) addr"

definition handler_bind ::
  "'w host \<Rightarrow> 'w handler \<Rightarrow> c_int \<Rightarrow> byte list \<Rightarrow> (unit result \<times> 'w handler) outcome" where
  "handler_bind host h sockfd addr =
     exec host h (syscall_call (bind_alloc sockfd addr))"

definition handler_clock_getres ::
  "'w host \<Rightarrow> 'w handler \<Rightarrow> c_int \<Rightarrow> timespec option \<Rightarrow> (unit result \<times> timespec option \<times> 'w handler) outcome" where
  "handler_clock_getres host h clockid res =
     exec_buf host h (syscall_call (clock_getres_alloc clockid res)) res"

definition handler_clock_gettime ::
  "'w host \<Rightarrow> 'w handler \<Rightarrow> c_int \<Rightarrow> timespec \<Rightarrow> (unit result \<times> timespec \<times> 'w handler) outcome" where
  "handler_clock_gettime host h clockid tp =
     exec_buf host h (syscall_call (clock_gettime_alloc clockid tp)) tp"

definition handler_close ::
  "'w host \<Rightarrow> 'w handler \<Rightarrow> c_int \<Rightarrow> (unit result \<times> 'w handler) outcome" where
  "handler_close host h fd =
     exec host h (syscall_call (close_alloc fd))"

definition handler_connect ::
  "'w host \<Rightarrow> 'w handler \<Rightarrow> c_int \<Rightarrow> byte list \<Rightarrow> (unit result \<times> 'w handler) outcome" where
  "handler_connect host h sockfd addr =
     exec host h (syscall_call (connect_alloc sockfd addr))"

definition handler_dup ::
  "'w host \<Rightarrow> 'w handler \<Rightarrow> c_int \<Rightarrow> (unit result \<times> 'w handler) outcome" where
  "handler_dup host h oldfd =
     exec host h (syscall_call (dup_alloc oldfd))"

definition handler_dup2 ::
  "'w host \<Rightarrow> 'w handler \<Rightarrow> c_int \<Rightarrow> c_int \<Rightarrow> (unit result \<times> 'w handler) outcome" where
  "handler_dup2 host h oldfd newfd =
     exec host h (syscall_call (dup2_alloc oldfd newfd))"

definition handler_dup3 ::
  "'w host \<Rightarrow> 'w handler \<Rightarrow> c_int \<Rightarrow> c_int \<Rightarrow> c_int \<Rightarrow> (unit result \<times> 'w handler) outcome" where
  "handler_dup3 host h oldfd newfd flags =
     exec host h (syscall_call (dup3_alloc oldfd newfd flags))"

definition handler_epoll_create1 ::
  "'w host \<Rightarrow> 'w handler \<Rightarrow> c_int \<Rightarrow> (c_int result \<times> 'w handler) outcome" where
  "handler_epoll_create1 host h flags =
     exec host h (syscall_call (epoll_create1_alloc flags))"

definition handler_epoll_ctl ::
  "'w host \<Rightarrow> 'w handler \<Rightarrow> c_int \<Rightarrow> c_int \<Rightarrow> c_int \<Rightarrow> epoll_event \<Rightarrow> (unit result \<times> 'w handler) outcome" where
  "handler_epoll_ctl host h epfd op fd event =
     exec host h (syscall_call (epoll_ctl_alloc epfd op fd event))"

definition handler_epoll_wait ::
  "'w host \<Rightarrow> 'w handler \<Rightarrow> c_int \<Rightarrow> epoll_event list \<Rightarrow> c_int \<Rightarrow> (c_int result \<times> byte list \<times> 'w handler) outcome" where
  "handler_epoll_wait host h epfd events timeout =
     exec_checked_buf host h (syscall_call (epoll_wait_alloc epfd events timeout))
       (concat (map epoll_event_bytes events))"

definition handler_epoll_pwait ::
  "'w host \<Rightarrow> 'w handler \<Rightarrow> c_int \<Rightarrow> epoll_event list \<Rightarrow> c_int \<Rightarrow> sigset \<Rightarrow> (c_int result \<times> byte list \<times> 'w handler) outcome" where
  "handler_epoll_pwait host h epfd events timeout sigmask =
     exec_checked_buf host h (syscall_call (epoll_pwait_alloc epfd events timeout sigmask))
       (concat (map epoll_event_bytes events))"

definition handler_eventfd2 ::
  "'w host \<Rightarrow> 'w handler \<Rightarrow> c_int \<Rightarrow> c_int \<Rightarrow> (c_int result \<times> 'w handler) outcome" where
  "handler_eventfd2 host h initval flags =
     exec host h (syscall_call (eventfd2_alloc initval flags))"

definition handler_fcntl ::
  "'w host \<Rightarrow> 'w handler \<Rightarrow> c_int \<Rightarrow> c_int \<Rightarrow> c_int \<Rightarrow> (c_int result \<times> 'w handler) outcome" where
  "handler_fcntl host h fd cmd arg =
     exec host h (fcntl_call fd cmd arg)"

definition handler_fstat ::
  "'w host \<Rightarrow> 'w handler \<Rightarrow> c_int \<Rightarrow> stat \<Rightarrow> (unit result \<times> stat \<times> 'w handler) outcome" where
  "handler_fstat host h fd statbuf =
     exec_buf host h (stub_call (fstat_collect fd statbuf)) statbuf"

definition handler_getegid ::
  "'w host \<Rightarrow> 'w handler \<Rightarrow> ((32 word) result \<times> 'w handler) outcome" where
  "handler_getegid host h =
     execute host h (stub_call getegid_collect)"

definition handler_geteuid ::
  "'w host \<Rightarrow> 'w handler \<Rightarrow> ((32 word) result \<times> 'w handler) outcome" where
  "handler_geteuid host h =
     execute host h (stub_call geteuid_collect)"

definition handler_getgid ::
  "'w host \<Rightarrow> 'w handler \<Rightarrow> ((32 word) result \<times> 'w handler) outcome" where
  "handler_getgid host h =
     execute host h (stub_call getgid_collect)"

definition handler_getpid ::
  "'w host \<Rightarrow> 'w handler \<Rightarrow> (c_int result \<times> 'w handler) outcome" where
  "handler_getpid host h =
     execute host h (stub_call getpid_collect)"

definition handler_getsockname ::
  "'w host \<Rightarrow> 'w handler \<Rightarrow> c_int \<Rightarrow> sockaddr_output \<Rightarrow> (unit result \<times> sockaddr_output \<times> 'w handler) outcome" where
  "handler_getsockname host h sockfd addr =
     exec_buf host h (syscall_call (getsockname_alloc sockfd addr)) addr"

definition handler_getuid ::
  "'w host \<Rightarrow> 'w handler \<Rightarrow> ((32 word) result \<times> 'w handler) outcome" where
  "handler_getuid host h =
     execute host h (stub_call getuid_collect)"

definition handler_ioctl ::
  "'w host \<Rightarrow> 'w handler \<Rightarrow> c_int \<Rightarrow> c_int \<Rightarrow> byte list option \<Rightarrow> (c_int result \<times> byte list option \<times> 'w handler) outcome" where
  "handler_ioctl host h fd request argp =
     exec_buf host h (ioctl_call fd request argp) argp"

definition handler_listen ::
  "'w host \<Rightarrow> 'w handler \<Rightarrow> c_int \<Rightarrow> c_int \<Rightarrow> (unit result \<times> 'w handler) outcome" where
  "handler_listen host h sockfd backlog =
     exec host h (syscall_call (listen_alloc sockfd backlog))"

definition handler_nanosleep ::
  "'w host \<Rightarrow> 'w handler \<Rightarrow> timespec \<Rightarrow> timespec option \<Rightarrow> (unit result \<times> timespec option \<times> 'w handler) outcome" where
  "handler_nanosleep host h req rem =
     exec_buf host h (syscall_call (nanosleep_alloc req rem)) rem"

definition handler_open ::
  "'w host \<Rightarrow> 'w handler \<Rightarrow> byte list \<Rightarrow> c_int \<Rightarrow> 32 word option \<Rightarrow> (c_int result \<times> 'w handler) outcome" where
  "handler_open host h pathname flags mode =
     exec host h (open_call pathname flags mode)"

definition handler_poll ::
  "'w host \<Rightarrow> 'w handler \<Rightarrow> pollfd list \<Rightarrow> c_int \<Rightarrow> (c_int result \<times> byte list \<times> 'w handler) outcome" where
  "handler_poll host h fds timeout =
     exec_checked_buf host h (syscall_call (poll_alloc fds timeout)) (concat (map pollfd_bytes fds))"

definition handler_read ::
  "'w host \<Rightarrow> 'w handler \<Rightarrow> c_int \<Rightarrow> byte list \<Rightarrow> (usize result \<times> byte list \<times> 'w handler) outcome" where
  "handler_read host h fd buf =
     exec_checked_buf host h (syscall_call (read_alloc fd buf)) buf"

definition handler_readlink ::
  "'w host \<Rightarrow> 'w handler \<Rightarrow> byte list \<Rightarrow> byte list \<Rightarrow> (usize result \<times> byte list \<times> 'w handler) outcome" where
  "handler_readlink host h pathname buf =
     exec_checked_buf host h (stub_call (readlink_collect pathname buf)) buf"

definition handler_readv ::
  "'w host \<Rightarrow> 'w handler \<Rightarrow> c_int \<Rightarrow> byte list list \<Rightarrow> (usize result \<times> byte list list \<times> 'w handler) outcome" where
  "handler_readv host h fd iovs =
     exec_checked_buf host h (syscall_call (readv_alloc fd iovs)) iovs"

definition handler_recv ::
  "'w host \<Rightarrow> 'w handler \<Rightarrow> c_int \<Rightarrow> byte list \<Rightarrow> c_int \<Rightarrow> (usize result \<times> byte list \<times> 'w handler) outcome" where
  "handler_recv host h sockfd buf flags =
     exec_checked_buf host h (syscall_call (recv_alloc sockfd buf flags)) buf"

definition handler_recvfrom ::
  "'w host \<Rightarrow> 'w handler \<Rightarrow> c_int \<Rightarrow> byte list \<Rightarrow> c_int \<Rightarrow> sockaddr_output \<Rightarrow> (usize result \<times> (byte list \<times> sockaddr_output) \<times> 'w handler) outcome" where
  "handler_recvfrom host h sockfd buf flags src_addr =
     exec_checked_buf host h (syscall_call (recvfrom_alloc sockfd buf flags src_addr)) (buf, src_addr)"

definition handler_rt_sigprocmask ::
  "'w host \<Rightarrow> 'w handler \<Rightarrow> c_int \<Rightarrow> sigset option \<Rightarrow> sigset option \<Rightarrow> usize \<Rightarrow> (unit result \<times> sigset option \<times> 'w handler) outcome" where
  "handler_rt_sigprocmask host h how newset oldset sigsetsize =
     exec_buf host h (stub_call (rt_sigprocmask_collect how newset oldset sigsetsize)) oldset"

definition handler_send ::
  "'w host \<Rightarrow> 'w handler \<Rightarrow> c_int \<Rightarrow> byte list \<Rightarrow> c_int \<Rightarrow> (usize result \<times> 'w handler) outcome" where
  "handler_send host h sockfd buf flags =
     exec_checked host h (syscall_call (send_alloc sockfd buf flags))"

definition handler_sendto ::
  "'w host \<Rightarrow> 'w handler \<Rightarrow> c_int \<Rightarrow> byte list \<Rightarrow> c_int \<Rightarrow> byte list \<Rightarrow> (usize result \<times> 'w handler) outcome" where
  "handler_sendto host h sockfd buf flags dest_addr =
     exec_checked host h (syscall_call (sendto_alloc sockfd buf flags dest_addr))"

definition handler_setsockopt ::
  "'w host \<Rightarrow> 'w handler \<Rightarrow> c_int \<Rightarrow> c_int \<Rightarrow> c_int \<Rightarrow> byte list option \<Rightarrow> (c_int result \<times> 'w handler) outcome" where
  "handler_setsockopt host h sockfd level optname optval =
     exec host h (syscall_call (setsockopt_alloc sockfd level optname optval))"

definition handler_set_tid_address ::
  "'w host \<Rightarrow> 'w handler \<Rightarrow> c_int \<Rightarrow> (c_int result \<times> 'w handler) outcome" where
  "handler_set_tid_address host h tidptr =
     execute host h (stub_call (set_tid_address_collect tidptr))"

definition handler_sigaltstack ::
  "'w host \<Rightarrow> 'w handler \<Rightarrow> stack_t option \<Rightarrow> stack_t option \<Rightarrow> (unit result \<times> stack_t option \<times> 'w handler) outcome" where
  "handler_sigaltstack host h ss old_ss =
     exec_buf host h (stub_call (sigaltstack_collect ss old_ss)) old_ss"

definition handler_socket ::
  "'w host \<Rightarrow> 'w handler \<Rightarrow> c_int \<Rightarrow> c_int \<Rightarrow> c_int \<Rightarrow> (c_int result \<times> 'w handler) outcome" where
  "handler_socket host h domain typ protocol =
     exec host h (syscall_call (socket_alloc domain typ protocol))"

definition handler_sync ::
  "'w host \<Rightarrow> 'w handler \<Rightarrow> (unit result \<times> 'w handler) outcome" where
  "handler_sync host h =
     exec host h (syscall_call sync_alloc)"

definition handler_uname ::
  "'w host \<Rightarrow> 'w handler \<Rightarrow> utsname \<Rightarrow> (unit result \<times> utsname \<times> 'w handler) outcome" where
  "handler_uname host h buf =
     exec_buf host h (stub_call (uname_collect buf)) buf"

definition handler_write ::
  "'w host \<Rightarrow> 'w handler \<Rightarrow> c_int \<Rightarrow> byte list \<Rightarrow> (usize result \<times> 'w handler) outcome" where
  "handler_write host h fd buf =
     exec_checked host h (syscall_call (write_alloc fd buf))"

definition handler_writev ::
  "'w host \<Rightarrow> 'w handler \<Rightarrow> c_int \<Rightarrow> byte list list \<Rightarrow> (usize result \<times> 'w handler) outcome" where
  "handler_writev host h fd iovs =
     exec_checked host h (syscall_call (writev_alloc fd iovs))"

text \<open>\<^verbatim>\<open>getrandom\<close> is a stub whose collection may not end (\<open>None\<close>).\<close>

definition handler_getrandom ::
  "rdrand \<Rightarrow> nat \<Rightarrow> 'w host \<Rightarrow> 'w handler \<Rightarrow> byte list \<Rightarrow> c_int \<Rightarrow>
     (usize result \<times> byte list \<times> 'w handler) outcome option" where
  "handler_getrandom rdrand t host h buf flags =
     map_option (\<lambda>(r, bs, _). exec_buf host h (stub_call (r, bs)) buf)
       (getrandom_collect rdrand t buf flags)"

text \<open>\<^verbatim>\<open>rt_sigaction\<close> works on the thread-local storage only. Its guard compares the signal
  number as a signed integer; the index is the number as a \<^verbatim>\<open>usize\<close>, and indexing out of
  range panics. \<open>oldact\<close> is \<open>None\<close> when the caller passes no place for the old action.\<close>

definition handler_rt_sigaction ::
  "'w handler \<Rightarrow> c_int \<Rightarrow> sigaction option \<Rightarrow> sigaction option option \<Rightarrow> usize \<Rightarrow>
     (unit result \<times> sigaction option option \<times> 'w handler) outcome" where
  "handler_rt_sigaction h signum act oldact sigsetsize =
     (if sint SIGRTMAX \<le> sint signum \<or> sigsetsize \<noteq> 8 then Ret (Err EINVAL, oldact, h)
      else
        let i = unat (as_usize signum)
        in if (oldact \<noteq> None \<or> act \<noteq> None) \<and> length (h_actions h) \<le> i then Panic
           else
             let oldact = (case oldact of None \<Rightarrow> None | Some _ \<Rightarrow> Some (h_actions h ! i));
                 h = (case act of None \<Rightarrow> h | Some a \<Rightarrow> h\<lparr>h_actions := (h_actions h)[i := Some a]\<rparr>)
             in Ret (Ok (), oldact, h))"

section \<open>GDB calls\<close>

definition handler_gdb_flush ::
  "'w host \<Rightarrow> 'w handler \<Rightarrow> (unit result \<times> 'w handler) outcome" where
  "handler_gdb_flush host h =
     exec host h (gdb_call gdb_flush_alloc)"

definition handler_gdb_on_session_start ::
  "'w host \<Rightarrow> 'w handler \<Rightarrow> (unit result \<times> 'w handler) outcome" where
  "handler_gdb_on_session_start host h =
     exec host h (gdb_call gdb_on_session_start_alloc)"

definition handler_gdb_peek ::
  "'w host \<Rightarrow> 'w handler \<Rightarrow> ((byte option) result \<times> 'w handler) outcome" where
  "handler_gdb_peek host h =
     exec host h (gdb_call gdb_peek_alloc)"

definition handler_gdb_read ::
  "'w host \<Rightarrow> 'w handler \<Rightarrow> (byte result \<times> 'w handler) outcome" where
  "handler_gdb_read host h =
     exec host h (gdb_call gdb_read_alloc)"

definition handler_gdb_write ::
  "'w host \<Rightarrow> 'w handler \<Rightarrow> byte \<Rightarrow> (unit result \<times> 'w handler) outcome" where
  "handler_gdb_write host h b =
     exec host h (gdb_call (gdb_write_alloc b))"

definition handler_gdb_write_all ::
  "'w host \<Rightarrow> 'w handler \<Rightarrow> byte list \<Rightarrow> (usize result \<times> 'w handler) outcome" where
  "handler_gdb_write_all host h buf =
     exec_checked host h (gdb_call (gdb_write_all_alloc buf))"

section \<open>Enarx calls\<close>

definition handler_balloon_memory ::
  "'w host \<Rightarrow> 'w handler \<Rightarrow> usize \<Rightarrow> usize \<Rightarrow> usize \<Rightarrow> (usize result \<times> 'w handler) outcome" where
  "handler_balloon_memory host h size_exponent pages addr =
     exec host h (enarx_call (balloon_memory_alloc size_exponent pages addr))"

definition handler_cpuid ::
  "'w host \<Rightarrow> 'w handler \<Rightarrow> 32 word \<Rightarrow> 32 word \<Rightarrow> cpuid_result \<Rightarrow> (unit result \<times> cpuid_result \<times> 'w handler) outcome" where
  "handler_cpuid host h leaf sub_leaf res =
     exec_buf host h (enarx_call (cpuid_alloc leaf sub_leaf res)) res"

definition handler_get_sgx_quote ::
  "'w host \<Rightarrow> 'w handler \<Rightarrow> byte_array \<Rightarrow> byte list \<Rightarrow> (usize result \<times> byte list \<times> 'w handler) outcome" where
  "handler_get_sgx_quote host h report quote =
     exec_checked_buf host h (enarx_call (get_sgx_quote_alloc report quote)) quote"

definition handler_get_sgx_quote_size ::
  "'w host \<Rightarrow> 'w handler \<Rightarrow> (usize result \<times> 'w handler) outcome" where
  "handler_get_sgx_quote_size host h =
     exec host h (enarx_call get_sgx_quote_size_alloc)"

definition handler_get_sgx_target_info ::
  "'w host \<Rightarrow> 'w handler \<Rightarrow> byte_array \<Rightarrow> (unit result \<times> byte list \<times> 'w handler) outcome" where
  "handler_get_sgx_target_info host h info =
     exec_buf host h (enarx_call (get_sgx_target_info_alloc info)) (array_bytes 512 info)"

definition handler_get_snp_vcek ::
  "'w host \<Rightarrow> 'w handler \<Rightarrow> byte list \<Rightarrow> (usize result \<times> byte list \<times> 'w handler) outcome" where
  "handler_get_snp_vcek host h vcek =
     exec_checked_buf host h (enarx_call (get_snp_vcek_alloc vcek)) vcek"

definition handler_mem_info ::
  "'w host \<Rightarrow> 'w handler \<Rightarrow> (usize result \<times> 'w handler) outcome" where
  "handler_mem_info host h =
     exec host h (enarx_call mem_info_alloc)"

definition handler_mmap_host ::
  "'w host \<Rightarrow> 'w handler \<Rightarrow> usize \<Rightarrow> usize \<Rightarrow> c_int \<Rightarrow> (unit result \<times> 'w handler) outcome" where
  "handler_mmap_host host h addr len prot =
     exec host h (enarx_call (mmap_host_alloc addr len prot))"

definition handler_mprotect_host ::
  "'w host \<Rightarrow> 'w handler \<Rightarrow> usize \<Rightarrow> usize \<Rightarrow> c_int \<Rightarrow> (unit result \<times> 'w handler) outcome" where
  "handler_mprotect_host host h addr len prot =
     exec host h (enarx_call (mprotect_host_alloc addr len prot))"

definition handler_munmap_host ::
  "'w host \<Rightarrow> 'w handler \<Rightarrow> usize \<Rightarrow> usize \<Rightarrow> (unit result \<times> 'w handler) outcome" where
  "handler_munmap_host host h addr len =
     exec host h (enarx_call (munmap_host_alloc addr len))"

definition handler_trim_sgx_pages ::
  "'w host \<Rightarrow> 'w handler \<Rightarrow> usize \<Rightarrow> usize \<Rightarrow> (unit result \<times> 'w handler) outcome" where
  "handler_trim_sgx_pages host h addr len =
     exec host h (enarx_call (trim_sgx_pages_alloc addr len))"

end
