(* ===== verification/Handler_Laws.thy ===== *)
theory Handler_Laws
  imports Handler
begin

text \<open>
  What \<^verbatim>\<open>Handler::execute\<close> guarantees for any call that keeps the contract
  \<open>call_laws\<close>, against any host: it returns, without panic or undefined behaviour, and
  leaves the address and size of the block and the thread-local storage as they were. The results
  are proved once in the locale and reach the methods of the handler through the interpretations
  of the calls.
\<close>

section \<open>The block of a handler\<close>

lemma block_mem_simps [simp]:
  "mem_base (block_mem h) = h_addr h" "length (mem_data (block_mem h)) = 8 * length (h_block h)"
  by (simp_all add: block_mem_def)

lemma with_mem_simps [simp]:
  "h_addr (with_mem h m) = h_addr h" "h_actions (with_mem h m) = h_actions h"
  "h_world (with_mem h m) = h_world h" "h_block (with_mem h m) = words_of_bytes (mem_data m)"
  by (simp_all add: with_mem_def)

lemma with_mem_shape:
  "same_shape (block_mem h) m \<Longrightarrow> length (h_block (with_mem h m)) = length (h_block h)"
  by (simp add: same_shape_def length_words_of_bytes)

lemma block_mem_with_mem: "same_shape (block_mem h) m \<Longrightarrow> block_mem (with_mem h m) = m"
  by (cases m) (simp add: same_shape_def block_mem_def with_mem_def bytes_of_words_of_bytes)

text \<open>\<open>same_frame\<close>: what no execution changes.\<close>

definition same_frame :: "'w handler \<Rightarrow> 'w handler \<Rightarrow> bool" where
  "same_frame h h' \<longleftrightarrow> h_addr h' = h_addr h \<and> length (h_block h') = length (h_block h) \<and>
     h_actions h' = h_actions h"

lemma same_frame_refl [simp]: "same_frame h h"
  by (simp add: same_frame_def)

lemma same_frame_trans: "same_frame h h' \<Longrightarrow> same_frame h' h'' \<Longrightarrow> same_frame h h''"
  by (simp add: same_frame_def)

lemma sally_frame: "sally host h = (r, h') \<Longrightarrow> same_frame h h'"
  by (auto simp: sally_def same_frame_def split_beta)

lemma with_mem_frame: "same_shape (block_mem h) m \<Longrightarrow> same_frame h (with_mem h m)"
  by (simp add: same_frame_def with_mem_shape del: with_mem_simps(4))

lemma same_frame_shape: "same_frame h h' \<Longrightarrow> same_shape (block_mem h) (block_mem h')"
  by (simp add: same_frame_def same_shape_def)

lemma length_end_header [simp]: "length end_header = 16"
  by (simp add: end_header_def)

section \<open>What staging under the reserved end header gives\<close>

lemma reserve_input_Ok:
  assumes "reserve_input header_layout (alloc_section f) al = Ok (((s, len), r), al')" "advancing f"
  shows "\<exists>free b. f \<lparr>a_ptr = a_ptr al, a_len = free, a_offset = 0\<rparr> = Ok (s, b) \<and>
           len = a_ptr b - a_ptr al \<and> a_ptr al \<le> a_ptr b \<and> free \<le> a_len al \<and>
           in_ptr r = a_ptr b + align_offset (a_ptr b) 8 \<and> in_elem r = header_layout \<and>
           in_count r = 1 \<and> in_ref_ok (a_ptr b) (a_ptr al') r \<and> advances al al'"
proof -
  from assms(1) obtain addr n off where
    1: "reserve_layout header_layout (alloc_section f) al = Ok (((s, len), (addr, n), off), al')" and
    r: "r = in_ref_cast header_layout (in_ref_new (addr, n) off)"
    by (auto simp: reserve_input_def reserve_input_layout_def smap_Inr)
  from reserve_layout_Ok [OF 1 advancing_alloc_section [OF assms(2)]] obtain free b where
    2: "alloc_section f \<lparr>a_ptr = a_ptr al, a_len = free, a_offset = a_offset al\<rparr> = Ok ((s, len), b)"
      "free \<le> a_len al" "a_ptr al \<le> a_ptr b" "a_ptr b \<le> addr" "a_ptr al' = addr + n" "n = 16"
      "addr = a_ptr b + align_offset (a_ptr b) 8" "advances al al'" by auto
  from alloc_section_Ok [OF 2(1) assms(2)] obtain b' where
    3: "f \<lparr>a_ptr = a_ptr al, a_len = free, a_offset = 0\<rparr> = Ok (s, b')"
      "len = a_ptr b - a_ptr al" "a_ptr b' = a_ptr b" by auto
  have "8 dvd addr"
    using align_offset_dvd [of 8 "a_ptr b"] 2(7) by simp
  with 2 3 r show ?thesis
    by (intro exI [of _ free] exI [of _ b'])
       (simp add: in_ref_cast_def in_ref_new_def in_ref_ok_def)
qed

lemma alloc_sally_Ok:
  assumes "advances (alloc_stage (alloc_new addr n)) al"
  shows "alloc_sally al addr n = Ok al"
  using assms by (auto simp: alloc_sally_def advances_def alloc_stage_def alloc_new_def)

section \<open>Execution\<close>

text \<open>A value that was collected from something well-formed, in some contents of the block.\<close>

definition collected ::
  "('s, 'c, 'r) call \<Rightarrow> (nat \<Rightarrow> nat \<Rightarrow> 'c \<Rightarrow> bool) \<Rightarrow> 'r \<Rightarrow> bool" where
  "collected c ok v \<longleftrightarrow> (\<exists>lo hi x m. ok lo hi x \<and> in_mem m lo (hi - lo) \<and> c_collect c x m = Ret v)"

context call_laws
begin

text \<open>The staged request lies in the block; what follows is commit, sally and collect.\<close>

lemma execute_staged:
  assumes "reserve_input header_layout (alloc_section (c_stage c))
             (alloc_stage (alloc_new (h_addr h) (length (h_block h)))) = Ok (((s, len), r), al)"
  shows "\<exists>x m1 m2. c_commit c s (block_mem h) = Some (x, m1) \<and> same_shape (block_mem h) m1 \<and>
           in_ref_copy_from r end_header m1 = Some ((), m2) \<and> same_shape (block_mem h) m2 \<and>
           alloc_sally (alloc_commit al) (h_addr h) (length (h_block h)) = Ok (alloc_commit al) \<and>
           (\<forall>m'. same_shape (block_mem h) m' \<longrightarrow>
              (\<exists>v. c_collect c x m' = Ret v) \<and>
              (\<exists>lo hi. c_ok lo hi x \<and> in_mem m' lo (hi - lo)))"
proof -
  let ?al = "alloc_stage (alloc_new (h_addr h) (length (h_block h)))"
  have al0: "a_ptr ?al = h_addr h" "a_len ?al = 8 * length (h_block h)"
    by (simp_all add: alloc_stage_def alloc_new_def)
  from reserve_input_Ok [OF assms stage_advancing] obtain free b where
    1: "c_stage c \<lparr>a_ptr = h_addr h, a_len = free, a_offset = 0\<rparr> = Ok (s, b)"
      "h_addr h \<le> a_ptr b" "in_elem r = header_layout" "in_count r = 1"
      "in_ref_ok (a_ptr b) (a_ptr al) r" "advances ?al al"
    by (auto simp: al0)
  have "a_ptr b \<le> a_ptr al"
    using 1(5) by (auto simp: in_ref_ok_def)
  moreover have "a_ptr al \<le> h_addr h + 8 * length (h_block h)"
    using 1(6) al0 by (auto simp: advances_def)
  ultimately have mem: "in_mem m' (h_addr h) (a_ptr b - h_addr h)"
    "in_mem m' (a_ptr b) (a_ptr al - a_ptr b)" if "same_shape (block_mem h) m'" for m'
    using that 1(2) by (auto simp: in_mem_def same_shape_def)
  have st: "s_ok (h_addr h) (a_ptr b) s"
    using stage_ok [OF 1(1)] by simp
  from commit_ok [OF st mem(1) [OF same_shape_refl]] obtain x m1 where
    2: "c_commit c s (block_mem h) = Some (x, m1)" "unchanged (block_mem h) m1 (h_addr h) (a_ptr b)"
      "c_ok (h_addr h) (a_ptr b) x" by blast
  note sh1 = unchanged_shape [OF 2(2)]
  from in_ref_copy_from_ok [OF 1(5) mem(2) [OF sh1]] 1 obtain m2 where
    3: "in_ref_copy_from r end_header m1 = Some ((), m2)" "unchanged m1 m2 (a_ptr b) (a_ptr al)"
    by (metis length_end_header header_layout_simps(1))
  have "alloc_commit al = al"
    by (simp add: alloc_commit_def into_phase_def)
  with 1(6) have "alloc_sally (alloc_commit al) (h_addr h) (length (h_block h)) = Ok (alloc_commit al)"
    by (simp add: alloc_sally_Ok)
  moreover have "(\<exists>v. c_collect c x m' = Ret v) \<and> (\<exists>lo hi. c_ok lo hi x \<and> in_mem m' lo (hi - lo))"
    if "same_shape (block_mem h) m'" for m'
    using collect_ok [OF 2(3) mem(1) [OF that]] 2(3) mem(1) [OF that] by blast
  ultimately show ?thesis
    using 2 3 sh1 same_shape_trans [OF sh1 unchanged_shape [OF 3(2)]] by blast
qed

text \<open>The four ways an execution can go: staging fails, the call does not need the host, the host
  reports an error, the host returns. A result is collected from something well-formed.\<close>

lemma execute_cases:
  obtains (stage) e where
      "reserve_input header_layout (alloc_section (c_stage c))
         (alloc_stage (alloc_new (h_addr h) (length (h_block h)))) = Err e"
      "execute host h c = Ret (Err e, h)"
  | (local) v m where "same_shape (block_mem h) m" "execute host h c = Ret (Ok v, with_mem h m)"
      "collected c c_ok v"
  | (refused) m e h' where "same_shape (block_mem h) m" "sally host (with_mem h m) = (Err e, h')"
      "execute host h c = Ret (Err e, h')"
  | (served) m v h' where "same_shape (block_mem h) m" "sally host (with_mem h m) = (Ok (), h')"
      "execute host h c = Ret (Ok v, h')" "collected c c_ok v"
proof (cases "reserve_input header_layout (alloc_section (c_stage c))
             (alloc_stage (alloc_new (h_addr h) (length (h_block h))))")
  case (Inl e)
  then show ?thesis by (intro stage) (simp_all add: execute_def)
next
  case (Inr y)
  then obtain s len r al where y: "y = (((s, len), r), al)"
    by (metis surj_pair)
  from execute_staged [OF Inr [unfolded y]] obtain x m1 m2 where
    1: "c_commit c s (block_mem h) = Some (x, m1)" "same_shape (block_mem h) m1"
    and 2: "in_ref_copy_from r end_header m1 = Some ((), m2)" "same_shape (block_mem h) m2"
    and 3: "alloc_sally (alloc_commit al) (h_addr h) (length (h_block h)) = Ok (alloc_commit al)"
    and 4: "\<And>m'. same_shape (block_mem h) m' \<Longrightarrow> (\<exists>v. c_collect c x m' = Ret v) \<and>
              (\<exists>lo hi. c_ok lo hi x \<and> in_mem m' lo (hi - lo))"
    by blast
  obtain res h' where sal: "sally host (with_mem h m2) = (res, h')"
    by (metis surj_pair)
  from same_frame_trans [OF with_mem_frame [OF 2(2)] sally_frame [OF sal]]
  have fr: "same_frame h h'" .
  from 4 [OF same_frame_shape [OF fr]] 4 [OF 1(2)] obtain v v' where
    v: "c_collect c x (block_mem h') = Ret v" "c_collect c x m1 = Ret v'" by blast
  have col: "collected c c_ok v" "collected c c_ok v'"
    using v 4 [OF same_frame_shape [OF fr]] 4 [OF 1(2)] by (auto simp: collected_def)
  have "alloc_sally (alloc_commit al) (h_addr h') (length (h_block h')) = Ok (alloc_commit al)"
    using 3 fr by (simp add: same_frame_def)
  then have ex: "execute host h c =
      (if 0 < len then Ret (rmap (\<lambda>_. v) res, h') else Ret (Ok v', with_mem h m1))"
    using Inr y 1 2 sal v by (cases res) (simp_all add: execute_def Let_def)
  show ?thesis
  proof (cases "0 < len")
    case True
    with ex sal 2 col refused served show ?thesis by (cases res) auto
  next
    case False
    with ex local [OF 1(2)] col show ?thesis by simp
  qed
qed

lemma execute_returns:
  "\<exists>r h'. execute host h c = Ret (r, h') \<and> same_frame h h' \<and> (case r of Inl e \<Rightarrow> True | Inr v \<Rightarrow> collected c c_ok v)"
  by (rule execute_cases [of h host])
     (auto intro: with_mem_frame same_frame_trans [OF with_mem_frame sally_frame])

text \<open>The errors of an execution are those of staging and those the host reports.\<close>

lemma execute_errors:
  assumes "execute host h c = Ret (Err e, h')"
  shows "reserve_input header_layout (alloc_section (c_stage c))
           (alloc_stage (alloc_new (h_addr h) (length (h_block h)))) = Err e \<or>
         (\<exists>w b. fst (host w b) = Err e)"
  by (rule execute_cases [of h host]) (use assms in \<open>auto simp: sally_def split_beta\<close>)

end

lemma collected_item:
  assumes "collected (item_call k a) (committed_call_ok (committed_alloc_ok k ok)) v"
  shows "\<exists>lo hi x m ret. ok lo hi x \<and> in_mem m lo (hi - lo) \<and> na_collect a x ret m = Ret v"
proof -
  from assms obtain lo hi x m where
    1: "committed_call_ok (committed_alloc_ok k ok) lo hi x" "in_mem m lo (hi - lo)"
      "c_collect (item_call k a) x m = Ret v"
    by (auto simp: collected_def)
  from 1(1) obtain c p q r where
    2: "x = CommittedCall c" "lo \<le> p" "p \<le> q" "q \<le> hi" "p \<le> r" "r \<le> q" "ok r q (co_committed c)"
    by (auto simp: committed_call_ok_def committed_alloc_ok_def split: committed_call.splits)
  from 1(3) 2(1) obtain ret where "na_collect a (co_committed c) ret m = Ret v"
    by (auto simp: item_call_def alloc_call_def numbered_call_def numbered_collect_def obind_Ret)
  moreover have "in_mem m r (q - r)"
    using in_mem_between [OF 1(2), of r q] 2 by simp
  ultimately show ?thesis
    using 2(7) by blast
qed

text \<open>The four uses of \<^verbatim>\<open>execute\<close>.\<close>

lemma exec_returns:
  assumes "call_laws c s_ok c_ok"
  shows "\<exists>r h'. exec host h c = Ret (r, h') \<and> same_frame h h'"
  using call_laws.execute_returns [OF assms, of host h] by (auto simp: exec_def)

lemma exec_buf_returns:
  assumes "call_laws c s_ok c_ok"
  shows "\<exists>r b' h'. exec_buf host h c b = Ret (r, b', h') \<and> same_frame h h'"
  using call_laws.execute_returns [OF assms, of host h]
  by (force simp: exec_buf_def split: sum.splits)

lemma exec_buf_collects:
  assumes "call_laws c s_ok c_ok" "\<And>r b'. collected c c_ok (r, b') \<Longrightarrow> P b'" "P b"
  shows "\<exists>r b' h'. exec_buf host h c b = Ret (r, b', h') \<and> same_frame h h' \<and> P b'"
  using call_laws.execute_returns [OF assms(1), of host h] assms(2,3)
  by (force simp: exec_buf_def split: sum.splits)

lemma exec_checked_returns:
  assumes "call_laws c s_ok c_ok"
    and "\<And>r. collected c c_ok (Some r) \<Longrightarrow> P r" "\<And>e. P (Err e)"
  shows "exec_checked host h c = Attacked \<or>
         (\<exists>r h'. exec_checked host h c = Ret (r, h') \<and> same_frame h h' \<and> P r)"
  using call_laws.execute_returns [OF assms(1), of host h] assms(2,3)
  by (force simp: exec_checked_def split: sum.splits option.splits)

lemma exec_checked_buf_returns:
  assumes "call_laws c s_ok c_ok"
    and "\<And>r b'. collected c c_ok (Some r, b') \<Longrightarrow> P r b'" "\<And>e. P (Err e) b"
  shows "exec_checked_buf host h c b = Attacked \<or>
         (\<exists>r b' h'. exec_checked_buf host h c b = Ret (r, b', h') \<and> same_frame h h' \<and> P r b')"
proof -
  from call_laws.execute_returns [OF assms(1), of host h] obtain x h' where
    x: "execute host h c = Ret (x, h')" "same_frame h h'"
      "case x of Inl e \<Rightarrow> True | Inr v \<Rightarrow> collected c c_ok v" by blast
  consider (err) e where "x = Err e" | (bad) b' where "x = Ok (None, b')"
    | (ok) r b' where "x = Ok (Some r, b')"
    by (metis old.sum.exhaust option.exhaust surj_pair)
  then show ?thesis
    using x assms(2,3) by cases (auto simp: exec_checked_buf_def)
qed

section \<open>Properties\<close>

lemma read_collected:
  "collected (syscall_call (read_alloc fd buf))
     (committed_call_ok (committed_alloc_ok syscall_kind (buf_ok buf))) (r, b) \<Longrightarrow> read_post buf r b"
  by (drule collected_item) (auto simp: read_alloc_def obind_Ret intro: collect_countedD)

lemma recv_collected:
  "collected (syscall_call (recv_alloc sockfd buf flags))
     (committed_call_ok (committed_alloc_ok syscall_kind (buf_ok buf))) (r, b) \<Longrightarrow> read_post buf r b"
  by (drule collected_item) (auto simp: recv_alloc_def obind_Ret intro: collect_countedD)

lemma whole_collected:
  "collect_counted x ret m = Ret (r, b) \<Longrightarrow> whole_buf_ok buf lo hi x \<Longrightarrow> in_mem m lo (hi - lo) \<Longrightarrow>
     read_post buf r b"
  using collect_whole_post [of buf lo hi x m ret] by auto

lemma vcek_collected:
  "collected (enarx_call (get_snp_vcek_alloc buf))
     (committed_call_ok (committed_alloc_ok enarxcall_kind (whole_buf_ok buf))) (r, b) \<Longrightarrow>
   read_post buf r b"
  by (drule collected_item) (auto simp: get_snp_vcek_alloc_def intro: whole_collected)

lemma quote_collected:
  "collected (enarx_call (get_sgx_quote_alloc report buf))
     (committed_call_ok (committed_alloc_ok enarxcall_kind (whole_buf_ok buf))) (r, b) \<Longrightarrow>
   read_post buf r b"
  by (drule collected_item) (auto simp: get_sgx_quote_alloc_def intro: whole_collected)

lemma read_post_Err [simp]: "read_post buf (Some (Err e)) buf"
  by (simp add: read_post_def)

text \<open>What a method that fills a buffer comes to, for any host.\<close>

definition fills_safely ::
  "'w handler \<Rightarrow> byte list \<Rightarrow> (usize result \<times> byte list \<times> 'w handler) outcome \<Rightarrow> bool" where
  "fills_safely h buf out \<longleftrightarrow> out = Attacked \<or>
     (\<exists>r b h'. out = Ret (r, b, h') \<and> same_frame h h' \<and> read_post buf (Some r) b)"

lemma exec_fills_safely:
  assumes "call_laws c s_ok c_ok" "\<And>r b'. collected c c_ok (Some r, b') \<Longrightarrow> read_post buf (Some r) b'"
  shows "fills_safely h buf (exec_checked_buf host h c buf)"
  unfolding fills_safely_def
  by (rule exec_checked_buf_returns [OF assms(1), where P = "\<lambda>r b. read_post buf (Some r) b"])
     (simp_all add: assms(2))

lemma fills_safe:
  "fills_safely h buf (handler_read host h fd buf)"
  "fills_safely h buf (handler_recv host h sockfd buf flags)"
  "fills_safely h buf (handler_get_sgx_quote host h report buf)"
  "fills_safely h buf (handler_get_snp_vcek host h buf)"
  unfolding handler_read_def handler_recv_def handler_get_sgx_quote_def handler_get_snp_vcek_def
  by (rule exec_fills_safely [OF read.item.call_laws_axioms], erule read_collected)
     (rule exec_fills_safely [OF recv.item.call_laws_axioms], erule recv_collected,
      rule exec_fills_safely [OF get_sgx_quote.item.call_laws_axioms], erule quote_collected,
      rule exec_fills_safely [OF get_snp_vcek.item.call_laws_axioms], erule vcek_collected)

text \<open>C13: against any host whatsoever, the methods that fill a buffer (\<^verbatim>\<open>read\<close>,
  \<^verbatim>\<open>recv\<close>, \<^verbatim>\<open>get_sgx_quote\<close>, \<^verbatim>\<open>get_snp_vcek\<close>) either give up in \<^verbatim>\<open>attacked()\<close> or
  return; they never panic or run into undefined behaviour. When they return a count, the
  count is within the buffer and the bytes after it are untouched; when they return an error, the
  whole buffer is.\<close>

theorem reads_against_any_host:
  "fills_safely h buf (handler_read host h fd buf) \<and>
   fills_safely h buf (handler_recv host h sockfd buf flags) \<and>
   fills_safely h buf (handler_get_sgx_quote host h report buf) \<and>
   fills_safely h buf (handler_get_snp_vcek host h buf)"
  by (intro conjI fills_safe)

text \<open>Sending.\<close>

definition sends_safely :: "'w handler \<Rightarrow> nat \<Rightarrow> (usize result \<times> 'w handler) outcome \<Rightarrow> bool" where
  "sends_safely h n out \<longleftrightarrow> out = Attacked \<or>
     (\<exists>r h'. out = Ret (r, h') \<and> same_frame h h' \<and> sent_post n r)"

lemma sent_post_Err [simp]: "sent_post n (Err e)"
  by (simp add: sent_post_def)

lemma exec_sends_safely:
  assumes "call_laws c s_ok c_ok" "\<And>r. collected c c_ok (Some r) \<Longrightarrow> sent_post n r"
  shows "sends_safely h n (exec_checked host h c)"
  unfolding sends_safely_def
  by (rule exec_checked_returns [OF assms(1), where P = "sent_post n"])
     (simp_all add: assms(2))

lemma sent_collected:
  assumes "collected (item_call k a) (committed_call_ok (committed_alloc_ok k (count_ok n))) (Some r)"
    and "\<And>c ret m. na_collect a c ret m = Ret (check_count c (f ret))"
  shows "sent_post n r"
  using collected_item [OF assms(1)] assms(2) by (auto dest: check_countD)

lemma sent_post_mono: "sent_post n r \<Longrightarrow> n \<le> k \<Longrightarrow> sent_post k r"
  by (auto simp: sent_post_def split: sum.splits)

lemma sends_safely_mono: "sends_safely h n out \<Longrightarrow> n \<le> k \<Longrightarrow> sends_safely h k out"
  by (auto simp: sends_safely_def dest: sent_post_mono)

lemma sends_safe:
  "sends_safely h (length buf) (handler_write host h fd buf)"
  "sends_safely h (length buf) (handler_send host h sockfd buf flags)"
  "sends_safely h (length buf) (handler_sendto host h sockfd buf flags dest_addr)"
  "sends_safely h (length (concat iovs)) (handler_writev host h fd iovs)"
  "sends_safely h (length buf) (handler_gdb_write_all host h buf)"
proof -
  show "sends_safely h (length buf) (handler_write host h fd buf)"
    unfolding handler_write_def
    by (rule exec_sends_safely [OF sys_write.item.call_laws_axioms])
       (erule sent_collected [where f = id], simp add: write_alloc_def)
  show "sends_safely h (length buf) (handler_send host h sockfd buf flags)"
    unfolding handler_send_def
    by (rule exec_sends_safely [OF send.item.call_laws_axioms])
       (erule sent_collected [where f = id], simp add: send_alloc_def)
  show "sends_safely h (length buf) (handler_sendto host h sockfd buf flags dest_addr)"
    unfolding handler_sendto_def
    by (rule exec_sends_safely [OF sendto.item.call_laws_axioms])
       (erule sent_collected [where f = id], simp add: sendto_alloc_def)
  have "sends_safely h (iov_len iovs) (handler_writev host h fd iovs)"
    unfolding handler_writev_def
    by (rule exec_sends_safely [OF writev.item.call_laws_axioms])
       (erule sent_collected [where f = id], simp add: writev_alloc_def)
  then show "sends_safely h (length (concat iovs)) (handler_writev host h fd iovs)"
    by (rule sends_safely_mono) (rule iov_len_le)
  show "sends_safely h (length buf) (handler_gdb_write_all host h buf)"
    unfolding handler_gdb_write_all_def
    by (rule exec_sends_safely [OF gdb_write_all.item.call_laws_axioms])
       (erule sent_collected [where f = id], simp add: gdb_write_all_alloc_def)
qed

text \<open>C14: against any host, the methods that send a buffer (\<^verbatim>\<open>write\<close>, \<^verbatim>\<open>send\<close>,
  \<^verbatim>\<open>sendto\<close>, \<^verbatim>\<open>writev\<close>, \<^verbatim>\<open>gdb_write_all\<close>) either give up in
  \<^verbatim>\<open>attacked()\<close> or return, and a count they return never exceeds the bytes they were given.\<close>

theorem writes_against_any_host:
  "sends_safely h (length buf) (handler_write host h fd buf) \<and>
   sends_safely h (length buf) (handler_send host h sockfd buf flags) \<and>
   sends_safely h (length buf) (handler_sendto host h sockfd buf flags dest_addr) \<and>
   sends_safely h (length (concat iovs)) (handler_writev host h fd iovs) \<and>
   sends_safely h (length buf) (handler_gdb_write_all host h buf)"
  by (intro conjI sends_safe)

lemma readv_safe:
  "handler_readv host h fd iovs = Attacked \<or>
   (\<exists>r iovs' h'. handler_readv host h fd iovs = Ret (r, iovs', h') \<and> same_frame h h' \<and>
      readv_post iovs (Some r) iovs')"
  unfolding handler_readv_def
proof (rule exec_checked_buf_returns [OF readv.item.call_laws_axioms])
  fix r iovs'
  assume "collected (syscall_call (readv_alloc fd iovs))
    (committed_call_ok (committed_alloc_ok syscall_kind (readv_ok iovs))) (Some r, iovs')"
  then show "readv_post iovs (Some r) iovs'"
    by (auto dest!: collected_item dest: readv_collect_post)
qed (simp add: readv_post_def)

text \<open>C15: against any host, \<^verbatim>\<open>readv\<close> either gives up in \<^verbatim>\<open>attacked()\<close> or
  returns; a count is within the buffers taken together, no buffer changes its length, and the bytes
  after the count, in the order of the buffers, are untouched.\<close>

theorem readv_against_any_host:
  "handler_readv host h fd iovs = Attacked \<or>
   (\<exists>r iovs' h'. handler_readv host h fd iovs = Ret (r, iovs', h') \<and> same_frame h h' \<and>
      readv_post iovs (Some r) iovs')"
  by (rule readv_safe)

text \<open>Waiting for events.\<close>

definition waits_safely ::
  "'w handler \<Rightarrow> nat \<Rightarrow> byte list \<Rightarrow> (c_int result \<times> byte list \<times> 'w handler) outcome \<Rightarrow> bool" where
  "waits_safely h sz evs out \<longleftrightarrow> out = Attacked \<or>
     (\<exists>r b h'. out = Ret (r, b, h') \<and> same_frame h h' \<and> events_post sz evs (Some r) b)"

lemma exec_waits_safely:
  assumes "call_laws (item_call k a) s_ok (committed_call_ok (committed_alloc_ok k (events_ok sz evs)))"
    and "na_collect a = collect_counted_int"
  shows "waits_safely h sz evs (exec_checked_buf host h (item_call k a) evs)"
  unfolding waits_safely_def
proof (rule exec_checked_buf_returns [OF assms(1)])
  fix r b
  assume "collected (item_call k a) (committed_call_ok (committed_alloc_ok k (events_ok sz evs))) (Some r, b)"
  then show "events_post sz evs (Some r) b"
    by (auto simp: assms(2) dest!: collected_item dest: events_collectD)
qed (simp add: events_post_def)

lemma waits_safe:
  "waits_safely h 16 (concat (map epoll_event_bytes events)) (handler_epoll_wait host h epfd events timeout)"
  "waits_safely h 16 (concat (map epoll_event_bytes events)) (handler_epoll_pwait host h epfd events timeout sigmask)"
  "waits_safely h 8 (concat (map pollfd_bytes fds)) (handler_poll host h fds timeout)"
  unfolding handler_epoll_wait_def handler_epoll_pwait_def handler_poll_def
  by (rule exec_waits_safely [OF epoll_wait.item.call_laws_axioms] exec_waits_safely [OF epoll_pwait.item.call_laws_axioms]
      exec_waits_safely [OF poll.item.call_laws_axioms];
      simp add: epoll_wait_alloc_def epoll_pwait_alloc_def poll_alloc_def)+

text \<open>C16: against any host, \<^verbatim>\<open>epoll_wait\<close>, \<^verbatim>\<open>epoll_pwait\<close> and \<^verbatim>\<open>poll\<close>
  either give up in \<^verbatim>\<open>attacked()\<close> or return; a count is within the array of events and
  only that many entries at its beginning change.\<close>

theorem waits_against_any_host:
  "waits_safely h 16 (concat (map epoll_event_bytes events)) (handler_epoll_wait host h epfd events timeout) \<and>
   waits_safely h 16 (concat (map epoll_event_bytes events))
     (handler_epoll_pwait host h epfd events timeout sigmask) \<and>
   waits_safely h 8 (concat (map pollfd_bytes fds)) (handler_poll host h fds timeout)"
  by (intro conjI waits_safe)

lemma recvfrom_collect_post:
  assumes "na_collect (recvfrom_alloc sockfd buf flags addr) x ret m = Ret (r, b, addr')"
    and ok: "recvfrom_committed_ok buf n lo hi x" "in_mem m lo (hi - lo)"
  shows "read_post buf r b" "length (so_addr addr') = n \<or> addr' = addr"
proof -
  have x: "buf_ok buf lo hi (fst x)" "sockaddr_committed_ok n lo hi (snd x)"
    using ok(1) by (simp_all add: recvfrom_committed_ok_def)
  from sockaddr_output_collect_ok [OF x(2) ok(2)] obtain so where
    so: "sockaddr_output_collect (snd x) m = Ret so" "length (so_addr so) = n" by blast
  show "length (so_addr addr') = n \<or> addr' = addr"
    using assms(1) so by (auto simp: recvfrom_alloc_def split_beta obind_Ret split: sum.splits if_splits)
  show "read_post buf r b"
  proof (cases "\<exists>n. ret = Ok n \<and> unat n \<le> out_count (o_ref (fst x))")
    case True
    then obtain n where n: "ret = Ok n" "unat n \<le> out_count (o_ref (fst x))" by blast
    from assms(1) n obtain bs where "output_collect_range (fst x) (unat n) m = Ret bs"
      "r = Some (Ok n)" "b = bs @ drop (length bs) buf"
      by (auto simp: recvfrom_alloc_def split_beta obind_Ret)
    with n collect_countedD [OF _ x(1) ok(2), of ret "Some (Ok n)" bs] show ?thesis
      by (simp add: collect_counted_def)
  next
    case False
    then show ?thesis
      using assms(1) by (cases ret) (auto simp: recvfrom_alloc_def split_beta read_post_def)
  qed
qed

lemma recvfrom_safe:
  "handler_recvfrom host h sockfd buf flags addr = Attacked \<or>
   (\<exists>r b addr' h'. handler_recvfrom host h sockfd buf flags addr = Ret (r, (b, addr'), h') \<and>
      same_frame h h' \<and> read_post buf (Some r) b \<and> length (so_addr addr') = length (so_addr addr))"
proof -
  let ?P = "\<lambda>r x. read_post buf (Some r) (fst x) \<and> length (so_addr (snd x)) = length (so_addr addr)"
  have "handler_recvfrom host h sockfd buf flags addr = Attacked \<or>
    (\<exists>r x h'. handler_recvfrom host h sockfd buf flags addr = Ret (r, x, h') \<and> same_frame h h' \<and> ?P r x)"
    unfolding handler_recvfrom_def
  proof (rule exec_checked_buf_returns [OF recvfrom.item.call_laws_axioms, where P = ?P])
    fix r x
    assume "collected (syscall_call (recvfrom_alloc sockfd buf flags addr))
      (committed_call_ok (committed_alloc_ok syscall_kind (recvfrom_committed_ok buf (length (so_addr addr))))) (Some r, x)"
    then show "?P r x"
      by (cases x) (auto dest!: collected_item dest: recvfrom_collect_post)
  qed simp
  then show ?thesis
    by auto
qed

text \<open>C17: against any host, \<^verbatim>\<open>recvfrom\<close> either gives up in \<^verbatim>\<open>attacked()\<close> or
  returns, and what is said of the buffer of \<^verbatim>\<open>read\<close> holds of its buffer.\<close>

theorem recvfrom_against_any_host:
  "handler_recvfrom host h sockfd buf flags addr = Attacked \<or>
   (\<exists>r b addr' h'. handler_recvfrom host h sockfd buf flags addr = Ret (r, (b, addr'), h') \<and>
      same_frame h h' \<and> read_post buf (Some r) b)"
  using recvfrom_safe [of host h sockfd buf flags addr] by blast

section \<open>Giving up\<close>

lemma exit_returns: "\<exists>r h'. exec host h (syscall_call (exit_alloc status)) = Ret (r, h')"
  using exec_returns [OF exit.item.call_laws_axioms, of host h status] by blast

text \<open>C30: once the guest has found the host to be lying it never does anything else again:
  \<^verbatim>\<open>attacked()\<close> returns for no host, it requests the exit of the process for ever.\<close>

theorem attacked_diverges: "attacked host h = None"
proof -
  have "False" if "attacked host h = Some y" for y
    by (rule attacked.raw_induct [OF _ that])
       (metis (mono_tags, lifting) case_prod_conv exit_returns outcome.case(1))
  then show ?thesis
    by (cases "attacked host h") auto
qed

text \<open>C31: \<^verbatim>\<open>exit\<close> and \<^verbatim>\<open>exit_group\<close> never come back with success: either the host
  refuses, which is an error, or control comes back although the host claims to have ended the
  process, and the guest gives up.\<close>

theorem exit_never_succeeds:
  "(handler_exit host h status = Attacked \<or> (\<exists>e h'. handler_exit host h status = Ret (Err e, h'))) \<and>
   (handler_exit_group host h status = Attacked \<or>
     (\<exists>e h'. handler_exit_group host h status = Ret (Err e, h')))"
proof -
  from exec_returns [OF exit.item.call_laws_axioms, of host h status]
    exec_returns [OF exit_group.item.call_laws_axioms, of host h status]
  obtain r h1 r' h2 where "exec host h (syscall_call (exit_alloc status)) = Ret (r, h1)"
    "exec host h (syscall_call (exit_group_alloc status)) = Ret (r', h2)" by blast
  then show ?thesis
    by (cases r; cases r') (auto simp: handler_exit_def handler_exit_group_def)
qed

section \<open>Calls that never reach the host\<close>

text \<open>The block of a handler is a slice of words: aligned, and smaller than the address space. It
  has to have room for the header that marks the end of the items.\<close>

definition usable_block :: "'w handler \<Rightarrow> bool" where
  "usable_block h \<longleftrightarrow> 8 dvd h_addr h \<and> 2 \<le> length (h_block h) \<and> 8 * length (h_block h) < usize_limit"

lemma reserve_nothing:
  assumes "usable_block h"
  shows "\<exists>r al. reserve_input header_layout (alloc_section (sreturn x))
           (alloc_stage (alloc_new (h_addr h) (length (h_block h)))) = Ok (((x, 0), r), al)"
proof -
  define n where "n = 8 * length (h_block h)"
  have n: "16 \<le> n" "8 dvd n" "n < usize_limit" and a: "8 dvd h_addr h"
    using assms by (auto simp: usable_block_def n_def)
  have "8 dvd h_addr h + (n - 16)"
    using n a by (intro dvd_add dvd_diff_nat) auto
  then show ?thesis
    using n a
    by (simp add: reserve_input_def reserve_input_layout_def reserve_layout_def alloc_section_def
        alloc_stage_def alloc_new_def smap_Inr checked_sub_def allocate_layout_def checked_add_def
        rbind_Inr n_def [symmetric] Let_def smap_def sbind_def)
qed

lemma with_block_mem [simp]: "with_mem h (block_mem h) = h"
  by (simp add: with_mem_def block_mem_def)

text \<open>A call whose staging decides on its result at once executes without the host.\<close>

lemma execute_local:
  assumes "usable_block h" "c_stage c = sreturn s" "c_commit c s = creturn x"
    and "c_collect c x (block_mem h) = Ret v"
  shows "execute host h c = Ret (Ok v, h)"
  using reserve_nothing [OF assms(1), of s] assms(2-4) by (auto simp: execute_def)

lemma execute_stub: "usable_block h \<Longrightarrow> execute host h (stub_call r) = Ret (Ok r, h)"
  by (rule execute_local) (simp_all add: stub_call_def)

lemma execute_maybe_stub:
  "usable_block h \<Longrightarrow> u = Ok (MStub v) \<Longrightarrow> execute host h (maybe_alloc_call k a u) = Ret (Ok v, h)"
  by (rule execute_local [where s = "MStub v" and x = "MStub v"])
     (auto simp: maybe_alloc_call_def maybe_alloc_stage_def sbind_def sresult_def creturn_def)

lemma execute_maybe_error:
  assumes "u = Err e" "length (h_block h) \<ge> 3" "8 * length (h_block h) < usize_limit"
  shows "execute host h (maybe_alloc_call k a u) = Ret (Err e, h)"
proof -
  let ?p = "align_offset (h_addr h + (8 * length (h_block h) - 16)) 8 mod 8"
  have "?p \<le> 8 * length (h_block h) - 16"
    using assms(2) align_offset_less [of 8 "h_addr h + (8 * length (h_block h) - 16)"] by simp
  then show ?thesis
    using assms
    by (simp add: execute_def maybe_alloc_call_def maybe_alloc_stage_def reserve_input_def
        reserve_input_layout_def reserve_layout_def alloc_section_def alloc_stage_def alloc_new_def
        smap_def sbind_def sresult_def checked_sub_def Let_def)
qed



text \<open>C33: the only file the guest ever asks the host to open is \<^verbatim>\<open>/etc/resolv.conf\<close>, for
  reading; any other request is refused with \<^verbatim>\<open>EACCES\<close> without the host. Likewise the standard
  streams: no \<^verbatim>\<open>ioctl\<close> on them and no \<^verbatim>\<open>fcntl\<close> other than \<^verbatim>\<open>F_GETFL\<close>
  succeeds, and none of the two reaches the host.\<close>

theorem denied_calls_stay_local:
  assumes "usable_block h" "3 \<le> length (h_block h)"
    and "pathname \<noteq> bytes_of_string ''/etc/resolv.conf'' @ [0] \<or>
         (oflags AND NOT (O_RDONLY OR O_CLOEXEC)) \<noteq> 0"
    and "fd \<in> {STDIN_FILENO, STDOUT_FILENO, STDERR_FILENO}"
  shows "handler_open host h pathname oflags mode = Ret (Err EACCES, h) \<and>
    (\<exists>e. handler_ioctl host h fd request argp = Ret (Err e, argp, h)) \<and>
    (cmd \<noteq> F_GETFL \<longrightarrow> handler_fcntl host h fd cmd arg = Ret (Err EINVAL, h))"
proof (intro conjI impI)
  have o: "open_stage pathname oflags mode = Ok (MStub (Err EACCES))"
    using assms(3) by (auto simp: open_stage_def)
  show "handler_open host h pathname oflags mode = Ret (Err EACCES, h)"
    by (simp add: handler_open_def open_call_def exec_def execute_maybe_stub [OF assms(1) o])
  obtain e where i: "ioctl_stage fd request argp = Ok (MStub (Err e, argp))"
  proof (cases "request = TIOCGWINSZ")
    case True
    with assms(4) that [of ENOTTY] show ?thesis by (auto simp: ioctl_stage_def)
  next
    case False
    with assms(4) that [of EINVAL] show ?thesis by (auto simp: ioctl_stage_def)
  qed
  show "\<exists>e. handler_ioctl host h fd request argp = Ret (Err e, argp, h)"
    by (simp add: handler_ioctl_def ioctl_call_def exec_buf_def execute_maybe_stub [OF assms(1) i])
  assume "cmd \<noteq> F_GETFL"
  then have f: "fcntl_stage fd cmd arg = Err EINVAL"
    using assms(4) by (auto simp: fcntl_stage_def)
  show "handler_fcntl host h fd cmd arg = Ret (Err EINVAL, h)"
    using assms(1)
    by (simp add: handler_fcntl_def fcntl_call_def exec_def usable_block_def
        execute_maybe_error [OF f assms(2)])
qed

theorem denied_calls_stay_local_witness:
  "handler_open (\<lambda>w b. (Ok (), (\<lambda>_. 0), w)) \<lparr>h_addr = 4096, h_block = [1, 2, 3], h_actions = [], h_world = ()\<rparr>
      (bytes_of_string ''/etc/passwd'' @ [0]) 0 None
    = Ret (Err 13, \<lparr>h_addr = 4096, h_block = [1, 2, 3], h_actions = [], h_world = ()\<rparr>)"
  using denied_calls_stay_local [of "\<lparr>h_addr = 4096, h_block = [1, 2, 3], h_actions = [], h_world = ()\<rparr>"
      "bytes_of_string ''/etc/passwd'' @ [0]" 0 0 "\<lambda>w b. (Ok (), (\<lambda>_. 0), w)" None]
  by (simp add: usable_block_def usize_limit_def dvd_eq_mod_eq_0 bytes_of_string_def libc_consts)

section \<open>Signals\<close>

lemma uint_as_usize: "uint (as_usize x) = sint x mod 2 ^ 64"
  by (simp only: scast_eq uint_word_of_int) simp

lemma unat_as_usize: "0 \<le> sint x \<Longrightarrow> unat (as_usize x) = nat (sint x)"
  using uint_as_usize [of x] sint_less [of x] by (simp add: unat_eq_nat_uint)

lemma unat_as_usize_negative: "sint x < 0 \<Longrightarrow> 64 \<le> unat (as_usize x)"
proof -
  assume neg: "sint x < 0"
  have "- (2 ^ 31) \<le> sint x"
    using sint_greater_eq [of x] by simp
  with neg have "(sint x + 2 ^ 64) mod 2 ^ 64 = sint x + 2 ^ 64"
    by (intro mod_pos_pos_trivial) auto
  then have "sint x mod 2 ^ 64 = sint x + 2 ^ 64"
    by simp
  with \<open>- (2 ^ 31) \<le> sint x\<close> show ?thesis
    using uint_as_usize [of x] by (simp add: unat_eq_nat_uint)
qed

text \<open>C34: \<^verbatim>\<open>rt_sigaction\<close> never asks the host. For a signal number from 0 to 63 and a set size
  of 8 it stores the new action, if there is one, in the slot of that signal only, and reports the
  action that was there before; a number of 64 or more, or another set size, is
  \<^verbatim>\<open>EINVAL\<close>; a negative number passes the check and panics as soon as the slot is used.\<close>

theorem rt_sigaction_behaviour:
  assumes "length (h_actions h) = 64"
  shows "handler_rt_sigaction h signum act oldact sz =
    (if 64 \<le> sint signum \<or> sz \<noteq> 8 then Ret (Err EINVAL, oldact, h)
     else if sint signum < 0 then
       (if act = None \<and> oldact = None then Ret (Ok (), None, h) else Panic)
     else Ret (Ok (), map_option (\<lambda>_. h_actions h ! nat (sint signum)) oldact,
       h\<lparr>h_actions := (case act of None \<Rightarrow> h_actions h
           | Some a \<Rightarrow> (h_actions h)[nat (sint signum) := Some a])\<rparr>))"
proof -
  have m: "sint SIGRTMAX = 64"
    by (simp add: SIGRTMAX_def)
  consider (high) "64 \<le> sint signum \<or> sz \<noteq> 8" | (neg) "sz = 8" "sint signum < 0"
    | (ok) "sz = 8" "0 \<le> sint signum" "sint signum < 64" by linarith
  then show ?thesis
  proof cases
    case high
    then show ?thesis by (auto simp: handler_rt_sigaction_def m)
  next
    case neg
    with unat_as_usize_negative [of signum] assms show ?thesis
      by (cases act; cases oldact) (auto simp: handler_rt_sigaction_def m)
  next
    case ok
    with unat_as_usize [of signum] assms show ?thesis
      by (cases act; cases oldact) (auto simp: handler_rt_sigaction_def m Let_def)
  qed
qed

theorem rt_sigaction_behaviour_witness:
  "handler_rt_sigaction \<lparr>h_addr = 0, h_block = [], h_actions = thread_local_storage_new, h_world = ()\<rparr>
     (- 1) (Some []) None 8 = Panic"
  by (subst rt_sigaction_behaviour) (simp_all add: thread_local_storage_new_def SIGRTMAX_def)

end
