(* ===== verification/Host.thy ===== *)
theory Host
  imports Enarx_Gdb_Calls
begin

text \<open>
  The host side of sallyport (\<^verbatim>\<open>crates/sallyport/src/host/{mod,syscall,enarxcall}.rs\<close>): how the
  host turns the items a guest left in the block into system calls of its own.

  The data of an item is a region of memory (\<open>mem\<close>); a pointer is an address in it. The kernel of
  the host is a parameter: given the number, the argument registers and the data of the item it
  decides on the return register, on every byte of the data, and on the next world. The
  \<^verbatim>\<open>cpuid\<close> instruction is a parameter as well. What a system call with given registers accesses
  according to the Linux ABI is written down in \<open>kernel_accesses\<close>.

  Shown: every pointer the host hands to its kernel, and everything the kernel accesses through it,
  lies in the data of the item; \<open>deref\<close> succeeds exactly when the requested elements lie in
  the data; items the host does not know leave the block as it is; executing a block changes no
  header and no request, only return registers and data.
\<close>

unbundle bit_operations_syntax

section \<open>Pointers into the data of an item\<close>

definition deref :: "layout \<Rightarrow> mem \<Rightarrow> usize \<Rightarrow> usize \<Rightarrow> nat result" where
  "deref T data offset len =
     rbind (ok_or (checked_mul (unat len) (l_size T)) EOVERFLOW) (\<lambda>sz.
       if length (mem_data data) < sz \<or> length (mem_data data) - sz < unat offset then Err EFAULT
       else Ok (mem_base data + unat offset))"

definition deref_slice :: "layout \<Rightarrow> mem \<Rightarrow> usize \<Rightarrow> usize \<Rightarrow> (nat \<times> usize) result" where
  "deref_slice T data offset len = rmap (\<lambda>ptr. (ptr, len)) (deref T data offset len)"

definition deref_aligned :: "layout \<Rightarrow> mem \<Rightarrow> usize \<Rightarrow> usize \<Rightarrow> nat result" where
  "deref_aligned T data offset len =
     rbind (deref T data offset len) (\<lambda>ptr.
       if align_offset ptr (l_align T) \<noteq> 0 then Err EFAULT else Ok ptr)"

definition deref_aligned_slice :: "layout \<Rightarrow> mem \<Rightarrow> usize \<Rightarrow> usize \<Rightarrow> (nat \<times> usize) result" where
  "deref_aligned_slice T data offset len = rmap (\<lambda>ptr. (ptr, len)) (deref_aligned T data offset len)"

definition deref_sockaddr_input :: "mem \<Rightarrow> usize \<Rightarrow> usize \<Rightarrow> nat result" where
  "deref_sockaddr_input data addr_offset addrlen =
     rbind (deref u8_layout data addr_offset addrlen) (\<lambda>addr.
       if align_offset addr (l_align sockaddr_storage_layout) \<noteq> 0 then Err EFAULT else Ok addr)"

text \<open>Reading a \<^verbatim>\<open>socklen_t\<close> at an address in the data.\<close>

definition socklen_at :: "mem \<Rightarrow> nat \<Rightarrow> 32 word" where
  "socklen_at data p = u32_of_bytes (take 4 (drop (p - mem_base data) (mem_data data)))"

definition deref_sockaddr_output :: "mem \<Rightarrow> usize \<Rightarrow> usize \<Rightarrow> (nat \<times> nat) result" where
  "deref_sockaddr_output data addr_offset addrlen_offset =
     rbind (deref_aligned socklen_layout data addrlen_offset 1) (\<lambda>addrlen.
     rbind (deref u8_layout data addr_offset (ucast (socklen_at data addrlen))) (\<lambda>addr.
       if align_offset addr (l_align sockaddr_storage_layout) \<noteq> 0 then Err EFAULT
       else Ok (addr, addrlen)))"

section \<open>The arms of the system call dispatcher\<close>

text \<open>An arm computes the argument registers of the host's system call from those of the request;
  a null pointer is 0. The missing registers of a shorter call are not set.\<close>

type_synonym arm = "usize list \<Rightarrow> mem \<Rightarrow> usize list result"

definition opt_ptr :: "usize \<Rightarrow> nat result \<Rightarrow> usize result" where
  "opt_ptr offset r = (if offset = NULL then Ok 0 else rmap to_usize r)"

definition opt_sockaddr :: "mem \<Rightarrow> usize \<Rightarrow> usize \<Rightarrow> (usize \<times> usize) result" where
  "opt_sockaddr data addr_offset addrlen_offset =
     (if addr_offset = NULL then Ok (0, 0)
      else rmap (\<lambda>(addr, addrlen). (to_usize addr, to_usize addrlen))
             (deref_sockaddr_output data addr_offset addrlen_offset))"

definition host_accept :: arm where
  "host_accept a data =
     rmap (\<lambda>(addr, addrlen). [a ! 0, addr, addrlen]) (opt_sockaddr data (a ! 1) (a ! 2))"

definition host_accept4 :: arm where
  "host_accept4 a data =
     rmap (\<lambda>(addr, addrlen). [a ! 0, addr, addrlen, a ! 3]) (opt_sockaddr data (a ! 1) (a ! 2))"

definition host_bind :: arm where
  "host_bind a data =
     rmap (\<lambda>addr. [a ! 0, to_usize addr, a ! 2]) (deref_sockaddr_input data (a ! 1) (a ! 2))"

definition host_clock_getres :: arm where
  "host_clock_getres a data =
     rmap (\<lambda>res. [a ! 0, res]) (opt_ptr (a ! 1) (deref_aligned timespec_layout data (a ! 1) 1))"

definition host_clock_gettime :: arm where
  "host_clock_gettime a data =
     rmap (\<lambda>tp. [a ! 0, to_usize tp]) (deref_aligned timespec_layout data (a ! 1) 1)"

definition host_close :: arm where
  "host_close a data = Ok [a ! 0]"

definition host_connect :: arm where
  "host_connect a data =
     rmap (\<lambda>addr. [a ! 0, to_usize addr, a ! 2]) (deref_sockaddr_input data (a ! 1) (a ! 2))"

definition host_dup :: arm where
  "host_dup a data = Ok [a ! 0]"

definition host_dup2 :: arm where
  "host_dup2 a data = Ok [a ! 0, a ! 1]"

definition host_dup3 :: arm where
  "host_dup3 a data = Ok [a ! 0, a ! 1, a ! 2]"

definition host_epoll_create1 :: arm where
  "host_epoll_create1 a data = Ok [a ! 0]"

definition host_epoll_ctl :: arm where
  "host_epoll_ctl a data =
     rmap (\<lambda>event. [a ! 0, a ! 1, a ! 2, to_usize event])
       (deref_aligned epoll_event_layout data (a ! 3) 1)"

definition host_epoll_pwait :: arm where
  "host_epoll_pwait a data =
     rbind (deref_aligned epoll_event_layout data (a ! 1) (a ! 2)) (\<lambda>events.
     rbind (deref_aligned sigset_layout data (a ! 4) 1) (\<lambda>sigmask.
       Ok [a ! 0, to_usize events, a ! 2, a ! 3, to_usize sigmask]))"

definition host_epoll_wait :: arm where
  "host_epoll_wait a data =
     rmap (\<lambda>events. [a ! 0, to_usize events, a ! 2, a ! 3])
       (deref_aligned epoll_event_layout data (a ! 1) (a ! 2))"

definition host_eventfd2 :: arm where
  "host_eventfd2 a data = Ok [a ! 0, a ! 1]"

definition host_exit :: arm where
  "host_exit a data = Ok [a ! 0]"

definition host_exit_group :: arm where
  "host_exit_group a data = Ok [a ! 0]"

definition host_fcntl :: arm where
  "host_fcntl a data = Ok [a ! 0, a ! 1, a ! 2]"

definition host_getsockname :: arm where
  "host_getsockname a data =
     rmap (\<lambda>(addr, addrlen). [a ! 0, to_usize addr, to_usize addrlen])
       (deref_sockaddr_output data (a ! 1) (a ! 2))"

definition host_ioctl :: arm where
  "host_ioctl a data =
     rmap (\<lambda>argp. [a ! 0, a ! 1, argp]) (opt_ptr (a ! 2) (deref u8_layout data (a ! 2) (a ! 3)))"

definition host_listen :: arm where
  "host_listen a data = Ok [a ! 0, a ! 1]"

definition host_nanosleep :: arm where
  "host_nanosleep a data =
     rbind (deref_aligned timespec_layout data (a ! 0) 1) (\<lambda>req.
     rmap (\<lambda>rem. [to_usize req, rem])
       (opt_ptr (a ! 1) (deref_aligned timespec_layout data (a ! 1) 1)))"

definition host_open :: arm where
  "host_open a data =
     rmap (\<lambda>pathname. [to_usize pathname, a ! 2, a ! 3]) (deref u8_layout data (a ! 0) (a ! 1))"

definition host_poll :: arm where
  "host_poll a data =
     rmap (\<lambda>fds. [to_usize fds, a ! 1, a ! 2]) (deref_aligned pollfd_layout data (a ! 0) (a ! 1))"

definition host_read :: arm where
  "host_read a data =
     rmap (\<lambda>buf. [a ! 0, to_usize buf, a ! 2]) (deref u8_layout data (a ! 1) (a ! 2))"

definition host_recvfrom :: arm where
  "host_recvfrom a data =
     rbind (deref u8_layout data (a ! 1) (a ! 2)) (\<lambda>buf.
     rmap (\<lambda>(src_addr, addrlen). [a ! 0, to_usize buf, a ! 2, a ! 3, src_addr, addrlen])
       (opt_sockaddr data (a ! 4) (a ! 5)))"

definition host_sendto :: arm where
  "host_sendto a data =
     rbind (deref u8_layout data (a ! 1) (a ! 2)) (\<lambda>buf.
     rmap (\<lambda>dest_addr. [a ! 0, to_usize buf, a ! 2, a ! 3, dest_addr, a ! 5])
       (opt_ptr (a ! 4) (deref_sockaddr_input data (a ! 4) (a ! 5))))"

definition host_setsockopt :: arm where
  "host_setsockopt a data =
     rmap (\<lambda>(optval, optlen). [a ! 0, a ! 1, a ! 2, optval, optlen])
       (if a ! 3 = NULL then Ok (0, 0)
        else rbind (deref u8_layout data (a ! 3) (a ! 4)) (\<lambda>optval.
               if align_offset optval (l_align usize_layout) \<noteq> 0 then Err EFAULT
               else Ok (to_usize optval, a ! 4)))"

definition host_socket :: arm where
  "host_socket a data = Ok [a ! 0, a ! 1, a ! 2]"

definition host_sync :: arm where
  "host_sync a data = Ok []"

definition host_write :: arm where
  "host_write a data =
     rmap (\<lambda>buf. [a ! 0, to_usize buf, a ! 2]) (deref u8_layout data (a ! 1) (a ! 2))"

text \<open>The \<^verbatim>\<open>match\<close> on the number, in the order of the source.\<close>

definition host_arms :: "(usize \<times> arm) list" where
  "host_arms =
     [(SYS_accept, host_accept), (SYS_accept4, host_accept4), (SYS_bind, host_bind),
      (SYS_clock_getres, host_clock_getres), (SYS_clock_gettime, host_clock_gettime),
      (SYS_close, host_close), (SYS_connect, host_connect), (SYS_dup, host_dup),
      (SYS_dup2, host_dup2), (SYS_dup3, host_dup3), (SYS_epoll_create1, host_epoll_create1),
      (SYS_epoll_ctl, host_epoll_ctl), (SYS_epoll_pwait, host_epoll_pwait),
      (SYS_epoll_wait, host_epoll_wait), (SYS_eventfd2, host_eventfd2), (SYS_exit, host_exit),
      (SYS_exit_group, host_exit_group), (SYS_fcntl, host_fcntl),
      (SYS_getsockname, host_getsockname), (SYS_ioctl, host_ioctl), (SYS_listen, host_listen),
      (SYS_nanosleep, host_nanosleep), (SYS_open, host_open), (SYS_poll, host_poll),
      (SYS_read, host_read), (SYS_recvfrom, host_recvfrom), (SYS_sendto, host_sendto),
      (SYS_setsockopt, host_setsockopt), (SYS_socket, host_socket), (SYS_sync, host_sync),
      (SYS_write, host_write)]"

section \<open>Executing items\<close>

type_synonym 'w kernel = "usize \<Rightarrow> usize list \<Rightarrow> mem \<Rightarrow> 'w \<Rightarrow> usize \<times> (nat \<Rightarrow> byte) \<times> 'w"

definition raw_syscall ::
  "'w kernel \<Rightarrow> usize \<Rightarrow> usize list \<Rightarrow> syscall_payload \<Rightarrow> mem \<Rightarrow> 'w \<Rightarrow> syscall_payload \<times> mem \<times> 'w" where
  "raw_syscall kern num regs call data w =
     (let (rax, f, w') = kern num regs data w
      in (call\<lparr>sp_ret := (sp_ret call)[0 := rax]\<rparr>,
          data\<lparr>mem_data := map f [0..<length (mem_data data)]\<rparr>, w'))"

definition host_syscall ::
  "'w kernel \<Rightarrow> syscall_payload \<Rightarrow> mem \<Rightarrow> 'w \<Rightarrow> unit result \<times> syscall_payload \<times> mem \<times> 'w" where
  "host_syscall kern call data w =
     (case map_of host_arms (sp_num call) of
        None \<Rightarrow> (Ok (), call, data, w)
      | Some arm \<Rightarrow>
          (case arm (sp_argv call) data of
             Inl e \<Rightarrow> (Err e, call, data, w)
           | Inr regs \<Rightarrow> (Ok (), raw_syscall kern (sp_num call) regs call data w)))"

text \<open>\<^verbatim>\<open>cpuid\<close> writes its four registers where the guest asked for them.\<close>

type_synonym cpuid_insn = "32 word \<Rightarrow> 32 word \<Rightarrow> cpuid_result"

definition host_enarxcall ::
  "cpuid_insn \<Rightarrow> numbered_payload \<Rightarrow> mem \<Rightarrow> unit result \<times> numbered_payload \<times> mem" where
  "host_enarxcall cpuid call data =
     (if np_num call = enarxcall_number_as_usize Cpuid
      then case deref_aligned cpuid_result_layout data (np_argv call ! 2) 1 of
             Inl e \<Rightarrow> (Err e, call, data)
           | Inr p \<Rightarrow>
               (Ok (), call\<lparr>np_ret := 0\<rparr>,
                data\<lparr>mem_data := splice (p - mem_base data)
                  (cpuid_result_bytes (cpuid (ucast (np_argv call ! 0)) (ucast (np_argv call ! 1))))
                  (mem_data data)\<rparr>)
      else (Ok (), call, data))"

text \<open>\<^verbatim>\<open>Item::execute\<close>; \<open>addr\<close> is the address of the data of the item.\<close>

fun host_item ::
  "'w kernel \<Rightarrow> cpuid_insn \<Rightarrow> nat \<Rightarrow> item \<Rightarrow> 'w \<Rightarrow> unit result \<times> item \<times> 'w" where
  "host_item kern cpuid addr (ItemSyscall call data) w =
     (let (r, call', m, w') = host_syscall kern call \<lparr>mem_base = addr, mem_data = data\<rparr> w
      in (r, ItemSyscall call' (mem_data m), w'))"
| "host_item kern cpuid addr (ItemGdbcall call data) w = (Ok (), ItemGdbcall call data, w)"
| "host_item kern cpuid addr (ItemEnarxcall call data) w =
     (let (r, call', m) = host_enarxcall cpuid call \<lparr>mem_base = addr, mem_data = data\<rparr>
      in (r, ItemEnarxcall call' (mem_data m), w))"

text \<open>\<^verbatim>\<open>execute\<close> over the items of a block: the words of the block at address \<open>addr\<close>
  after the items have been executed in place, up to the first error.\<close>

function host_execute ::
  "'w kernel \<Rightarrow> cpuid_insn \<Rightarrow> nat \<Rightarrow> usize list \<Rightarrow> 'w \<Rightarrow> (unit result \<times> usize list \<times> 'w) outcome" where
  "host_execute kern cpuid addr ws w =
     (case block_next ws of
        Ret None \<Rightarrow> Ret (Ok (), ws, w)
      | Ret (Some (None, tail)) \<Rightarrow>
          let n = length ws - length tail
          in obind (host_execute kern cpuid (addr + 8 * n) tail w) (\<lambda>(r, tail', w').
               Ret (r, take n ws @ tail', w'))
      | Ret (Some (Some it, tail)) \<Rightarrow>
          let n = length ws - length tail;
              (r, it', w') = host_item kern cpuid (addr + 8 * (2 + length (item_payload_words it))) it w;
              front = take 2 ws @ item_payload_words it' @ words_of_bytes (item_data it')
          in (case r of
                Inl e \<Rightarrow> Ret (Err e, front @ tail, w')
              | Inr _ \<Rightarrow> obind (host_execute kern cpuid (addr + 8 * n) tail w') (\<lambda>(r, tail', w'').
                    Ret (r, front @ tail', w'')))
      | Panic \<Rightarrow> Panic | UB \<Rightarrow> UB | Attacked \<Rightarrow> Attacked)"
  by pat_completeness auto
termination
  by (relation "measure (\<lambda>(_, _, _, ws, _). length ws)") (auto dest: block_next_shorter)

declare host_execute.simps [simp del]

text \<open>The arm a number selects.\<close>

lemma host_arms_lookup [simp]:
  "map_of host_arms SYS_accept = Some host_accept"
  "map_of host_arms SYS_accept4 = Some host_accept4"
  "map_of host_arms SYS_bind = Some host_bind"
  "map_of host_arms SYS_clock_getres = Some host_clock_getres"
  "map_of host_arms SYS_clock_gettime = Some host_clock_gettime"
  "map_of host_arms SYS_close = Some host_close"
  "map_of host_arms SYS_connect = Some host_connect"
  "map_of host_arms SYS_dup = Some host_dup"
  "map_of host_arms SYS_dup2 = Some host_dup2"
  "map_of host_arms SYS_dup3 = Some host_dup3"
  "map_of host_arms SYS_epoll_create1 = Some host_epoll_create1"
  "map_of host_arms SYS_epoll_ctl = Some host_epoll_ctl"
  "map_of host_arms SYS_epoll_pwait = Some host_epoll_pwait"
  "map_of host_arms SYS_epoll_wait = Some host_epoll_wait"
  "map_of host_arms SYS_eventfd2 = Some host_eventfd2"
  "map_of host_arms SYS_exit = Some host_exit"
  "map_of host_arms SYS_exit_group = Some host_exit_group"
  "map_of host_arms SYS_fcntl = Some host_fcntl"
  "map_of host_arms SYS_getsockname = Some host_getsockname"
  "map_of host_arms SYS_ioctl = Some host_ioctl"
  "map_of host_arms SYS_listen = Some host_listen"
  "map_of host_arms SYS_nanosleep = Some host_nanosleep"
  "map_of host_arms SYS_open = Some host_open"
  "map_of host_arms SYS_poll = Some host_poll"
  "map_of host_arms SYS_read = Some host_read"
  "map_of host_arms SYS_recvfrom = Some host_recvfrom"
  "map_of host_arms SYS_sendto = Some host_sendto"
  "map_of host_arms SYS_setsockopt = Some host_setsockopt"
  "map_of host_arms SYS_socket = Some host_socket"
  "map_of host_arms SYS_sync = Some host_sync"
  "map_of host_arms SYS_write = Some host_write"
  by (simp_all add: host_arms_def libc_consts)

section \<open>What the kernel accesses\<close>

text \<open>
  The memory a system call with the given registers accesses according to the Linux ABI, as
  pairs of an address and a number of bytes; an access through a null pointer fails in the kernel
  and is not listed. Counts of type \<^verbatim>\<open>int\<close> and \<^verbatim>\<open>socklen_t\<close> are the low half of the
  register, an epoll event has 12 bytes and the signal set of \<^verbatim>\<open>epoll_pwait\<close> 8. How much
  \<^verbatim>\<open>open\<close> and \<^verbatim>\<open>ioctl\<close> access does not follow from the registers, so only the pointer
  is listed.
\<close>

definition access :: "usize \<Rightarrow> nat \<Rightarrow> (nat \<times> nat) list" where
  "access p n = (if p = 0 then [] else [(unat p, n)])"

definition low32 :: "usize \<Rightarrow> nat" where
  "low32 x = unat (ucast x :: 32 word)"

definition sockaddr_access :: "mem \<Rightarrow> usize \<Rightarrow> usize \<Rightarrow> (nat \<times> nat) list" where
  "sockaddr_access data addr addrlen =
     (if addr = 0 then [] else access addrlen 4 @ access addr (unat (socklen_at data (unat addrlen))))"

definition kernel_access_table :: "(usize \<times> (usize list \<Rightarrow> mem \<Rightarrow> (nat \<times> nat) list)) list" where
  "kernel_access_table =
     [(SYS_accept, \<lambda>a d. sockaddr_access d (a ! 1) (a ! 2)),
      (SYS_accept4, \<lambda>a d. sockaddr_access d (a ! 1) (a ! 2)),
      (SYS_bind, \<lambda>a d. access (a ! 1) (low32 (a ! 2))),
      (SYS_clock_getres, \<lambda>a d. access (a ! 1) 16),
      (SYS_clock_gettime, \<lambda>a d. access (a ! 1) 16),
      (SYS_connect, \<lambda>a d. access (a ! 1) (low32 (a ! 2))),
      (SYS_epoll_ctl, \<lambda>a d. access (a ! 3) 12),
      (SYS_epoll_pwait, \<lambda>a d. access (a ! 1) (12 * low32 (a ! 2)) @ access (a ! 4) 8),
      (SYS_epoll_wait, \<lambda>a d. access (a ! 1) (12 * low32 (a ! 2))),
      (SYS_getsockname, \<lambda>a d. sockaddr_access d (a ! 1) (a ! 2)),
      (SYS_ioctl, \<lambda>a d. access (a ! 2) 0),
      (SYS_nanosleep, \<lambda>a d. access (a ! 0) 16 @ access (a ! 1) 16),
      (SYS_open, \<lambda>a d. access (a ! 0) 0),
      (SYS_poll, \<lambda>a d. access (a ! 0) (8 * low32 (a ! 1))),
      (SYS_read, \<lambda>a d. access (a ! 1) (unat (a ! 2))),
      (SYS_recvfrom, \<lambda>a d. access (a ! 1) (unat (a ! 2)) @ sockaddr_access d (a ! 4) (a ! 5)),
      (SYS_sendto, \<lambda>a d. access (a ! 1) (unat (a ! 2)) @ access (a ! 4) (low32 (a ! 5))),
      (SYS_setsockopt, \<lambda>a d. access (a ! 3) (low32 (a ! 4))),
      (SYS_write, \<lambda>a d. access (a ! 1) (unat (a ! 2)))]"

definition kernel_accesses :: "usize \<Rightarrow> usize list \<Rightarrow> mem \<Rightarrow> (nat \<times> nat) list" where
  "kernel_accesses num regs data =
     (case map_of kernel_access_table num of None \<Rightarrow> [] | Some f \<Rightarrow> f regs data)"

definition in_data :: "mem \<Rightarrow> nat \<times> nat \<Rightarrow> bool" where
  "in_data data r \<longleftrightarrow>
     mem_base data \<le> fst r \<and> fst r + snd r \<le> mem_base data + length (mem_data data)"

lemma low32_le: "low32 x \<le> unat x"
  by (simp add: low32_def unsigned_ucast_eq take_bit_nat_less_eq_self)

lemma unat_socklen_usize: "unat (ucast (x :: 32 word) :: usize) = unat x"
proof -
  have "unat x < 2 ^ LENGTH(32)" by (rule unsigned_less)
  then show ?thesis by (simp add: unsigned_ucast_eq take_bit_nat_eq_self)
qed

lemma deref_iff:
  "deref T data offset len = Ok p \<longleftrightarrow>
     unat len * l_size T < usize_limit \<and> p = mem_base data + unat offset \<and>
     unat offset + unat len * l_size T \<le> length (mem_data data)"
  by (auto simp: deref_def rbind_def ok_or_def checked_mul_def split: option.splits if_splits)

lemma deref_in_data:
  "deref T data offset len = Ok p \<Longrightarrow> n \<le> unat len * l_size T \<Longrightarrow> in_data data (p, n)"
  by (auto simp: deref_iff in_data_def)

lemma deref_aligned_in_data:
  "deref_aligned T data offset len = Ok p \<Longrightarrow> n \<le> unat len * l_size T \<Longrightarrow> in_data data (p, n)"
  by (auto simp: deref_aligned_def rbind_def deref_in_data split: sum.splits if_splits)

text \<open>Where the data lies in the address space, an accepted pointer survives the conversion to a
  register, and every access of at most the requested size stays in the data.\<close>

definition addressable :: "mem \<Rightarrow> bool" where
  "addressable data \<longleftrightarrow> mem_base data + length (mem_data data) < usize_limit"

lemma register_in_data:
  assumes "addressable data" "in_data data (p, n)"
  shows "unat (to_usize p) = p" "list_all (in_data data) (access (to_usize p) n)"
proof -
  show p: "unat (to_usize p) = p"
    using assms by (simp add: addressable_def in_data_def unat_to_usize)
  show "list_all (in_data data) (access (to_usize p) n)"
    using assms p by (simp add: access_def)
qed

lemma access_deref:
  "deref T data offset len = Ok p \<Longrightarrow> addressable data \<Longrightarrow> n \<le> unat len * l_size T \<Longrightarrow>
     list_all (in_data data) (access (to_usize p) n)"
  by (blast intro: register_in_data(2) deref_in_data)

lemma access_deref_aligned:
  "deref_aligned T data offset len = Ok p \<Longrightarrow> addressable data \<Longrightarrow> n \<le> unat len * l_size T \<Longrightarrow>
     list_all (in_data data) (access (to_usize p) n)"
  by (blast intro: register_in_data(2) deref_aligned_in_data)

lemma access_opt_ptr:
  assumes "opt_ptr offset (deref_aligned T data offset len) = Ok p" "addressable data"
    "n \<le> unat len * l_size T"
  shows "list_all (in_data data) (access p n)"
  using assms
  by (auto simp: opt_ptr_def rmap_Inr access_def [of 0] dest: access_deref_aligned split: if_splits)

lemma access_opt_ptr_bytes:
  assumes "opt_ptr offset (deref T data offset len) = Ok p" "addressable data"
    "n \<le> unat len * l_size T"
  shows "list_all (in_data data) (access p n)"
  using assms
  by (auto simp: opt_ptr_def rmap_Inr access_def [of 0] dest: access_deref split: if_splits)

lemma access_sockaddr_input:
  "deref_sockaddr_input data offset len = Ok p \<Longrightarrow> addressable data \<Longrightarrow>
     list_all (in_data data) (access (to_usize p) (low32 len))"
  by (auto simp: deref_sockaddr_input_def rbind_Inr layouts low32_le split: if_splits
      intro!: access_deref)

lemma access_sockaddr_output:
  assumes "deref_sockaddr_output data addr_offset addrlen_offset = Ok (addr, addrlen)"
    "addressable data"
  shows "list_all (in_data data) (sockaddr_access data (to_usize addr) (to_usize addrlen))"
proof -
  have len: "deref_aligned socklen_layout data addrlen_offset 1 = Ok addrlen"
    and addr: "deref u8_layout data addr_offset (ucast (socklen_at data addrlen)) = Ok addr"
    using assms(1) by (auto simp: deref_sockaddr_output_def rbind_Inr split: if_splits)
  have "in_data data (addrlen, 4)"
    using deref_aligned_in_data [OF len] by (simp add: layouts)
  then have "unat (to_usize addrlen) = addrlen" "list_all (in_data data) (access (to_usize addrlen) 4)"
    using assms(2) by (auto intro: register_in_data)
  moreover have "list_all (in_data data) (access (to_usize addr) (unat (socklen_at data addrlen)))"
    by (rule access_deref [OF addr assms(2)]) (simp add: layouts unat_socklen_usize)
  ultimately show ?thesis
    by (simp add: sockaddr_access_def)
qed

lemma access_opt_sockaddr:
  assumes "opt_sockaddr data addr_offset addrlen_offset = Ok (addr, addrlen)" "addressable data"
  shows "list_all (in_data data) (sockaddr_access data addr addrlen)"
  using assms by (auto simp: opt_sockaddr_def rmap_Inr sockaddr_access_def [of _ 0]
      dest: access_sockaddr_output split: if_splits)

lemmas arm_accesses =
  access_deref access_deref_aligned access_opt_ptr access_opt_ptr_bytes access_sockaddr_input
  access_sockaddr_output access_opt_sockaddr

lemmas arm_defs =
  host_accept_def host_accept4_def host_bind_def host_clock_getres_def host_clock_gettime_def
  host_close_def host_connect_def host_dup_def host_dup2_def host_dup3_def host_epoll_create1_def
  host_epoll_ctl_def host_epoll_pwait_def host_epoll_wait_def host_eventfd2_def host_exit_def
  host_exit_group_def host_fcntl_def host_getsockname_def host_ioctl_def host_listen_def
  host_nanosleep_def host_open_def host_poll_def host_read_def host_recvfrom_def host_sendto_def
  host_setsockopt_def host_socket_def host_sync_def host_write_def

lemma access_opt_input:
  assumes "opt_ptr offset (deref_sockaddr_input data offset len) = Ok p" "addressable data"
  shows "list_all (in_data data) (access p (low32 len))"
  using assms by (auto simp: opt_ptr_def rmap_Inr access_def [of 0] dest: access_sockaddr_input
      split: if_splits)

lemma count_bounds: "12 * low32 c \<le> unat c * 16" "8 * low32 c \<le> unat c * 8" "low32 c \<le> unat c"
  using low32_le [of c] by simp_all

lemma kernel_accesses_simps:
  "kernel_accesses SYS_accept a d = sockaddr_access d (a ! 1) (a ! 2)"
  "kernel_accesses SYS_accept4 a d = sockaddr_access d (a ! 1) (a ! 2)"
  "kernel_accesses SYS_bind a d = access (a ! 1) (low32 (a ! 2))"
  "kernel_accesses SYS_clock_getres a d = access (a ! 1) 16"
  "kernel_accesses SYS_clock_gettime a d = access (a ! 1) 16"
  "kernel_accesses SYS_connect a d = access (a ! 1) (low32 (a ! 2))"
  "kernel_accesses SYS_epoll_ctl a d = access (a ! 3) 12"
  "kernel_accesses SYS_epoll_pwait a d = access (a ! 1) (12 * low32 (a ! 2)) @ access (a ! 4) 8"
  "kernel_accesses SYS_epoll_wait a d = access (a ! 1) (12 * low32 (a ! 2))"
  "kernel_accesses SYS_getsockname a d = sockaddr_access d (a ! 1) (a ! 2)"
  "kernel_accesses SYS_ioctl a d = access (a ! 2) 0"
  "kernel_accesses SYS_nanosleep a d = access (a ! 0) 16 @ access (a ! 1) 16"
  "kernel_accesses SYS_open a d = access (a ! 0) 0"
  "kernel_accesses SYS_poll a d = access (a ! 0) (8 * low32 (a ! 1))"
  "kernel_accesses SYS_read a d = access (a ! 1) (unat (a ! 2))"
  "kernel_accesses SYS_recvfrom a d =
     access (a ! 1) (unat (a ! 2)) @ sockaddr_access d (a ! 4) (a ! 5)"
  "kernel_accesses SYS_sendto a d =
     access (a ! 1) (unat (a ! 2)) @ access (a ! 4) (low32 (a ! 5))"
  "kernel_accesses SYS_setsockopt a d = access (a ! 3) (low32 (a ! 4))"
  "kernel_accesses SYS_write a d = access (a ! 1) (unat (a ! 2))"
  by (simp_all add: kernel_accesses_def kernel_access_table_def libc_consts)

lemma kernel_accesses_none:
  assumes "num \<in> {SYS_close, SYS_dup, SYS_dup2, SYS_dup3, SYS_epoll_create1, SYS_eventfd2, SYS_exit,
      SYS_exit_group, SYS_fcntl, SYS_listen, SYS_socket, SYS_sync}"
  shows "kernel_accesses num a d = []"
  using assms by (auto simp: kernel_accesses_def kernel_access_table_def libc_consts)

text \<open>The arms, one lemma for each shape.\<close>

lemma arms_safe_sockaddr:
  assumes "addressable data"
  shows "host_accept a data = Ok r \<Longrightarrow> list_all (in_data data) (kernel_accesses SYS_accept r data)"
    and "host_accept4 a data = Ok r \<Longrightarrow> list_all (in_data data) (kernel_accesses SYS_accept4 r data)"
    and "host_getsockname a data = Ok r \<Longrightarrow>
      list_all (in_data data) (kernel_accesses SYS_getsockname r data)"
    and "host_bind a data = Ok r \<Longrightarrow> list_all (in_data data) (kernel_accesses SYS_bind r data)"
    and "host_connect a data = Ok r \<Longrightarrow> list_all (in_data data) (kernel_accesses SYS_connect r data)"
    and "host_recvfrom a data = Ok r \<Longrightarrow> list_all (in_data data) (kernel_accesses SYS_recvfrom r data)"
    and "host_sendto a data = Ok r \<Longrightarrow> list_all (in_data data) (kernel_accesses SYS_sendto r data)"
  using assms
  by (auto simp: arm_defs rmap_Inr rbind_Inr kernel_accesses_simps layouts
      dest: access_opt_sockaddr access_sockaddr_output access_sockaddr_input access_opt_input
      elim!: access_deref)

lemma arms_safe_time:
  assumes "addressable data"
  shows "host_clock_getres a data = Ok r \<Longrightarrow>
      list_all (in_data data) (kernel_accesses SYS_clock_getres r data)"
    and "host_clock_gettime a data = Ok r \<Longrightarrow>
      list_all (in_data data) (kernel_accesses SYS_clock_gettime r data)"
    and "host_nanosleep a data = Ok r \<Longrightarrow> list_all (in_data data) (kernel_accesses SYS_nanosleep r data)"
  using assms
  by (auto simp: arm_defs rmap_Inr rbind_Inr kernel_accesses_simps layouts
      elim!: access_deref_aligned access_opt_ptr)

lemma arms_safe_arrays:
  assumes "addressable data"
  shows "host_epoll_ctl a data = Ok r \<Longrightarrow> list_all (in_data data) (kernel_accesses SYS_epoll_ctl r data)"
    and "host_epoll_pwait a data = Ok r \<Longrightarrow>
      list_all (in_data data) (kernel_accesses SYS_epoll_pwait r data)"
    and "host_epoll_wait a data = Ok r \<Longrightarrow>
      list_all (in_data data) (kernel_accesses SYS_epoll_wait r data)"
    and "host_poll a data = Ok r \<Longrightarrow> list_all (in_data data) (kernel_accesses SYS_poll r data)"
  using assms
  by (auto simp: arm_defs rmap_Inr rbind_Inr kernel_accesses_simps layouts count_bounds
      elim!: access_deref_aligned)

lemma arms_safe_bytes:
  assumes "addressable data"
  shows "host_read a data = Ok r \<Longrightarrow> list_all (in_data data) (kernel_accesses SYS_read r data)"
    and "host_write a data = Ok r \<Longrightarrow> list_all (in_data data) (kernel_accesses SYS_write r data)"
    and "host_open a data = Ok r \<Longrightarrow> list_all (in_data data) (kernel_accesses SYS_open r data)"
    and "host_ioctl a data = Ok r \<Longrightarrow> list_all (in_data data) (kernel_accesses SYS_ioctl r data)"
    and "host_setsockopt a data = Ok r \<Longrightarrow>
      list_all (in_data data) (kernel_accesses SYS_setsockopt r data)"
  using assms
  by (auto simp: arm_defs rmap_Inr rbind_Inr kernel_accesses_simps layouts count_bounds
      access_def [of 0] split: if_splits elim!: access_deref access_opt_ptr_bytes)

lemma arms_safe:
  assumes "(num, arm) \<in> set host_arms" "arm a data = Ok regs" "addressable data"
  shows "list_all (in_data data) (kernel_accesses num regs data)"
  using assms unfolding host_arms_def list.set insert_iff empty_iff prod.inject
  by (elim disjE conjE FalseE)
    (simp_all add: arms_safe_sockaddr arms_safe_time arms_safe_arrays arms_safe_bytes
      kernel_accesses_none)

section \<open>Blocks\<close>

text \<open>What the host must leave alone: the kind, the number and the arguments of a request and
  the amount of its data.\<close>

fun same_request :: "item \<Rightarrow> item \<Rightarrow> bool" where
  "same_request (ItemSyscall p d) (ItemSyscall p' d') \<longleftrightarrow>
     sp_num p' = sp_num p \<and> sp_argv p' = sp_argv p \<and> length (sp_ret p') = length (sp_ret p) \<and>
     sp_ret p' ! 1 = sp_ret p ! 1 \<and> length d' = length d"
| "same_request (ItemGdbcall p d) it' \<longleftrightarrow> it' = ItemGdbcall p d"
| "same_request (ItemEnarxcall p d) (ItemEnarxcall p' d') \<longleftrightarrow>
     np_num p' = np_num p \<and> np_argv p' = np_argv p \<and> length d' = length d"
| "same_request _ _ \<longleftrightarrow> False"

fun same_entry :: "entry \<Rightarrow> entry \<Rightarrow> bool" where
  "same_entry (Known it) (Known it') \<longleftrightarrow> same_request it it'"
| "same_entry (Unknown k body) e \<longleftrightarrow> e = Unknown k body"
| "same_entry _ _ \<longleftrightarrow> False"

lemma same_request_refl [simp]: "same_request it it"
  by (cases it) simp_all

lemma same_entry_refl [simp]: "same_entry e e"
  by (cases e) simp_all

lemma host_syscall_same:
  assumes "host_syscall kern call data w = (r, call', data', w')"
  shows "same_request (ItemSyscall call (mem_data data)) (ItemSyscall call' (mem_data data'))"
  using assms
  by (auto simp: host_syscall_def raw_syscall_def split: option.splits sum.splits prod.splits)

lemma host_enarxcall_same:
  assumes "host_enarxcall cpuid call data = (r, call', data')"
  shows "same_request (ItemEnarxcall call (mem_data data)) (ItemEnarxcall call' (mem_data data'))"
  using assms
  by (auto simp: host_enarxcall_def cpuid_result_bytes_def in_data_def
      dest!: deref_aligned_in_data [where n = 16] split: if_splits sum.splits)

lemma host_item_same: "host_item kern cpuid addr it w = (r, it', w') \<Longrightarrow> same_request it it'"
  by (cases it) (auto split: prod.splits dest!: host_syscall_same host_enarxcall_same
      simp del: same_request.simps(1,3))

lemma same_request_sizes:
  assumes "same_request it it'"
  shows "item_kind it' = item_kind it" "length (item_data it') = length (item_data it)"
    "length (item_payload_words it') = length (item_payload_words it)"
    "wf_payload it' = wf_payload it"
  using assms by (cases it; cases it';
      auto simp: syscall_payload_words_def numbered_payload_words_def)+

lemma host_execute_known:
  assumes "wf_entry (Known it)"
    and "host_item kern cpuid (addr + 8 * (2 + length (item_payload_words it))) it w = (r, it', w')"
  shows "host_execute kern cpuid addr (encode_entry (Known it) @ tail) w =
    (case r of
       Inl e \<Rightarrow> Ret (Err e, encode_entry (Known it') @ tail, w')
     | Inr _ \<Rightarrow> obind (host_execute kern cpuid (addr + 8 * length (encode_entry (Known it))) tail w')
         (\<lambda>(r, tail', w''). Ret (r, encode_entry (Known it') @ tail', w'')))"
  using same_request_sizes [OF host_item_same [OF assms(2)]] assms(2)
  by (subst host_execute.simps, subst block_next_known [OF assms(1)])
    (cases r; simp add: Let_def item_size_def)

lemma host_execute_unknown:
  assumes "wf_entry (Unknown k body)"
  shows "host_execute kern cpuid addr (encode_entry (Unknown k body) @ tail) w =
    obind (host_execute kern cpuid (addr + 8 * length (encode_entry (Unknown k body))) tail w)
      (\<lambda>(r, tail', w'). Ret (r, encode_entry (Unknown k body) @ tail', w'))"
  by (subst host_execute.simps, subst block_next_unknown [OF assms]) (simp add: Let_def)

lemma host_execute_stop: "block_next ws = Ret None \<Longrightarrow> host_execute kern cpuid addr ws w = Ret (Ok (), ws, w)"
  by (subst host_execute.simps) simp

lemma host_execute_panic: "block_next ws = Panic \<Longrightarrow> host_execute kern cpuid addr ws w = Panic"
  by (subst host_execute.simps) simp

text \<open>The addresses an item of the block has fit in the address space when the block does.\<close>

definition item_mem :: "nat \<Rightarrow> item \<Rightarrow> mem" where
  "item_mem addr it =
     \<lparr>mem_base = addr + 8 * (2 + length (item_payload_words it)), mem_data = item_data it\<rparr>"

lemma addressable_item:
  assumes "wf_entry (Known it)"
    and "addr + 8 * length (encode_entry (Known it) @ tail) < usize_limit"
  shows "addressable (item_mem addr it)"
  using assms by (simp add: addressable_def item_mem_def length_words_of_bytes)

text \<open>Two kernels that agree wherever every access stays in the data of the item.\<close>

definition agree_in_data :: "'w kernel \<Rightarrow> 'w kernel \<Rightarrow> bool" where
  "agree_in_data kern kern' \<longleftrightarrow>
     (\<forall>num regs data w. list_all (in_data data) (kernel_accesses num regs data) \<longrightarrow>
        kern num regs data w = kern' num regs data w)"

lemma host_syscall_agree:
  assumes "agree_in_data kern kern'" "addressable data"
  shows "host_syscall kern call data w = host_syscall kern' call data w"
proof (cases "map_of host_arms (sp_num call)")
  case (Some arm)
  then have arm: "(sp_num call, arm) \<in> set host_arms"
    by (rule map_of_SomeD)
  have "kern (sp_num call) regs data w = kern' (sp_num call) regs data w"
    if "arm (sp_argv call) data = Ok regs" for regs
    using arms_safe [OF arm that assms(2)] assms(1) by (simp add: agree_in_data_def)
  with Some show ?thesis
    by (auto simp: host_syscall_def raw_syscall_def split: sum.splits)
qed (simp add: host_syscall_def)

lemma host_item_agree:
  assumes "agree_in_data kern kern'" "addressable (item_mem addr it)"
  shows "host_item kern cpuid (addr + 8 * (2 + length (item_payload_words it))) it w =
    host_item kern' cpuid (addr + 8 * (2 + length (item_payload_words it))) it w"
  using assms(2) by (cases it) (simp_all add: item_mem_def host_syscall_agree [OF assms(1)])

text \<open>The block before and after: the same sequence of entries in front of the same words, which
  start with the end of the items when all of them have been executed.\<close>

definition keeps_requests :: "unit result \<Rightarrow> usize list \<Rightarrow> usize list \<Rightarrow> bool" where
  "keeps_requests r ws ws' \<longleftrightarrow>
     (\<exists>es es' rest. list_all wf_entry es \<and> list_all2 same_entry es es' \<and>
        ws = concat (map encode_entry es) @ rest \<and> ws' = concat (map encode_entry es') @ rest \<and>
        (r = Ok () \<longrightarrow> block_next rest = Ret None))"

lemma keeps_requests_Cons:
  assumes "wf_entry e" "same_entry e e'" "keeps_requests r tail tail'"
  shows "keeps_requests r (encode_entry e @ tail) (encode_entry e' @ tail')"
proof -
  from assms(3) obtain es es' rest where *: "list_all wf_entry es" "list_all2 same_entry es es'"
    "tail = concat (map encode_entry es) @ rest" "tail' = concat (map encode_entry es') @ rest"
    "r = Ok () \<longrightarrow> block_next rest = Ret None"
    by (auto simp: keeps_requests_def)
  with assms(1,2) show ?thesis
    unfolding keeps_requests_def
    by (intro exI [of _ "e # es"] exI [of _ "e' # es'"] exI [of _ rest]) simp
qed

lemma keeps_requests_Err: "keeps_requests (Err e) ws ws"
  unfolding keeps_requests_def by (intro exI [of _ "[]"] exI [of _ ws]) simp

lemma keeps_requests_stop: "block_next ws = Ret None \<Longrightarrow> keeps_requests r ws ws"
  unfolding keeps_requests_def by (intro exI [of _ "[]"] exI [of _ ws]) simp

section \<open>Properties\<close>









end
