(* ===== verification/Requests.thy ===== *)
theory Requests
  imports Handler_Laws Host
begin

text \<open>
  The two sides of sallyport together: what the block looks like when the guest hands it to the
  host, and what comes of a system call when the host runs \<open>host_execute\<close> over that block.

  A request starts with the header, the number, the argument registers and the return registers,
  so that its data begins 88 bytes into the block; the data is rounded up to whole words and the
  end header follows. \<open>execute_request\<close> states this for every system call that keeps its
  contract, as an equation for \<^verbatim>\<open>Handler::execute\<close> with an arbitrary host. The properties
  instantiate it with the host of this repository.
\<close>

section \<open>Memory in adjacent pieces\<close>

lemma mem_read_append:
  assumes "mem_read a n m = Some xs" "mem_read b k m = Some ys" "b = a + n" "t = n + k"
  shows "mem_read a t m = Some (xs @ ys)"
proof -
  have b: "mem_base m \<le> a" "a + (n + k) \<le> mem_base m + length (mem_data m)"
    and x: "xs = take n (drop (a - mem_base m) (mem_data m))"
      "ys = take k (drop (a + n - mem_base m) (mem_data m))"
    using assms(1-3) by (auto simp: mem_read_def in_mem_def split: if_splits)
  then have "a + n - mem_base m = n + (a - mem_base m)" by simp
  with b x show ?thesis
    by (simp add: assms(4) mem_read_def in_mem_def take_add)
qed

lemma mem_read_take: "mem_read a k m = Some xs \<Longrightarrow> n \<le> k \<Longrightarrow> mem_read a n m = Some (take n xs)"
  by (auto simp: mem_read_def in_mem_def split: if_splits)

lemma mem_read_all:
  assumes "mem_read (mem_base m) n m = Some xs"
  shows "mem_data m = xs @ drop n (mem_data m)"
  using assms by (auto simp: mem_read_def split: if_splits)

lemma mem_read_app:
  "mem_data m = xs @ ys @ zs \<Longrightarrow> mem_read (mem_base m + length xs) (length ys) m = Some ys"
  by (simp add: mem_read_def in_mem_def)

section \<open>The layout of a request\<close>

definition round8 :: "nat \<Rightarrow> nat" where
  "round8 n = (if n mod 8 = 0 then n else n + (8 - n mod 8))"

lemma round8_props: "8 dvd round8 n" "n \<le> round8 n" "round8 n < n + 8"
proof -
  show "8 dvd round8 n"
    unfolding round8_def by (simp add: dvd_eq_mod_eq_0) presburger
  have "n mod 8 < 8" by simp
  then show "n \<le> round8 n" "round8 n < n + 8"
    unfolding round8_def by auto
qed

lemma round8_le: "8 dvd k \<Longrightarrow> n \<le> k \<Longrightarrow> round8 n \<le> k"
  unfolding round8_def by (auto elim!: dvdE) presburger

text \<open>The part of the allocator that is left for the data of a call.\<close>

definition data_alloc :: "'w handler \<Rightarrow> alloc" where
  "data_alloc h =
     \<lparr>a_ptr = h_addr h + 88, a_len = 8 * length (h_block h) - 104, a_offset = 0\<rparr>"

text \<open>A block the guest can use: it is aligned, lies in the address space, is no longer than a
  slice can be, and has room for a request without data and the end header.\<close>

definition ready :: "'w handler \<Rightarrow> bool" where
  "ready h \<longleftrightarrow> 8 dvd h_addr h \<and> 13 \<le> length (h_block h) \<and>
     h_addr h + 8 * length (h_block h) < usize_limit \<and> 8 * length (h_block h) < isize_limit"

definition aligned_ref :: "nat \<Rightarrow> layout \<Rightarrow> nat \<Rightarrow> in_ref" where
  "aligned_ref p T off = \<lparr>in_ptr = p, in_elem = T, in_count = 1, in_offset = off\<rparr>"

lemma allocate_aligned:
  assumes "l_align L dvd a_ptr al" "l_size L \<le> a_len al" "a_len al < usize_limit"
  shows "allocate_layout L al = Ok (((a_ptr al, l_size L), a_offset al),
    \<lparr>a_ptr = a_ptr al + l_size L, a_len = a_len al - l_size L, a_offset = a_offset al + l_size L\<rparr>)"
  using allocate_layout_total [of al L] assms by simp

lemma allocate_input_aligned:
  assumes "l_align T dvd a_ptr al" "l_size T \<le> a_len al" "a_len al < usize_limit"
  shows "allocate_input T al = Ok (aligned_ref (a_ptr al) T (a_offset al),
    \<lparr>a_ptr = a_ptr al + l_size T, a_len = a_len al - l_size T, a_offset = a_offset al + l_size T\<rparr>)"
    and "allocate_inout T al = Ok (InOutRef (aligned_ref (a_ptr al) T (a_offset al)),
    \<lparr>a_ptr = a_ptr al + l_size T, a_len = a_len al - l_size T, a_offset = a_offset al + l_size T\<rparr>)"
  using allocate_aligned [OF assms]
  by (simp_all add: alloc_defs ref_defs smap_def sbind_def aligned_ref_def)

definition request_staged :: "nat \<Rightarrow> usize list \<Rightarrow> 's \<Rightarrow> nat \<Rightarrow> 's staged_alloc staged_call" where
  "request_staged A argv s used =
     \<lparr>sc_header_ref = aligned_ref A header_layout 0,
      sc_staged =
        \<lparr>st_num_ref = aligned_ref (A + 16) usize_layout 0,
         st_argv = \<lparr>i_ref = aligned_ref (A + 24) (array_of 6 usize_layout) 8,
                    i_val = bytes_of_words (argv_into 6 argv)\<rparr>,
         st_ret_ref = InOutRef (aligned_ref (A + 72) (array_of 2 usize_layout) 56),
         st_staged = s\<rparr>,
      sc_size = 72 + round8 used\<rparr>"

lemma numbered_stage_request:
  assumes "8 dvd A" "88 \<le> L" "L < usize_limit"
    and "na_stage a \<lparr>a_ptr = A + 88, a_len = L - 88, a_offset = 0\<rparr> = Ok ((argv, s), b)"
  shows "numbered_stage syscall_kind a \<lparr>a_ptr = A + 16, a_len = L - 16, a_offset = 0\<rparr> =
    Ok (sc_staged (request_staged A argv s used),
        \<lparr>a_ptr = a_ptr b, a_len = a_len b, a_offset = 72 + a_offset b\<rparr>)"
proof -
  have d: "8 dvd A + 16" "8 dvd A + 24" "8 dvd A + 72"
    using assms(1) by presburger+
  have 1: "allocate_input usize_layout \<lparr>a_ptr = A + 16, a_len = L - 16, a_offset = 0\<rparr> =
      Ok (aligned_ref (A + 16) usize_layout 0, \<lparr>a_ptr = A + 24, a_len = L - 24, a_offset = 8\<rparr>)"
    using d assms by (simp add: allocate_input_aligned)
  have 2: "allocate_input (array_of 6 usize_layout) \<lparr>a_ptr = A + 24, a_len = L - 24, a_offset = 8\<rparr> =
      Ok (aligned_ref (A + 24) (array_of 6 usize_layout) 8, \<lparr>a_ptr = A + 72, a_len = L - 72, a_offset = 56\<rparr>)"
    using d assms by (simp add: allocate_input_aligned)
  have 3: "allocate_inout (array_of 2 usize_layout) \<lparr>a_ptr = A + 72, a_len = L - 72, a_offset = 56\<rparr> =
      Ok (InOutRef (aligned_ref (A + 72) (array_of 2 usize_layout) 56), \<lparr>a_ptr = A + 88, a_len = L - 88, a_offset = 72\<rparr>)"
    using d assms by (simp add: allocate_input_aligned)
  show ?thesis
    using assms(4)
    by (simp add: numbered_stage_def syscall_kind_def sbind_def 1 2 3 alloc_section_def
        request_staged_def in_ref_stage_def)
qed

lemma alloc_call_stage_request:
  assumes "8 dvd A" "88 \<le> L" "L < usize_limit" "8 dvd L"
    and st: "na_stage a \<lparr>a_ptr = A + 88, a_len = L - 88, a_offset = 0\<rparr> = Ok ((argv, s), b)"
    and adv: "advances \<lparr>a_ptr = A + 88, a_len = L - 88, a_offset = 0\<rparr> b"
  shows "c_stage (item_call syscall_kind a) \<lparr>a_ptr = A, a_len = L, a_offset = 0\<rparr> =
    Ok (request_staged A argv s (a_ptr b - (A + 88)),
        let e = 88 + round8 (a_ptr b - (A + 88)) in \<lparr>a_ptr = A + e, a_len = L - e, a_offset = e\<rparr>)"
proof -
  define used where "used = a_ptr b - (A + 88)"
  have b: "a_ptr b = A + 88 + used" "a_offset b = used" "a_len b = L - 88 - used" "used \<le> L - 88"
    using adv by (auto simp: advances_def used_def)
  have 1: "allocate_input header_layout \<lparr>a_ptr = A, a_len = L, a_offset = 0\<rparr> =
      Ok (aligned_ref A header_layout 0, \<lparr>a_ptr = A + 16, a_len = L - 16, a_offset = 16\<rparr>)"
    using assms by (simp add: allocate_input_aligned)
  have 2: "alloc_section (numbered_stage syscall_kind a) \<lparr>a_ptr = A + 16, a_len = L - 16, a_offset = 16\<rparr> =
      Ok ((sc_staged (request_staged A argv s used), 72 + used),
          \<lparr>a_ptr = A + 88 + used, a_len = L - 88 - used, a_offset = 88 + used\<rparr>)"
    using numbered_stage_request [OF assms(1-3) st, of used] b by (simp add: alloc_section_def)
  have r: "round8 used \<le> L - 88"
    by (rule round8_le) (use b(4) assms(2,4) in auto)
  show ?thesis
  proof (cases "used mod 8 = 0")
    case True
    then have "(72 + used) mod 8 = 0" "round8 used = used"
      by (simp add: mod_add_eq [symmetric], simp add: round8_def)
    then show ?thesis
      unfolding used_def [symmetric]
      by (simp add: item_call_def alloc_call_def alloc_call_stage_def numbered_call_def sbind_def 1 2
          request_staged_def Let_def)
  next
    case False
    define k where "k = 8 - used mod 8"
    have m: "(72 + used) mod 8 = used mod 8" "0 < used mod 8" "round8 used = used + k" "0 < k"
      using False by (simp add: mod_add_eq [symmetric], simp_all add: round8_def k_def)
    let ?L = "\<lparr>l_size = k, l_align = 1\<rparr>"
    have p: "ok_or (layout_from_size_align k (Suc 0)) ENOMEM = Ok ?L"
      by (simp add: layout_from_size_align_def isize_limit_def k_def)
    have "k \<le> L - 88 - used"
      using r m(3) assms(2) by linarith
    then have "allocate_layout ?L \<lparr>a_ptr = A + 88 + used, a_len = L - 88 - used, a_offset = 88 + used\<rparr> =
        Ok (((A + 88 + used, k), 88 + used),
          \<lparr>a_ptr = A + 88 + round8 used, a_len = L - 88 - round8 used, a_offset = 88 + round8 used\<rparr>)"
      using m assms(3) by (subst allocate_aligned) auto
    then show ?thesis
      using m p unfolding used_def [symmetric]
      by (simp add: item_call_def alloc_call_def alloc_call_stage_def numbered_call_def sbind_def
          smap_def sresult_def 1 2 request_staged_def Let_def allocate_input_layout_def k_def [symmetric])
  qed
qed

lemma stage_request:
  assumes "ready h"
    and st: "na_stage a (data_alloc h) = Ok ((argv, s), b)" and adv: "advances (data_alloc h) b"
  defines "used \<equiv> a_ptr b - (h_addr h + 88)"
  shows "\<exists>al. reserve_input header_layout (alloc_section (c_stage (item_call syscall_kind a)))
      (alloc_stage (alloc_new (h_addr h) (length (h_block h)))) =
    Ok (((request_staged (h_addr h) argv s used, 88 + round8 used),
         aligned_ref (h_addr h + 88 + round8 used) header_layout (88 + round8 used)), al)"
    and "88 + round8 used + 16 \<le> 8 * length (h_block h)"
proof -
  let ?A = "h_addr h" and ?n = "8 * length (h_block h)" and ?L = "8 * length (h_block h) - 16"
  have r: "8 dvd ?A" "104 \<le> ?n" "?n < usize_limit"
    using assms(1) by (auto simp: ready_def)
  have u: "used \<le> ?L - 88"
    using adv by (auto simp: advances_def used_def data_alloc_def)
  have ru: "round8 used \<le> ?L - 88"
    by (rule round8_le) (use u r in auto)
  then show "88 + round8 used + 16 \<le> 8 * length (h_block h)"
    using r by simp
  have st': "na_stage a \<lparr>a_ptr = ?A + 88, a_len = ?L - 88, a_offset = 0\<rparr> = Ok ((argv, s), b)"
    and adv': "advances \<lparr>a_ptr = ?A + 88, a_len = ?L - 88, a_offset = 0\<rparr> b"
    using st adv by (simp_all add: data_alloc_def)
  have 1: "c_stage (item_call syscall_kind a) \<lparr>a_ptr = ?A, a_len = ?L, a_offset = 0\<rparr> =
      Ok (request_staged ?A argv s used,
        \<lparr>a_ptr = ?A + (88 + round8 used), a_len = ?L - (88 + round8 used), a_offset = 88 + round8 used\<rparr>)"
    using alloc_call_stage_request [OF r(1) _ _ _ st' adv'] r by (simp add: used_def Let_def)
  have e: "8 dvd ?A + (?n - 16)" "8 dvd ?A + (88 + round8 used)"
    using r round8_props(1) [of used] by (auto intro!: dvd_add dvd_diff_nat)
  have 2: "allocate_layout header_layout
      \<lparr>a_ptr = ?A + (88 + round8 used), a_len = ?L - (88 + round8 used) + 16, a_offset = 88 + round8 used\<rparr> =
    Ok (((?A + (88 + round8 used), 16), 88 + round8 used),
      \<lparr>a_ptr = ?A + (88 + round8 used) + 16, a_len = ?L - (88 + round8 used), a_offset = 88 + round8 used + 16\<rparr>)"
    using e r ru by (subst allocate_aligned) auto
  show "\<exists>al. reserve_input header_layout (alloc_section (c_stage (item_call syscall_kind a)))
      (alloc_stage (alloc_new (h_addr h) (length (h_block h)))) =
    Ok (((request_staged (h_addr h) argv s used, 88 + round8 used),
         aligned_ref (h_addr h + 88 + round8 used) header_layout (88 + round8 used)), al)"
    using r e 1 2
    by (simp add: reserve_input_def reserve_input_layout_def smap_def sbind_def reserve_layout_def
        alloc_stage_def alloc_new_def checked_sub_def alloc_section_def ref_defs aligned_ref_def)
qed

text \<open>What the guest leaves in the block: the item, the end header, and the rest as it was.\<close>

definition request_item :: "usize \<Rightarrow> usize list \<Rightarrow> byte list \<Rightarrow> item" where
  "request_item num argv data =
     ItemSyscall \<lparr>sp_num = num, sp_argv = argv_into 6 argv, sp_ret = [as_usize (- ENOSYS), 0]\<rparr> data"

lemma write_aligned_ref:
  assumes "l_align T dvd p" "length v = l_size T" "q = p + l_size T" "in_mem m p (l_size T)"
  shows "\<exists>m'. in_ref_copy_from (aligned_ref p T off) v m = Some ((), m') \<and>
    unchanged m m' p q \<and> mem_read p (length v) m' = Some v"
  using in_ref_copy_from_ok [of p "p + l_size T" "aligned_ref p T off" m v] assms
  by (auto simp: in_ref_ok_def aligned_ref_def)

lemma word_bytes_simps [simp]:
  "bytes_of_words (words_of_bytes (usize_bytes w)) = usize_bytes w"
  by (simp add: bytes_of_words_of_bytes)

lemma words_of_usize_bytes: "words_of_bytes (usize_bytes w @ bs) = w # words_of_bytes bs"
  by (simp add: words_of_bytes_append8)

lemma words_of_bytes_of_words_append: "words_of_bytes (bytes_of_words ws @ bs) = ws @ words_of_bytes bs"
  by (simp add: words_of_bytes_append)

lemma request_bytes:
  assumes "8 dvd length data" "length argv \<le> 6"
  shows "words_of_bytes (header_bytes \<lparr>h_size = to_usize (72 + length data), h_kind = Syscall\<rparr> @
      usize_bytes num @ bytes_of_words (argv_into 6 argv) @ bytes_of_words [as_usize (- ENOSYS), 0] @
      data @ end_header @ rest) =
    encode_entry (Known (request_item num argv data)) @ encode_end @ words_of_bytes rest"
  using assms
  by (simp add: header_bytes_def end_header_def words_of_usize_bytes words_of_bytes_of_words_append
      words_of_bytes_append request_item_def item_size_def syscall_payload_words_def encode_end_def)

text \<open>The six writes of the commit phase, each into its own place: the four fixed parts, the data
  of the call, and the end header.\<close>

definition request_front :: "usize \<Rightarrow> usize list \<Rightarrow> nat \<Rightarrow> byte list" where
  "request_front num argv R =
     header_bytes \<lparr>h_size = to_usize (72 + R), h_kind = Syscall\<rparr> @ usize_bytes num @
     bytes_of_words (argv_into 6 argv) @ bytes_of_words [as_usize (- ENOSYS), 0]"

lemma commit_front:
  assumes "8 dvd A" "length argv \<le> 6" "in_mem m A 88"
  shows "\<exists>m1 m2 m3 m4.
    in_ref_copy_from (aligned_ref A header_layout 0)
      (header_bytes \<lparr>h_size = to_usize (72 + R), h_kind = Syscall\<rparr>) m = Some ((), m1) \<and>
    in_ref_copy_from (aligned_ref (A + 16) usize_layout 0) (usize_bytes num) m1 = Some ((), m2) \<and>
    in_ref_copy_from (aligned_ref (A + 24) (array_of 6 usize_layout) 8)
      (bytes_of_words (argv_into 6 argv)) m2 = Some ((), m3) \<and>
    in_ref_copy_from (aligned_ref (A + 72) (array_of 2 usize_layout) 56)
      (bytes_of_words [as_usize (- ENOSYS), 0]) m3 = Some ((), m4) \<and>
    same_shape m m4 \<and> mem_read A 88 m4 = Some (request_front num argv R)"
proof -
  let ?H = "header_bytes \<lparr>h_size = to_usize (72 + R), h_kind = Syscall\<rparr>"
    and ?N = "usize_bytes num" and ?V = "bytes_of_words (argv_into 6 argv)"
    and ?Z = "bytes_of_words [as_usize (- ENOSYS), 0]"
  have d: "8 dvd A + 16" "8 dvd A + 24" "8 dvd A + 72"
    using assms(1) by (auto intro!: dvd_add)
  have at: "in_mem m' p n" if "same_shape m m'" "A \<le> p" "p + n \<le> A + 88" for m' p n
    using that assms(3) by (simp add: in_mem_def same_shape_def)
  obtain m1 where m1: "in_ref_copy_from (aligned_ref A header_layout 0) ?H m = Some ((), m1)"
    "unchanged m m1 A (A + 16)" "mem_read A 16 m1 = Some ?H"
    using write_aligned_ref [of header_layout A ?H "A + 16" m 0] assms at by auto
  note s1 = unchanged_shape [OF m1(2)]
  obtain m2 where m2: "in_ref_copy_from (aligned_ref (A + 16) usize_layout 0) ?N m1 = Some ((), m2)"
    "unchanged m1 m2 (A + 16) (A + 24)" "mem_read (A + 16) 8 m2 = Some ?N"
    using write_aligned_ref [of usize_layout "A + 16" ?N "A + 24" m1 0] d at [OF s1] by auto
  note s2 = same_shape_trans [OF s1 unchanged_shape [OF m2(2)]]
  obtain m3 where m3: "in_ref_copy_from (aligned_ref (A + 24) (array_of 6 usize_layout) 8) ?V m2 = Some ((), m3)"
    "unchanged m2 m3 (A + 24) (A + 72)" "mem_read (A + 24) 48 m3 = Some ?V"
    using write_aligned_ref [of "array_of 6 usize_layout" "A + 24" ?V "A + 72" m2 8] d at [OF s2] assms(2)
    by auto
  note s3 = same_shape_trans [OF s2 unchanged_shape [OF m3(2)]]
  obtain m4 where m4: "in_ref_copy_from (aligned_ref (A + 72) (array_of 2 usize_layout) 56) ?Z m3 = Some ((), m4)"
    "unchanged m3 m4 (A + 72) (A + 88)" "mem_read (A + 72) 16 m4 = Some ?Z"
    using write_aligned_ref [of "array_of 2 usize_layout" "A + 72" ?Z "A + 88" m3 56] d at [OF s3] by auto
  note keep = mem_read_unchanged [OF m2(2)] mem_read_unchanged [OF m3(2)] mem_read_unchanged [OF m4(2)]
  have r: "mem_read A 16 m4 = Some ?H" "mem_read (A + 16) 8 m4 = Some ?N" "mem_read (A + 24) 48 m4 = Some ?V"
    using m1(3) m2(3) m3(3) by (simp_all add: keep)
  have "mem_read (A + 24) 64 m4 = Some (?V @ ?Z)"
    by (rule mem_read_append [OF r(3) m4(3)]) simp_all
  then have "mem_read (A + 16) 72 m4 = Some (?N @ ?V @ ?Z)"
    by (rule mem_read_append [OF r(2)]) simp_all
  then have "mem_read A 88 m4 = Some (?H @ ?N @ ?V @ ?Z)"
    by (rule mem_read_append [OF r(1)]) simp_all
  with m1 m2 m3 m4 same_shape_trans [OF s3 unchanged_shape [OF m4(2)]] show ?thesis
    by (simp add: request_front_def)
qed

lemma commit_request:
  fixes h :: "'w handler"
  assumes laws: "numbered_laws syscall_kind a s_ok c_ok" and "ready h" "length argv \<le> 6"
    and s: "s_ok (h_addr h + 88) hi s" "h_addr h + 88 \<le> hi" "hi \<le> h_addr h + 88 + R"
    and R: "R = round8 used" "88 + R + 16 \<le> 8 * length (h_block h)"
  shows "\<exists>x m4 m5 m6 data rest.
    c_commit (item_call syscall_kind a) (request_staged (h_addr h) argv s used) (block_mem h) =
      Some (CommittedCall \<lparr>co_ret_ref = out_ref_of_inout
        (InOutRef (aligned_ref (h_addr h + 72) (array_of 2 usize_layout) 56)), co_committed = x\<rparr>, m5) \<and>
    na_commit a s m4 = Some (x, m5) \<and> same_shape (block_mem h) m4 \<and>
    in_ref_copy_from (aligned_ref (h_addr h + 88 + R) header_layout (88 + R)) end_header m5 = Some ((), m6) \<and>
    mem_read (h_addr h + 88) R m5 = Some data \<and> same_shape (block_mem h) m6 \<and>
    words_of_bytes (mem_data m6) =
      encode_entry (Known (request_item (na_num a) argv data)) @ encode_end @ rest"
proof -
  let ?A = "h_addr h" and ?m = "block_mem h"
  have d: "8 dvd ?A" "8 dvd ?A + 88 + R"
    using assms(2) R(1) round8_props(1) [of used] by (auto simp: ready_def intro!: dvd_add)
  have at: "in_mem m p n" if "same_shape ?m m" "?A \<le> p" "p + n \<le> ?A + (88 + R + 16)" for m p n
    using that R(2) by (simp add: in_mem_def same_shape_def)
  from commit_front [OF d(1) assms(3) at [OF same_shape_refl], of R "na_num a"]
  obtain m1 m2 m3 m4 where
    c: "in_ref_copy_from (aligned_ref ?A header_layout 0)
      (header_bytes \<lparr>h_size = to_usize (72 + R), h_kind = Syscall\<rparr>) ?m = Some ((), m1)"
    "in_ref_copy_from (aligned_ref (?A + 16) usize_layout 0) (usize_bytes (na_num a)) m1 = Some ((), m2)"
    "in_ref_copy_from (aligned_ref (?A + 24) (array_of 6 usize_layout) 8)
      (bytes_of_words (argv_into 6 argv)) m2 = Some ((), m3)"
    "in_ref_copy_from (aligned_ref (?A + 72) (array_of 2 usize_layout) 56)
      (bytes_of_words [as_usize (- ENOSYS), 0]) m3 = Some ((), m4)"
    and s4: "same_shape ?m m4" and f: "mem_read ?A 88 m4 = Some (request_front (na_num a) argv R)"
    by auto
  obtain x m5 where m5: "na_commit a s m4 = Some (x, m5)" "unchanged m4 m5 (?A + 88) hi"
    using numbered_laws.na_commit_ok [OF laws s(1) at [OF s4]] s by auto
  note s5 = same_shape_trans [OF s4 unchanged_shape [OF m5(2)]]
  obtain data where data: "mem_read (?A + 88) R m5 = Some data" "length data = R"
    using mem_read_ok [OF at [OF s5], of "?A + 88" R] by auto
  obtain m6 where m6: "in_ref_copy_from (aligned_ref (?A + 88 + R) header_layout (88 + R)) end_header m5 = Some ((), m6)"
    "unchanged m5 m6 (?A + 88 + R) (?A + 88 + R + 16)" "mem_read (?A + 88 + R) 16 m6 = Some end_header"
    using write_aligned_ref [of header_layout "?A + 88 + R" end_header "?A + 88 + R + 16" m5 "88 + R"]
      d at [OF s5] by auto
  note s6 = same_shape_trans [OF s5 unchanged_shape [OF m6(2)]]
  have "mem_read ?A 88 m6 = Some (request_front (na_num a) argv R)" "mem_read (?A + 88) R m6 = Some data"
    using f data(1) by (simp_all add: mem_read_unchanged [OF m5(2)] mem_read_unchanged [OF m6(2)])
  then have "mem_read ?A (88 + R) m6 = Some (request_front (na_num a) argv R @ data)"
    by (rule mem_read_append) simp_all
  then have "mem_read ?A (88 + R + 16) m6 = Some ((request_front (na_num a) argv R @ data) @ end_header)"
    by (rule mem_read_append [OF _ m6(3)]) simp_all
  moreover have "mem_base m6 = ?A"
    using s6 by (simp add: same_shape_def)
  ultimately have "mem_data m6 = ((request_front (na_num a) argv R @ data) @ end_header) @ drop (88 + R + 16) (mem_data m6)"
    using mem_read_all by metis
  then have "words_of_bytes (mem_data m6) = encode_entry (Known (request_item (na_num a) argv data)) @
      encode_end @ words_of_bytes (drop (88 + R + 16) (mem_data m6))"
    using request_bytes [of data argv "na_num a" "drop (88 + R + 16) (mem_data m6)"] assms(3) data(2) R(1)
      round8_props(1) by (simp add: request_front_def del: encode_entry.simps)
  with c s4 m5 data m6 s6 R(1) show ?thesis
    by (simp add: item_call_def alloc_call_def alloc_call_commit_def numbered_call_def numbered_commit_def
        cbind_def request_staged_def input_commit_def syscall_kind_def inout_ref_commit_def
        del: encode_entry.simps) blast
qed

section \<open>Execution against any host\<close>

lemma mem_read_block:
  assumes "h_block h = us @ vs @ ws"
  shows "mem_read (h_addr h + 8 * length us) (8 * length vs) (block_mem h) = Some (bytes_of_words vs)"
  using mem_read_app [of "block_mem h" "bytes_of_words us" "bytes_of_words vs" "bytes_of_words ws"] assms
  by (simp add: block_mem_def)

lemma return_registers:
  assumes "ready h" "11 \<le> length (h_block h)"
  shows "out_ref_copy_to (out_ref_of_inout (InOutRef (aligned_ref (h_addr h + 72) (array_of 2 usize_layout) 56)))
      (block_mem h) = Ret (bytes_of_words [h_block h ! 9, h_block h ! 10])"
proof -
  have "h_block h = take 9 (h_block h) @ [h_block h ! 9, h_block h ! 10] @ drop 11 (h_block h)"
    using assms(2) by (simp add: Cons_nth_drop_Suc id_take_nth_drop [symmetric] numeral_eq_Suc)
  from mem_read_block [OF this] assms show ?thesis
    by (simp add: out_ref_copy_to_def out_ref_of_inout_def aligned_ref_def ready_def min_absorb2 dvd_add)
qed

context numbered_laws
begin

lemma item_advancing: "advancing (c_stage (item_call k a))"
  by (rule item.stage_advancing)

end

lemma item_collect:
  "c_collect (item_call k a) (CommittedCall c) m =
     obind (out_ref_copy_to (co_ret_ref c) m) (\<lambda>bs.
       na_collect a (co_committed c) (na_ret a (k_ret_of k bs)) m)"
  by (simp add: item_call_def alloc_call_def numbered_call_def numbered_collect_def)

lemma syscall_ret_of: "k_ret_of syscall_kind (bytes_of_words [x, y]) = (x, y)"
  by (simp add: syscall_kind_def del: bytes_of_words_Cons)

lemma execute_sallied:
  assumes r: "reserve_input header_layout (alloc_section (c_stage c))
      (alloc_stage (alloc_new (h_addr h) (length (h_block h)))) = Ok (((staged, len), end_ref), al)"
    and "advancing (c_stage c)" "0 < len" "c_commit c staged (block_mem h) = Some (committed, m)"
    and "in_ref_copy_from end_ref end_header m = Some ((), m')" "same_shape (block_mem h) m'"
  shows "execute host h c =
    (let (r, h') = sally host (with_mem h m')
     in case r of
          Inl e \<Rightarrow> Ret (Err e, h')
        | Inr _ \<Rightarrow> obind (c_collect c committed (block_mem h')) (\<lambda>v. Ret (Ok v, h')))"
proof -
  obtain r h' where s: "sally host (with_mem h m') = (r, h')"
    by (metis surj_pair)
  have "same_frame h h'"
    using same_frame_trans [OF with_mem_frame [OF assms(6)] sally_frame [OF s]] .
  moreover have "advances (alloc_stage (alloc_new (h_addr h) (length (h_block h)))) al"
    using reserve_input_Ok [OF r assms(2)] by blast
  moreover have "alloc_commit al = al"
    by (simp add: alloc_commit_def into_phase_def)
  ultimately have "alloc_sally (alloc_commit al) (h_addr h') (length (h_block h')) = Ok al"
    by (simp add: alloc_sally_Ok same_frame_def)
  with r assms s show ?thesis
    by (auto simp: execute_def Let_def split: sum.splits)
qed

text \<open>\<^verbatim>\<open>Handler::execute\<close> of a system call whose data has been staged: the host is given a
  block that holds exactly the request, and the result is collected from the return registers and
  the block the host leaves.\<close>

lemma execute_request:
  fixes h :: "'w handler"
  assumes laws: "numbered_laws syscall_kind a s_ok c_ok" and "ready h"
    and st: "na_stage a (data_alloc h) = Ok ((argv, s), b)"
  shows "\<exists>x m4 m5 data rest. na_commit a s m4 = Some (x, m5) \<and> same_shape (block_mem h) m4 \<and>
    mem_read (h_addr h + 88) (round8 (a_ptr b - (h_addr h + 88))) m5 = Some data \<and>
    length (encode_entry (Known (request_item (na_num a) argv data)) @ encode_end @ rest) = length (h_block h) \<and>
    (\<forall>host. execute host h (item_call syscall_kind a) =
      (let (r, h') = sally host (h\<lparr>h_block :=
             encode_entry (Known (request_item (na_num a) argv data)) @ encode_end @ rest\<rparr>)
       in case r of
            Inl e \<Rightarrow> Ret (Err e, h')
          | Inr _ \<Rightarrow> obind (na_collect a x (na_ret a (h_block h' ! 9, h_block h' ! 10)) (block_mem h'))
              (\<lambda>v. Ret (Ok v, h'))))"
proof -
  define used where "used = a_ptr b - (h_addr h + 88)"
  define R where "R = round8 used"
  have ok: "advances (data_alloc h) b" "length argv \<le> 6" "s_ok (h_addr h + 88) (a_ptr b) s"
    using numbered_laws.na_stage_ok [OF laws st] by (simp_all add: data_alloc_def syscall_kind_def)
  from stage_request [OF assms(2) st ok(1)] obtain al where
    1: "reserve_input header_layout (alloc_section (c_stage (item_call syscall_kind a)))
      (alloc_stage (alloc_new (h_addr h) (length (h_block h)))) =
      Ok (((request_staged (h_addr h) argv s used, 88 + R),
         aligned_ref (h_addr h + 88 + R) header_layout (88 + R)), al)"
    and room: "88 + R + 16 \<le> 8 * length (h_block h)"
    by (auto simp: used_def R_def)
  have hi: "h_addr h + 88 \<le> a_ptr b" "a_ptr b \<le> h_addr h + 88 + R"
    using ok(1) round8_props(2) [of used] by (auto simp: advances_def data_alloc_def used_def R_def)
  from commit_request [OF laws assms(2) ok(2,3) hi R_def room] obtain x m4 m5 m6 data rest where
    2: "c_commit (item_call syscall_kind a) (request_staged (h_addr h) argv s used) (block_mem h) =
      Some (CommittedCall \<lparr>co_ret_ref = out_ref_of_inout
        (InOutRef (aligned_ref (h_addr h + 72) (array_of 2 usize_layout) 56)), co_committed = x\<rparr>, m5)"
    and 3: "na_commit a s m4 = Some (x, m5)" "same_shape (block_mem h) m4"
      "mem_read (h_addr h + 88) R m5 = Some data"
    and 4: "in_ref_copy_from (aligned_ref (h_addr h + 88 + R) header_layout (88 + R)) end_header m5 = Some ((), m6)"
      "same_shape (block_mem h) m6"
    and ws: "words_of_bytes (mem_data m6) =
      encode_entry (Known (request_item (na_num a) argv data)) @ encode_end @ rest" (is "_ = ?ws")
    by blast
  have m6: "with_mem h m6 = h\<lparr>h_block := ?ws\<rparr>"
    by (simp add: with_mem_def ws)
  have len: "length ?ws = length (h_block h)"
    using with_mem_shape [OF 4(2)] by (simp add: ws)
  have "execute host h (item_call syscall_kind a) =
      (let (r, h') = sally host (h\<lparr>h_block := ?ws\<rparr>)
       in case r of
            Inl e \<Rightarrow> Ret (Err e, h')
          | Inr _ \<Rightarrow> obind (na_collect a x (na_ret a (h_block h' ! 9, h_block h' ! 10)) (block_mem h'))
              (\<lambda>v. Ret (Ok v, h')))" for host
  proof -
    obtain r h' where s: "sally host (h\<lparr>h_block := ?ws\<rparr>) = (r, h')"
      by (metis surj_pair)
    then have "ready h'" "11 \<le> length (h_block h')"
      using sally_frame [OF s] assms(2) len by (auto simp: ready_def same_frame_def)
    note ret = return_registers [OF this]
    have "h_addr h' = h_addr h"
      using sally_frame [OF s] by (simp add: same_frame_def)
    moreover note execute_sallied [OF 1 numbered_laws.item_advancing [OF laws] _ 2 4, of host, unfolded m6 s]
    ultimately show ?thesis
      unfolding s using ret
      by (simp add: item_collect syscall_ret_of del: encode_entry.simps bytes_of_words_Cons split: sum.split)
  qed
  with 3 len show ?thesis
    unfolding R_def used_def by blast
qed

section \<open>Execution against the host of this repository\<close>

text \<open>The host that answers \<^verbatim>\<open>sally\<close> by executing the items of the block.\<close>

definition honest_host :: "'w kernel \<Rightarrow> cpuid_insn \<Rightarrow> nat \<Rightarrow> 'w host" where
  "honest_host kern cpuid addr w ws =
     (case host_execute kern cpuid addr ws w of
        Ret (r, ws', w') \<Rightarrow> (r, \<lambda>i. ws' ! i, w')
      | _ \<Rightarrow> (Err EFAULT, \<lambda>i. ws ! i, w))"

lemma sally_honest:
  assumes wf: "wf_entry (Known it)"
    and i: "host_item kern cpuid (h_addr h + 8 * (2 + length (item_payload_words it))) it (h_world h) = (r, it', w')"
    and b: "h_block h = encode_entry (Known it) @ encode_end @ rest"
  shows "sally (honest_host kern cpuid (h_addr h)) h =
    (r, h\<lparr>h_block := encode_entry (Known it') @ encode_end @ rest, h_world := w'\<rparr>)"
proof -
  let ?ws = "encode_entry (Known it') @ encode_end @ rest"
  have "length (encode_entry (Known it')) = length (encode_entry (Known it))"
    using same_request_sizes [OF host_item_same [OF i]] wf by (simp add: length_words_of_bytes)
  then have l: "map ((!) ?ws) [0..<length (h_block h)] = ?ws"
    using map_nth [of ?ws] b by (simp del: encode_entry.simps)
  have "host_execute kern cpuid (h_addr h) (h_block h) (h_world h) = Ret (r, ?ws, w')"
    unfolding b host_execute_known [OF wf i] host_execute_stop [OF block_next_end]
    by (cases r) (simp_all del: encode_entry.simps)
  with l show ?thesis
    by (simp add: sally_def honest_host_def del: encode_entry.simps)
qed

lemma request_item_wf:
  assumes "length argv \<le> 6" "8 dvd length data" "72 + length data < usize_limit"
  shows "wf_entry (Known (request_item num argv data))"
    and "length (item_payload_words (request_item num argv data)) = 9"
  using assms by (simp_all add: request_item_def item_size_def syscall_payload_words_def)

lemma answered_block:
  assumes "h_block h = encode_entry (Known (ItemSyscall call data)) @ rest" "length (sp_argv call) = 6"
    "length (sp_ret call) = 2" "8 dvd length data"
  shows "h_block h ! 9 = sp_ret call ! 0" "h_block h ! 10 = sp_ret call ! 1"
    and "mem_read (h_addr h + 88) (length data) (block_mem h) = Some data"
proof -
  let ?p = "[to_usize (item_size (ItemSyscall call data)), 1] @ syscall_payload_words call"
  have b: "h_block h = ?p @ words_of_bytes data @ rest" and l: "length ?p = 11"
    using assms by (simp_all add: syscall_payload_words_def)
  from mem_read_block [OF b] l assms(4)
  show "mem_read (h_addr h + 88) (length data) (block_mem h) = Some data"
    by (simp add: bytes_of_words_of_bytes length_words_of_bytes)
  show "h_block h ! 9 = sp_ret call ! 0" "h_block h ! 10 = sp_ret call ! 1"
    using length_six [OF assms(2)] length_two [OF assms(3)]
    by (auto simp: b nth_append syscall_payload_words_def)
qed

lemma sally_request:
  assumes b: "h_block h = encode_entry (Known (request_item num argv data)) @ encode_end @ rest"
    and wf: "length argv \<le> 6" "8 dvd length data" "72 + length data < usize_limit"
    and arm: "map_of host_arms num = Some arm"
      "arm (argv_into 6 argv) \<lparr>mem_base = h_addr h + 88, mem_data = data\<rparr> = Ok regs"
      "kern num regs \<lparr>mem_base = h_addr h + 88, mem_data = data\<rparr> (h_world h) = (rax, f, w')"
  shows "\<exists>h'. sally (honest_host kern cpuid (h_addr h)) h = (Ok (), h') \<and> h_world h' = w' \<and>
    h_block h' ! 9 = rax \<and> h_block h' ! 10 = 0 \<and>
    mem_read (h_addr h + 88) (length data) (block_mem h') = Some (map f [0..<length data])"
proof -
  let ?call = "\<lparr>sp_num = num, sp_argv = argv_into 6 argv, sp_ret = [rax, 0]\<rparr>"
  let ?it = "ItemSyscall ?call (map f [0..<length data])"
  let ?h = "h\<lparr>h_block := encode_entry (Known ?it) @ encode_end @ rest, h_world := w'\<rparr>"
  have "host_item kern cpuid (h_addr h + 8 * (2 + length (item_payload_words (request_item num argv data))))
      (request_item num argv data) (h_world h) = (Ok (), ?it, w')"
    unfolding request_item_wf(2) [OF wf] using arm
    by (simp add: request_item_def host_syscall_def raw_syscall_def add.commute [of 88])
  from sally_honest [OF request_item_wf(1) [OF wf] this b]
  have "sally (honest_host kern cpuid (h_addr h)) h = (Ok (), ?h)" .
  moreover have "h_block ?h ! 9 = rax" "h_block ?h ! 10 = 0"
    "mem_read (h_addr ?h + 88) (length (map f [0..<length data])) (block_mem ?h) = Some (map f [0..<length data])"
    using answered_block [of ?h ?call "map f [0..<length data]" "encode_end @ rest"] wf by simp_all
  ultimately show ?thesis
    by (intro exI [of _ ?h]) (simp del: encode_entry.simps)
qed

definition data_addr :: "'w handler \<Rightarrow> nat" where
  "data_addr h = h_addr h + 88"

lemma execute_honest:
  fixes h :: "'w handler"
  assumes laws: "numbered_laws syscall_kind a s_ok c_ok" and "ready h"
    and st: "na_stage a (data_alloc h) = Ok ((argv, s), b)"
    and arm: "map_of host_arms (na_num a) = Some arm"
  shows "\<exists>x m4 m5 data. na_commit a s m4 = Some (x, m5) \<and> same_shape (block_mem h) m4 \<and>
    mem_read (data_addr h) (round8 (a_ptr b - (data_addr h))) m5 = Some data \<and>
    (\<forall>regs rax f w'. arm (argv_into 6 argv) \<lparr>mem_base = data_addr h, mem_data = data\<rparr> = Ok regs \<longrightarrow>
       kern (na_num a) regs \<lparr>mem_base = data_addr h, mem_data = data\<rparr> (h_world h) = (rax, f, w') \<longrightarrow>
       (\<exists>h'. h_world h' = w' \<and> same_frame h h' \<and>
          mem_read (data_addr h) (length data) (block_mem h') = Some (map f [0..<length data]) \<and>
          execute (honest_host kern cpuid (h_addr h)) h (item_call syscall_kind a) =
            obind (na_collect a x (na_ret a (rax, 0)) (block_mem h')) (\<lambda>v. Ret (Ok v, h'))))"
proof -
  from execute_request [OF assms(1-3), folded data_addr_def] obtain x m4 m5 data rest where
    c: "na_commit a s m4 = Some (x, m5)" "same_shape (block_mem h) m4"
      "mem_read (data_addr h) (round8 (a_ptr b - (data_addr h))) m5 = Some data"
    and l: "length (encode_entry (Known (request_item (na_num a) argv data)) @ encode_end @ rest) = length (h_block h)"
    and e: "\<And>host. execute host h (item_call syscall_kind a) =
      (let (r, h') = sally host (h\<lparr>h_block :=
             encode_entry (Known (request_item (na_num a) argv data)) @ encode_end @ rest\<rparr>)
       in case r of
            Inl e \<Rightarrow> Ret (Err e, h')
          | Inr _ \<Rightarrow> obind (na_collect a x (na_ret a (h_block h' ! 9, h_block h' ! 10)) (block_mem h'))
              (\<lambda>v. Ret (Ok v, h')))"
    by blast
  have argv: "length argv \<le> 6"
    using numbered_laws.na_stage_ok [OF laws st] by (simp add: syscall_kind_def)
  have d: "8 dvd length data"
    using mem_read_length [OF c(3)] round8_props(1) by simp
  have len: "72 + length data < usize_limit"
  proof -
    obtain k where "length data = 8 * k" using d ..
    with l assms(2) argv show ?thesis
      by (simp add: ready_def request_item_def length_words_of_bytes syscall_payload_words_def)
  qed
  let ?h = "h\<lparr>h_block := encode_entry (Known (request_item (na_num a) argv data)) @ encode_end @ rest\<rparr>"
  have "\<exists>h'. h_world h' = w' \<and> same_frame h h' \<and>
      mem_read (data_addr h) (length data) (block_mem h') = Some (map f [0..<length data]) \<and>
      execute (honest_host kern cpuid (h_addr h)) h (item_call syscall_kind a) =
        obind (na_collect a x (na_ret a (rax, 0)) (block_mem h')) (\<lambda>v. Ret (Ok v, h'))"
    if r: "arm (argv_into 6 argv) \<lparr>mem_base = data_addr h, mem_data = data\<rparr> = Ok regs"
      "kern (na_num a) regs \<lparr>mem_base = data_addr h, mem_data = data\<rparr> (h_world h) = (rax, f, w')"
    for regs rax f w'
  proof -
    from sally_request [of ?h "na_num a" argv data rest arm regs kern rax f w' cpuid] argv d len arm r
    obtain h' where h': "sally (honest_host kern cpuid (h_addr h)) ?h = (Ok (), h')" "h_world h' = w'"
      "h_block h' ! 9 = rax" "h_block h' ! 10 = 0"
      "mem_read (data_addr h) (length data) (block_mem h') = Some (map f [0..<length data])"
      by (auto simp: data_addr_def)
    moreover have "same_frame h h'"
      using sally_frame [OF h'(1)] l by (simp add: same_frame_def)
    ultimately show ?thesis
      using e [of "honest_host kern cpuid (h_addr h)"] by auto
  qed
  with c show ?thesis by blast
qed

section \<open>Reading and writing, end to end\<close>

text \<open>How much of a buffer fits into the block.\<close>

definition data_room :: "'w handler \<Rightarrow> byte list \<Rightarrow> nat" where
  "data_room h buf = min (length buf) (8 * length (h_block h) - 104)"

lemma allocate_bytes:
  assumes "ready h" "n \<le> 8 * length (h_block h) - 104"
  shows "allocate_input_slice u8_layout n (data_alloc h) =
      Ok (\<lparr>in_ptr = data_addr h, in_elem = u8_layout, in_count = n, in_offset = 0\<rparr>,
        \<lparr>a_ptr = data_addr h + n, a_len = 8 * length (h_block h) - 104 - n, a_offset = n\<rparr>)"
    and "allocate_output_slice u8_layout n (data_alloc h) =
      Ok (\<lparr>out_ptr = data_addr h, out_elem = u8_layout, out_count = n, out_offset = 0\<rparr>,
        \<lparr>a_ptr = data_addr h + n, a_len = 8 * length (h_block h) - 104 - n, a_offset = n\<rparr>)"
proof -
  have "n < isize_limit" "n < usize_limit" "8 * length (h_block h) < usize_limit"
    using assms by (auto simp: ready_def isize_limit_def usize_limit_def)
  then have "array_layout u8_layout n = Ok \<lparr>l_size = n, l_align = 1\<rparr>"
    by (simp add: array_layout_def layout_array_def checked_mul_def layout_from_size_align_def layouts)
  moreover have "allocate_layout \<lparr>l_size = n, l_align = 1\<rparr> (data_alloc h) = Ok (((data_addr h, n), 0),
      \<lparr>a_ptr = data_addr h + n, a_len = 8 * length (h_block h) - 104 - n, a_offset = n\<rparr>)"
    using assms(2) \<open>8 * length (h_block h) < usize_limit\<close>
    by (subst allocate_aligned) (simp_all add: data_alloc_def data_addr_def)
  ultimately show
    "allocate_input_slice u8_layout n (data_alloc h) =
      Ok (\<lparr>in_ptr = data_addr h, in_elem = u8_layout, in_count = n, in_offset = 0\<rparr>,
        \<lparr>a_ptr = data_addr h + n, a_len = 8 * length (h_block h) - 104 - n, a_offset = n\<rparr>)"
    "allocate_output_slice u8_layout n (data_alloc h) =
      Ok (\<lparr>out_ptr = data_addr h, out_elem = u8_layout, out_count = n, out_offset = 0\<rparr>,
        \<lparr>a_ptr = data_addr h + n, a_len = 8 * length (h_block h) - 104 - n, a_offset = n\<rparr>)"
    by (simp_all add: alloc_defs ref_defs sbind_def smap_def sresult_def)
qed

lemma alloc_free_data: "alloc_free u8_layout (data_alloc h) = 8 * length (h_block h) - 104"
  by (simp add: alloc_free_def data_alloc_def layouts)

lemma stage_bytes_data:
  assumes "ready h" and n_def: "n = data_room h buf"
  shows "input_stage_slice_max u8_layout buf (data_alloc h) =
      Ok ((\<lparr>i_ref = \<lparr>in_ptr = data_addr h, in_elem = u8_layout, in_count = n, in_offset = 0\<rparr>,
            i_val = take n buf\<rparr>, drop n buf),
        \<lparr>a_ptr = data_addr h + n, a_len = 8 * length (h_block h) - 104 - n, a_offset = n\<rparr>)"
    and "output_stage_slice_max u8_layout buf (data_alloc h) =
      Ok ((\<lparr>o_ref = \<lparr>out_ptr = data_addr h, out_elem = u8_layout, out_count = n, out_offset = 0\<rparr>,
            o_val = take n buf\<rparr>, drop n buf),
        \<lparr>a_ptr = data_addr h + n, a_len = 8 * length (h_block h) - 104 - n, a_offset = n\<rparr>)"
proof -
  have n: "n \<le> 8 * length (h_block h) - 104" "n \<le> length buf"
    by (simp_all add: n_def data_room_def)
  have m: "min (length buf) (alloc_free u8_layout (data_alloc h)) = n"
    by (simp add: alloc_free_data n_def data_room_def)
  have u: "l_size u8_layout = 1"
    by (simp add: u8_layout_def)
  show "input_stage_slice_max u8_layout buf (data_alloc h) =
      Ok ((\<lparr>i_ref = \<lparr>in_ptr = data_addr h, in_elem = u8_layout, in_count = n, in_offset = 0\<rparr>,
            i_val = take n buf\<rparr>, drop n buf),
        \<lparr>a_ptr = data_addr h + n, a_len = 8 * length (h_block h) - 104 - n, a_offset = n\<rparr>)"
    "output_stage_slice_max u8_layout buf (data_alloc h) =
      Ok ((\<lparr>o_ref = \<lparr>out_ptr = data_addr h, out_elem = u8_layout, out_count = n, out_offset = 0\<rparr>,
            o_val = take n buf\<rparr>, drop n buf),
        \<lparr>a_ptr = data_addr h + n, a_len = 8 * length (h_block h) - 104 - n, a_offset = n\<rparr>)"
    using n
    by (simp_all add: input_stage_slice_max_def output_stage_slice_max_def m u Let_def
        input_stage_slice_def output_stage_slice_def smap_def sbind_def in_ref_stage_slice_def
        allocate_bytes [OF assms(1)] min_absorb2)
qed

lemma data_addressable:
  assumes "ready h" "n \<le> 8 * length (h_block h) - 104"
  shows "unat (to_usize n) = n" "n < usize_limit"
  using assms by (auto simp: ready_def usize_limit_def unat_to_usize)

text \<open>The arm of the host accepts the request: the buffer begins the data.\<close>

lemma host_accepts_bytes:
  assumes "ready h" "n \<le> 8 * length (h_block h) - 104" "n \<le> length data"
  shows "host_write (argv_into 6 [fd, 0, to_usize n]) \<lparr>mem_base = data_addr h, mem_data = data\<rparr> =
      Ok [fd, to_usize (data_addr h), to_usize n]"
    and "host_read (argv_into 6 [fd, 0, to_usize n]) \<lparr>mem_base = data_addr h, mem_data = data\<rparr> =
      Ok [fd, to_usize (data_addr h), to_usize n]"
  using assms data_addressable [OF assms(1,2)]
  by (simp_all add: host_write_def host_read_def deref_def checked_mul_def argv_into_def u8_layout_def)

lemma bytes_committed:
  assumes "ready h" "same_shape (block_mem h) m" "n \<le> 8 * length (h_block h) - 104" "n \<le> length buf"
    and "bytes_input_commit \<lparr>i_ref = \<lparr>in_ptr = data_addr h, in_elem = u8_layout, in_count = n,
      in_offset = 0\<rparr>, i_val = take n buf\<rparr> m = Some (x, m')"
  shows "x = n" "mem_read (data_addr h) n m' = Some (take n buf)"
proof -
  let ?i = "\<lparr>i_ref = \<lparr>in_ptr = data_addr h, in_elem = u8_layout, in_count = n, in_offset = 0\<rparr>,
    i_val = take n buf\<rparr>"
  have "input_ok (data_addr h) (data_addr h + n) ?i"
    using assms(4) by (simp add: input_ok_def in_ref_ok_def u8_layout_def)
  moreover have "in_mem m (data_addr h) (data_addr h + n - data_addr h)"
    using assms(1-3) by (auto simp: in_mem_def same_shape_def ready_def data_addr_def)
  ultimately obtain m'' where "input_commit_slice ?i m = Some ((), m'')"
    "mem_read (data_addr h) n m'' = Some (take n buf)"
    using input_commit_slice_ok [of "data_addr h" "data_addr h + n" ?i m] assms(4) by auto
  with assms(5) show "x = n" "mem_read (data_addr h) n m' = Some (take n buf)"
    by (simp_all add: bytes_input_commit_def cbind_def)
qed

lemma write_alloc_sel:
  "na_num (write_alloc fd buf) = SYS_write" "na_commit (write_alloc fd buf) = bytes_input_commit"
  "na_ret (write_alloc fd buf) = sys_result_usize"
  "na_collect (write_alloc fd buf) count ret m = Ret (check_count count ret)"
  by (simp_all add: write_alloc_def)

text \<open>C1: a write, from the guest through the host's \<^verbatim>\<open>execute\<close> to the kernel and back. The
  kernel is asked to write to the same descriptor, from the data of the item, as many bytes as the
  block has room for; these bytes are the beginning of the buffer. The guest returns the count or
  the error of the kernel, and gives up when the kernel claims to have written more.\<close>

theorem write_end_to_end:
  assumes "ready h"
  shows "\<exists>pad. length pad < 8 \<and>
    (\<forall>rax f w'. kern SYS_write [as_usize fd, to_usize (data_addr h), to_usize (data_room h buf)]
         \<lparr>mem_base = data_addr h, mem_data = take (data_room h buf) buf @ pad\<rparr> (h_world h) = (rax, f, w') \<longrightarrow>
       (\<exists>h'. h_world h' = w' \<and> same_frame h h' \<and>
          handler_write (honest_host kern cpuid (h_addr h)) h fd buf =
            (if ERRNO_START \<le> rax then Ret (Err (errno_of rax), h')
             else if unat rax \<le> data_room h buf then Ret (Ok rax, h') else Attacked)))"
proof -
  define n where "n = data_room h buf"
  have n: "n \<le> 8 * length (h_block h) - 104" "n \<le> length buf"
    by (simp_all add: n_def data_room_def)
  let ?i = "\<lparr>i_ref = \<lparr>in_ptr = data_addr h, in_elem = u8_layout, in_count = n, in_offset = 0\<rparr>, i_val = take n buf\<rparr>"
  have "na_stage (write_alloc fd buf) (data_alloc h) = Ok (([as_usize fd, 0, to_usize n], ?i),
      \<lparr>a_ptr = data_addr h + n, a_len = 8 * length (h_block h) - 104 - n, a_offset = n\<rparr>)"
    by (simp add: write_alloc_def sbind_def stage_bytes_data [OF assms n_def] input_offset_def
        input_len_def to_usize_def)
  from execute_honest [OF sys_write.numbered_laws_axioms assms this, of host_write kern cpuid]
  obtain x m4 m5 data where
    c: "bytes_input_commit ?i m4 = Some (x, m5)" "same_shape (block_mem h) m4"
    and d: "mem_read (data_addr h) (round8 n) m5 = Some data"
    and e: "\<And>regs rax f w'. host_write (argv_into 6 [as_usize fd, 0, to_usize n])
        \<lparr>mem_base = data_addr h, mem_data = data\<rparr> = Ok regs \<Longrightarrow>
      kern SYS_write regs \<lparr>mem_base = data_addr h, mem_data = data\<rparr> (h_world h) = (rax, f, w') \<Longrightarrow>
      \<exists>h'. h_world h' = w' \<and> same_frame h h' \<and>
        execute (honest_host kern cpuid (h_addr h)) h (syscall_call (write_alloc fd buf)) =
          Ret (Ok (check_count x (sys_result_usize (rax, 0))), h')"
    by (simp add: write_alloc_sel) blast
  have x: "x = n" and w: "mem_read (data_addr h) n m5 = Some (take n buf)"
    using bytes_committed [OF assms c(2) n c(1)] by simp_all
  have t: "take n data = take n buf" and l: "length (drop n data) < 8"
    using mem_read_take [OF d, of n] w mem_read_length [OF d] round8_props [of n] by simp_all
  then have data: "data = take n buf @ drop n data"
    by (metis append_take_drop_id)
  have a: "host_write (argv_into 6 [as_usize fd, 0, to_usize n]) \<lparr>mem_base = data_addr h, mem_data = data\<rparr> =
      Ok [as_usize fd, to_usize (data_addr h), to_usize n]"
    using host_accepts_bytes(1) [OF assms n(1)] mem_read_length [OF d] round8_props(2) by simp
  have "\<exists>h'. h_world h' = w' \<and> same_frame h h' \<and>
      handler_write (honest_host kern cpuid (h_addr h)) h fd buf =
        (if ERRNO_START \<le> rax then Ret (Err (errno_of rax), h')
         else if unat rax \<le> n then Ret (Ok rax, h') else Attacked)"
    if "kern SYS_write [as_usize fd, to_usize (data_addr h), to_usize n]
      \<lparr>mem_base = data_addr h, mem_data = data\<rparr> (h_world h) = (rax, f, w')" for rax f w'
    using e [OF a that] x
    by (auto simp: handler_write_def exec_checked_def check_count_def sys_result_usize_def)
  with l data show ?thesis
    unfolding n_def by metis
qed

theorem write_end_to_end_witness:
  "\<exists>h'. h_world h' = (1 :: nat) \<and>
     handler_write (honest_host (\<lambda>num regs data w. (3, \<lambda>i. 0, w + 1))
         (\<lambda>_ _. \<lparr>cpuid_eax = 0, cpuid_ebx = 0, cpuid_ecx = 0, cpuid_edx = 0\<rparr>) 4096)
       \<lparr>h_addr = 4096, h_block = replicate 14 0, h_actions = [], h_world = 0\<rparr> 1 [72, 105, 33] =
     Ret (Ok 3, h')"
proof -
  let ?h = "\<lparr>h_addr = 4096, h_block = replicate 14 0, h_actions = [], h_world = 0 :: nat\<rparr>"
  have "ready ?h"
    by (simp add: ready_def usize_limit_def isize_limit_def)
  from write_end_to_end [OF this, of "\<lambda>num regs data w. (3, \<lambda>i. 0, w + 1)" 1 "[72, 105, 33]"
      "\<lambda>_ _. \<lparr>cpuid_eax = 0, cpuid_ebx = 0, cpuid_ecx = 0, cpuid_edx = 0\<rparr>"]
  show ?thesis
    by (auto simp: ERRNO_START_def MAX_ERRNO_def data_room_def)
qed

lemma read_alloc_sel:
  "na_num (read_alloc fd buf) = SYS_read" "na_commit (read_alloc fd buf) = output_commit"
  "na_ret (read_alloc fd buf) = sys_result_usize"
  "na_collect (read_alloc fd buf) b ret m = obind (collect_counted b ret m) (\<lambda>(res, bs).
     Ret (res, bs @ drop (length bs) buf))"
  by (simp_all add: read_alloc_def)

lemma collect_bytes:
  assumes "mem_read a k m = Some (map f [0..<k])" "n \<le> k" "n \<le> length buf"
  shows "obind (collect_counted \<lparr>o_ref = \<lparr>out_ptr = a, out_elem = u8_layout, out_count = n, out_offset = 0\<rparr>,
      o_val = take n buf\<rparr> (Ok rax) m) (\<lambda>(res, bs). Ret (res, bs @ drop (length bs) buf)) =
    (if unat rax \<le> n then Ret (Some (Ok rax), map f [0..<unat rax] @ drop (unat rax) buf)
     else Ret (None, buf))"
proof (cases "unat rax \<le> n")
  case True
  with assms(2) have "mem_read a (unat rax) m = Some (map f [0..<unat rax])"
    using mem_read_take [OF assms(1), of "unat rax"] by (simp add: take_map)
  moreover have "take (n - unat rax) (drop (unat rax) buf) @ drop n buf = drop (unat rax) buf"
    using append_take_drop_id [of "n - unat rax" "drop (unat rax) buf"] True by simp
  ultimately show ?thesis
    using True assms(3)
    by (simp add: Let_def collect_counted_def output_collect_range_def copy_to_unchecked_def
        copy_to_iter_unchecked_def u8_layout_def min_absorb2 drop_take)
next
  case False
  then show ?thesis
    using assms(3) by (simp add: collect_counted_def)
qed

text \<open>C2: a read, from the guest through the host's \<^verbatim>\<open>execute\<close> to the kernel and back. The
  kernel is asked to read from the same descriptor into the data of the item, as many bytes as the
  block has room for. On success the guest finds in its buffer exactly the bytes the kernel left
  there, as many as it reported, followed by the old contents; it gives up when the kernel claims to
  have read more than it was asked for.\<close>

theorem read_end_to_end:
  assumes "ready h"
  shows "\<exists>data. \<forall>rax f w'.
    kern SYS_read [as_usize fd, to_usize (data_addr h), to_usize (data_room h buf)]
      \<lparr>mem_base = data_addr h, mem_data = data\<rparr> (h_world h) = (rax, f, w') \<longrightarrow>
    (\<exists>h'. h_world h' = w' \<and> same_frame h h' \<and>
       handler_read (honest_host kern cpuid (h_addr h)) h fd buf =
         (if ERRNO_START \<le> rax then Ret (Err (errno_of rax), buf, h')
          else if unat rax \<le> data_room h buf
          then Ret (Ok rax, map f [0..<unat rax] @ drop (unat rax) buf, h') else Attacked))"
proof -
  define n where "n = data_room h buf"
  have n: "n \<le> 8 * length (h_block h) - 104" "n \<le> length buf"
    by (simp_all add: n_def data_room_def)
  let ?b = "\<lparr>o_ref = \<lparr>out_ptr = data_addr h, out_elem = u8_layout, out_count = n, out_offset = 0\<rparr>,
    o_val = take n buf\<rparr>"
  have "na_stage (read_alloc fd buf) (data_alloc h) = Ok (([as_usize fd, 0, to_usize n], ?b),
      \<lparr>a_ptr = data_addr h + n, a_len = 8 * length (h_block h) - 104 - n, a_offset = n\<rparr>)"
    by (simp add: read_alloc_def sbind_def stage_bytes_data [OF assms n_def] output_offset_def
        output_len_def to_usize_def)
  from execute_honest [OF read.numbered_laws_axioms assms this, of host_read kern cpuid]
  obtain x m4 m5 data where c: "output_commit ?b m4 = Some (x, m5)" "same_shape (block_mem h) m4"
    and d: "mem_read (data_addr h) (round8 n) m5 = Some data"
    and e: "\<And>regs rax f w'. host_read (argv_into 6 [as_usize fd, 0, to_usize n])
        \<lparr>mem_base = data_addr h, mem_data = data\<rparr> = Ok regs \<Longrightarrow>
      kern SYS_read regs \<lparr>mem_base = data_addr h, mem_data = data\<rparr> (h_world h) = (rax, f, w') \<Longrightarrow>
      \<exists>h'. h_world h' = w' \<and> same_frame h h' \<and>
        mem_read (data_addr h) (length data) (block_mem h') = Some (map f [0..<length data]) \<and>
        execute (honest_host kern cpuid (h_addr h)) h (syscall_call (read_alloc fd buf)) =
          obind (obind (collect_counted x (sys_result_usize (rax, 0)) (block_mem h'))
            (\<lambda>(res, bs). Ret (res, bs @ drop (length bs) buf))) (\<lambda>v. Ret (Ok v, h'))"
    by (simp add: read_alloc_sel) blast
  have x: "x = ?b" and l: "length data = round8 n"
    using c(1) mem_read_length [OF d] by (simp_all add: output_commit_def)
  have a: "host_read (argv_into 6 [as_usize fd, 0, to_usize n]) \<lparr>mem_base = data_addr h, mem_data = data\<rparr> =
      Ok [as_usize fd, to_usize (data_addr h), to_usize n]"
    using host_accepts_bytes(2) [OF assms n(1)] l round8_props(2) by simp
  have "\<exists>h'. h_world h' = w' \<and> same_frame h h' \<and>
      handler_read (honest_host kern cpuid (h_addr h)) h fd buf =
        (if ERRNO_START \<le> rax then Ret (Err (errno_of rax), buf, h')
         else if unat rax \<le> n then Ret (Ok rax, map f [0..<unat rax] @ drop (unat rax) buf, h')
         else Attacked)"
    if "kern SYS_read [as_usize fd, to_usize (data_addr h), to_usize n]
      \<lparr>mem_base = data_addr h, mem_data = data\<rparr> (h_world h) = (rax, f, w')" for rax f w'
    using e [OF a that] x l round8_props(2) [of n] n(2)
    by (auto simp: handler_read_def exec_checked_buf_def sys_result_usize_def collect_bytes
        collect_counted_def [of _ "Err _"])
  then show ?thesis
    unfolding n_def by blast
qed

theorem read_end_to_end_witness:
  "\<exists>h'. h_world h' = (1 :: nat) \<and>
     handler_read (honest_host (\<lambda>num regs data w. (2, \<lambda>i. 7, w + 1))
         (\<lambda>_ _. \<lparr>cpuid_eax = 0, cpuid_ebx = 0, cpuid_ecx = 0, cpuid_edx = 0\<rparr>) 4096)
       \<lparr>h_addr = 4096, h_block = replicate 14 0, h_actions = [], h_world = 0\<rparr> 1 [72, 105, 33] =
     Ret (Ok 2, [7, 7, 33], h')"
proof -
  let ?h = "\<lparr>h_addr = 4096, h_block = replicate 14 0, h_actions = [], h_world = 0 :: nat\<rparr>"
  have "ready ?h"
    by (simp add: ready_def usize_limit_def isize_limit_def)
  from read_end_to_end [OF this, of "\<lambda>num regs data w. (2, \<lambda>i. 7, w + 1)" 1 "[72, 105, 33]"
      "\<lambda>_ _. \<lparr>cpuid_eax = 0, cpuid_ebx = 0, cpuid_ecx = 0, cpuid_edx = 0\<rparr>"]
  show ?thesis
    by (auto simp: ERRNO_START_def MAX_ERRNO_def data_room_def upt_rec [of 0] upt_rec [of "Suc 0"])
qed

end
