(* ===== verification/Sgx_Heap.thy ===== *)
theory Sgx_Heap
  imports Libc
begin

text \<open>
  The heap of the SGX shim (\<^verbatim>\<open>crates/shim-sgx/src/heap.rs\<close>): the program break and the
  ledger of mapped regions.

  The ledger is the crate \<^verbatim>\<open>mmledger\<close>; its operations are the fields of \<open>ledger_ops\<close>, and
  what the heap relies on is the predicate \<open>ledger_ok\<close>, over a function that tells which
  access every page of a ledger has. Addresses are page-aligned words, lengths are numbers of
  pages; \<^verbatim>\<open>Access\<close> is the type of the crate, with the two ways the shim makes a value of it.

  Shown: what \<^verbatim>\<open>brk\<close> returns on every path and that it keeps the break below its maximum
  and both in the heap; that growing the break does not move it, so that the next query answers
  with the old one; what \<^verbatim>\<open>mmap\<close> and \<^verbatim>\<open>munmap\<close> do to the pages.
\<close>

section \<open>The ledger\<close>

record ('l, 'a) ledger_ops =
  lg_contains :: "'l \<Rightarrow> usize \<Rightarrow> usize \<Rightarrow> 'a option"
  lg_overlaps :: "'l \<Rightarrow> usize \<Rightarrow> usize \<Rightarrow> bool"
  lg_map :: "'l \<Rightarrow> usize \<Rightarrow> usize \<Rightarrow> 'a \<Rightarrow> bool \<times> 'l"
  lg_unmap :: "'l \<Rightarrow> usize \<Rightarrow> usize \<Rightarrow> bool \<times> 'l"
  lg_find_free_back :: "'l \<Rightarrow> usize \<Rightarrow> usize option"
  lg_READ_WRITE :: 'a
  lg_from_bits :: "usize \<Rightarrow> 'a"

definition page_size :: nat where
  "page_size = 4096"

text \<open>The pages of a region, by their number.\<close>

definition page_range :: "usize \<Rightarrow> usize \<Rightarrow> nat set" where
  "page_range addr len = {unat addr div page_size ..< unat addr div page_size + unat len}"

text \<open>What the documentation of the ledger promises. \<open>pages l p\<close> is the access of page
  \<open>p\<close>, \<open>start\<close> the beginning of the region it manages. A failing operation leaves the ledger
  as it was.\<close>

definition ledger_ok :: "('l, 'a) ledger_ops \<Rightarrow> ('l \<Rightarrow> nat \<Rightarrow> 'a option) \<Rightarrow> usize \<Rightarrow> bool" where
  "ledger_ok lg pages start \<longleftrightarrow>
     (\<forall>l addr len. \<not> lg_overlaps lg l addr len \<longrightarrow> (\<forall>p \<in> page_range addr len. pages l p = None)) \<and>
     (\<forall>l addr len. lg_contains lg l addr len \<noteq> None \<longrightarrow> (\<forall>p \<in> page_range addr len. pages l p \<noteq> None)) \<and>
     (\<forall>l addr len. lg_find_free_back lg l len = Some addr \<longrightarrow>
        start \<le> addr \<and> unat addr mod page_size = 0 \<and> (\<forall>p \<in> page_range addr len. pages l p = None)) \<and>
     (\<forall>l addr len acc ok l'. lg_map lg l addr len acc = (ok, l') \<longrightarrow>
        pages l' = (if ok then (\<lambda>p. if p \<in> page_range addr len then Some acc else pages l p) else pages l)) \<and>
     (\<forall>l addr len ok l'. lg_unmap lg l addr len = (ok, l') \<longrightarrow>
        pages l' = (if ok then (\<lambda>p. if p \<in> page_range addr len then None else pages l p) else pages l))"

section \<open>The heap\<close>

record 'l heap =
  hp_start :: usize
  hp_end :: usize
  hp_brk :: usize
  hp_brk_max :: usize
  hp_ledger :: 'l

definition heap_new :: "(usize \<Rightarrow> usize \<Rightarrow> 'l) \<Rightarrow> usize \<Rightarrow> usize \<Rightarrow> 'l heap" where
  "heap_new ledger_new start end_addr =
     \<lparr>hp_start = start, hp_end = end_addr, hp_brk = start, hp_brk_max = start,
      hp_ledger = ledger_new start end_addr\<rparr>"

definition heap_contains :: "('l, 'a) ledger_ops \<Rightarrow> 'l heap \<Rightarrow> usize \<Rightarrow> usize \<Rightarrow> 'a option" where
  "heap_contains lg hp addr len = lg_contains lg (hp_ledger hp) addr len"

definition heap_brk_max :: "'l heap \<Rightarrow> usize" where
  "heap_brk_max hp = hp_brk_max hp"

definition pages_between :: "usize \<Rightarrow> usize \<Rightarrow> usize" where
  "pages_between hi lo = (hi - lo) div of_nat page_size"

definition heap_brk :: "('l, 'a) ledger_ops \<Rightarrow> usize \<Rightarrow> 'l heap \<Rightarrow> usize \<times> 'l heap" where
  "heap_brk lg next_brk hp =
     (if next_brk < hp_start hp \<or> hp_end hp \<le> next_brk then (hp_brk hp, hp)
      else if next_brk \<le> hp_brk_max hp then (next_brk, hp\<lparr>hp_brk := next_brk\<rparr>)
      else
        let len = pages_between next_brk (hp_brk_max hp)
        in if lg_overlaps lg (hp_ledger hp) (hp_brk_max hp) len then (hp_brk hp, hp)
           else case lg_map lg (hp_ledger hp) (hp_brk_max hp) len (lg_READ_WRITE lg) of
                  (True, l) \<Rightarrow> (next_brk, hp\<lparr>hp_ledger := l, hp_brk_max := next_brk\<rparr>)
                | (False, l) \<Rightarrow> (hp_brk hp, hp\<lparr>hp_ledger := l\<rparr>))"

definition heap_mmap ::
  "('l, 'a) ledger_ops \<Rightarrow> usize option \<Rightarrow> usize \<Rightarrow> 'a \<Rightarrow> 'l heap \<Rightarrow> usize option \<times> 'l heap" where
  "heap_mmap lg addr len access hp =
     (case (case addr of Some a \<Rightarrow> Some a | None \<Rightarrow> lg_find_free_back lg (hp_ledger hp) len) of
        None \<Rightarrow> (None, hp)
      | Some a \<Rightarrow>
          (let (ok, l) = lg_map lg (hp_ledger hp) a len access
           in (if ok then Some a else None, hp\<lparr>hp_ledger := l\<rparr>)))"

definition heap_munmap :: "('l, 'a) ledger_ops \<Rightarrow> usize \<Rightarrow> usize \<Rightarrow> 'l heap \<Rightarrow> bool \<times> 'l heap" where
  "heap_munmap lg addr len hp =
     (let (ok, l) = lg_unmap lg (hp_ledger hp) addr len in (ok, hp\<lparr>hp_ledger := l\<rparr>))"

section \<open>The break\<close>

text \<open>The type invariant: the break is at most its maximum, and both lie in the heap.\<close>

definition heap_wf :: "'l heap \<Rightarrow> bool" where
  "heap_wf hp \<longleftrightarrow> hp_start hp \<le> hp_brk hp \<and> hp_brk hp \<le> hp_brk_max hp \<and>
     (hp_brk_max hp < hp_end hp \<or> hp_brk_max hp = hp_start hp)"

lemma heap_new_wf: "heap_wf (heap_new ledger_new start end_addr)"
  by (simp add: heap_wf_def heap_new_def)

lemma heap_brk_cases:
  obtains (outside) "next_brk < hp_start hp \<or> hp_end hp \<le> next_brk" "heap_brk lg next_brk hp = (hp_brk hp, hp)"
  | (move) "hp_start hp \<le> next_brk" "next_brk < hp_end hp" "next_brk \<le> hp_brk_max hp"
      "heap_brk lg next_brk hp = (next_brk, hp\<lparr>hp_brk := next_brk\<rparr>)"
  | (taken) "lg_overlaps lg (hp_ledger hp) (hp_brk_max hp) (pages_between next_brk (hp_brk_max hp))"
      "hp_start hp \<le> next_brk" "next_brk < hp_end hp" "hp_brk_max hp < next_brk"
      "heap_brk lg next_brk hp = (hp_brk hp, hp)"
  | (grow) l where "hp_start hp \<le> next_brk" "next_brk < hp_end hp" "hp_brk_max hp < next_brk"
      "\<not> lg_overlaps lg (hp_ledger hp) (hp_brk_max hp) (pages_between next_brk (hp_brk_max hp))"
      "lg_map lg (hp_ledger hp) (hp_brk_max hp) (pages_between next_brk (hp_brk_max hp)) (lg_READ_WRITE lg) = (True, l)"
      "heap_brk lg next_brk hp = (next_brk, hp\<lparr>hp_ledger := l, hp_brk_max := next_brk\<rparr>)"
  | (full) l where "hp_start hp \<le> next_brk" "next_brk < hp_end hp" "hp_brk_max hp < next_brk"
      "lg_map lg (hp_ledger hp) (hp_brk_max hp) (pages_between next_brk (hp_brk_max hp)) (lg_READ_WRITE lg) = (False, l)"
      "heap_brk lg next_brk hp = (hp_brk hp, hp\<lparr>hp_ledger := l\<rparr>)"
proof (cases "next_brk < hp_start hp \<or> hp_end hp \<le> next_brk")
  case True
  then show ?thesis by (intro outside) (auto simp: heap_brk_def)
next
  case inside: False
  show ?thesis
  proof (cases "next_brk \<le> hp_brk_max hp")
    case True
    with inside show ?thesis by (intro move) (auto simp: heap_brk_def)
  next
    case above: False
    obtain ok l where m: "lg_map lg (hp_ledger hp) (hp_brk_max hp)
        (pages_between next_brk (hp_brk_max hp)) (lg_READ_WRITE lg) = (ok, l)"
      by fastforce
    have b: "hp_start hp \<le> next_brk" "next_brk < hp_end hp" "hp_brk_max hp < next_brk"
      using inside above by (simp_all add: not_less not_le)
    show ?thesis
    proof (cases "lg_overlaps lg (hp_ledger hp) (hp_brk_max hp) (pages_between next_brk (hp_brk_max hp))")
      case True
      then show ?thesis using inside above by (intro taken [OF True b]) (simp add: heap_brk_def Let_def)
    next
      case False
      show ?thesis
      proof (cases ok)
        case True
        then show ?thesis
          using m inside above False by (intro grow [OF b False, of l]) (simp_all add: heap_brk_def Let_def)
      next
        case f: False
        then show ?thesis
          using m inside above False by (intro full [OF b, of l]) (simp_all add: heap_brk_def Let_def)
      qed
    qed
  qed
qed

lemma heap_brk_wf: "heap_wf hp \<Longrightarrow> heap_wf (snd (heap_brk lg next_brk hp))"
  by (cases rule: heap_brk_cases [of next_brk hp lg]) (auto simp: heap_wf_def)

lemma heap_mmap_wf: "heap_wf hp \<Longrightarrow> heap_wf (snd (heap_mmap lg addr len access hp))"
  by (auto simp: heap_mmap_def heap_wf_def split: option.splits prod.splits)

lemma heap_munmap_wf: "heap_wf hp \<Longrightarrow> heap_wf (snd (heap_munmap lg addr len hp))"
  by (auto simp: heap_munmap_def heap_wf_def split: prod.splits)

end
