(* ===== verification/Sgx_Memory.thy ===== *)
theory Sgx_Memory
  imports Sgx_Heap Requests
begin

text \<open>
  Memory management of the SGX shim (\<^verbatim>\<open>crates/shim-sgx/src/handler/mod.rs\<close>):
  \<^verbatim>\<open>brk\<close>, \<^verbatim>\<open>mmap\<close>, \<^verbatim>\<open>mprotect\<close>, \<^verbatim>\<open>munmap\<close> and the helpers they share.

  The state is the handler of the guest, the heap and the enclave's page cache. The instructions
  that accept, copy and extend pages are parameters (\<open>epc_ops\<close>): each may refuse, which is how
  the enclave notices that the host did not do what it was asked, and the shim then gives up.

  Shown: the heap stays well-formed; a page of the heap is never writable and executable at once;
  every error path; what a refusal of the host leaves behind.
\<close>

unbundle bit_operations_syntax

section \<open>State\<close>

record 'p epc_ops =
  epc_accept_copy :: "byte \<Rightarrow> usize \<Rightarrow> 'p \<Rightarrow> 'p option"
  epc_accept_restricted :: "usize \<Rightarrow> 'p \<Rightarrow> 'p option"
  epc_extend :: "byte \<Rightarrow> usize \<Rightarrow> 'p \<Rightarrow> 'p"
  epc_accept_trimmed :: "usize \<Rightarrow> 'p \<Rightarrow> 'p option"

record ('w, 'l, 'p) keep =
  k_handler :: "'w handler"
  k_heap :: "'l heap"
  k_epc :: 'p

text \<open>What the operations work with: the ledger, the instructions and the host.\<close>

record ('w, 'l, 'a, 'p) sgx_env =
  env_ledger :: "('l, 'a) ledger_ops"
  env_epc :: "'p epc_ops"
  env_host :: "'w host"

section \<open>Operations\<close>

definition is_prot_allowed :: "c_int \<Rightarrow> bool" where
  "is_prot_allowed prot \<longleftrightarrow>
     prot = PROT_READ \<or> prot = PROT_READ OR PROT_WRITE \<or> prot = PROT_READ OR PROT_EXEC"

text \<open>The loops over the pages of a region.\<close>

primrec for_pages :: "(usize \<Rightarrow> 'p \<Rightarrow> 'p option) \<Rightarrow> usize \<Rightarrow> nat \<Rightarrow> 'p \<Rightarrow> 'p option" where
  "for_pages f addr 0 p = Some p"
| "for_pages f addr (Suc n) p =
     Option.bind (for_pages f addr n p) (f (addr + of_nat n * of_nat page_size))"

definition mmap_guest ::
  "('w, 'l, 'a, 'p) sgx_env \<Rightarrow> usize \<Rightarrow> usize \<Rightarrow> c_int \<Rightarrow> ('w, 'l, 'p) keep \<Rightarrow> ('w, 'l, 'p) keep outcome" where
  "mmap_guest env addr len prot k =
     (case for_pages (epc_accept_copy (env_epc env) (ucast prot)) addr (unat len) (k_epc k) of
        None \<Rightarrow> Attacked
      | Some p \<Rightarrow> Ret (k\<lparr>k_epc := p\<rparr>))"

text \<open>The number of pages of a length in bytes; the sum wraps.\<close>

definition page_count :: "usize \<Rightarrow> usize" where
  "page_count len = ((len + of_nat page_size - 1) AND NOT (of_nat page_size - 1)) div of_nat page_size"

definition in_bytes :: "usize \<Rightarrow> usize" where
  "in_bytes len = len * of_nat page_size"

definition mprotect_unlocked ::
  "('w, 'l, 'a, 'p) sgx_env \<Rightarrow> usize \<Rightarrow> usize \<Rightarrow> c_int \<Rightarrow> ('w, 'l, 'p) keep \<Rightarrow>
     (unit result \<times> ('w, 'l, 'p) keep) outcome" where
  "mprotect_unlocked env addr length_in prot k =
     (let pages = page_count length_in
      in if addr AND 0xfff \<noteq> 0 \<or> pages = 0 then Ret (Err EINVAL, k)
         else if \<not> is_prot_allowed prot then Ret (Err EACCES, k)
         else if heap_contains (env_ledger env) (k_heap k) addr pages = None then Ret (Err ENOMEM, k)
         else obind (handler_mprotect_host (env_host env) (k_handler k) addr (in_bytes pages) prot) (\<lambda>(r, h).
                let k = k\<lparr>k_handler := h\<rparr>
                in case r of
                     Inl e \<Rightarrow> Ret (Err e, k)
                   | Inr _ \<Rightarrow>
                       (case for_pages (\<lambda>a p. map_option (epc_extend (env_epc env) (ucast prot) a)
                                                (epc_accept_restricted (env_epc env) a p))
                               addr (unat pages) (k_epc k) of
                          None \<Rightarrow> Attacked
                        | Some p \<Rightarrow>
                            let access = lg_from_bits (env_ledger env) (as_usize prot);
                                (_, hp) = heap_mmap (env_ledger env) (Some addr) pages access (k_heap k)
                            in Ret (Ok (), k\<lparr>k_epc := p, k_heap := hp\<rparr>))))"

definition munmap_unlocked ::
  "('w, 'l, 'a, 'p) sgx_env \<Rightarrow> usize \<Rightarrow> usize \<Rightarrow> ('w, 'l, 'p) keep \<Rightarrow>
     (unit result \<times> ('w, 'l, 'p) keep) outcome" where
  "munmap_unlocked env addr length_in k =
     (let pages = page_count length_in
      in if addr AND 0xfff \<noteq> 0 \<or> pages = 0 then Ret (Err EINVAL, k)
         else if heap_contains (env_ledger env) (k_heap k) addr pages = None then Ret (Ok (), k)
         else
           let (ok, hp) = heap_munmap (env_ledger env) addr pages (k_heap k);
               k = k\<lparr>k_heap := hp\<rparr>
           in if \<not> ok then Ret (Err ENOMEM, k)
              else obind (handler_trim_sgx_pages (env_host env) (k_handler k) addr (in_bytes pages)) (\<lambda>(r, h).
                case r of
                  Inl _ \<Rightarrow> Attacked
                | Inr _ \<Rightarrow>
                    (case for_pages (epc_accept_trimmed (env_epc env)) addr (unat pages) (k_epc k) of
                       None \<Rightarrow> Attacked
                     | Some p \<Rightarrow>
                         obind (handler_munmap_host (env_host env) h addr (in_bytes pages)) (\<lambda>(r, h).
                           case r of
                             Inl _ \<Rightarrow> Attacked
                           | Inr _ \<Rightarrow> Ret (Ok (), k\<lparr>k_handler := h, k_epc := p\<rparr>)))))"

text \<open>\<^verbatim>\<open>NonNull::new(..).unwrap()\<close> panics at the null pointer.\<close>

definition non_null :: "usize \<Rightarrow> usize outcome" where
  "non_null p = (if p = 0 then Panic else Ret p)"

definition sgx_brk ::
  "('w, 'l, 'a, 'p) sgx_env \<Rightarrow> usize option \<Rightarrow> ('w, 'l, 'p) keep \<Rightarrow>
     (usize result \<times> ('w, 'l, 'p) keep) outcome" where
  "sgx_brk env addr k =
     (let addr = (case addr of
            Some v \<Rightarrow> (v + of_nat page_size - 1) AND NOT (of_nat page_size - 1)
          | None \<Rightarrow> 0);
          max_addr = heap_brk_max (k_heap k);
          (addr, hp) = heap_brk (env_ledger env) addr (k_heap k);
          k = k\<lparr>k_heap := hp\<rparr>
      in if max_addr < addr
         then obind (non_null max_addr) (\<lambda>p.
              obind (handler_mmap_host (env_host env) (k_handler k) p (addr - max_addr)
                       (PROT_READ OR PROT_WRITE)) (\<lambda>(r, h).
                let k = k\<lparr>k_handler := h\<rparr>
                in case r of
                     Inl e \<Rightarrow> Ret (Err e, k)
                   | Inr _ \<Rightarrow> obind (mmap_guest env max_addr (pages_between addr max_addr)
                                 (PROT_READ OR PROT_WRITE) k) (\<lambda>k.
                                   obind (non_null addr) (\<lambda>p. Ret (Ok p, k)))))
         else obind (non_null addr) (\<lambda>p. Ret (Ok p, k)))"

definition sgx_madvise ::
  "usize \<Rightarrow> usize \<Rightarrow> c_int \<Rightarrow> ('w, 'l, 'p) keep \<Rightarrow> (unit result \<times> ('w, 'l, 'p) keep) outcome" where
  "sgx_madvise addr len advice k = Ret (Ok (), k)"

definition sgx_mprotect ::
  "('w, 'l, 'a, 'p) sgx_env \<Rightarrow> usize \<Rightarrow> usize \<Rightarrow> c_int \<Rightarrow> ('w, 'l, 'p) keep \<Rightarrow>
     (unit result \<times> ('w, 'l, 'p) keep) outcome" where
  "sgx_mprotect env addr len prot k = mprotect_unlocked env addr len prot k"

definition sgx_mmap ::
  "('w, 'l, 'a, 'p) sgx_env \<Rightarrow> usize option \<Rightarrow> usize \<Rightarrow> c_int \<Rightarrow> c_int \<Rightarrow> c_int \<Rightarrow> 64 word \<Rightarrow>
     ('w, 'l, 'p) keep \<Rightarrow> (usize result \<times> ('w, 'l, 'p) keep) outcome" where
  "sgx_mmap env addr len prot flags fd offset k =
     (let addr = (case addr of Some v \<Rightarrow> v | None \<Rightarrow> 0);
          prot = prot OR PROT_READ
      in if addr \<noteq> 0 \<or> len = 0 \<or> fd \<noteq> - 1 \<or> offset \<noteq> 0 \<or> flags \<noteq> MAP_PRIVATE OR MAP_ANONYMOUS
         then Ret (Err ENOTSUP, k)
         else if prot \<noteq> 0 \<and> \<not> is_prot_allowed prot then Ret (Err EACCES, k)
         else
           let pages = (len + of_nat page_size - 1) div of_nat page_size;
               access = lg_from_bits (env_ledger env) (as_usize prot);
               (found, hp) = heap_mmap (env_ledger env) None pages access (k_heap k);
               k = k\<lparr>k_heap := hp\<rparr>
           in case found of
                None \<Rightarrow> Ret (Err ENOMEM, k)
              | Some addr \<Rightarrow>
                  obind (non_null addr) (\<lambda>addr.
                  obind (handler_mmap_host (env_host env) (k_handler k) addr (in_bytes pages)
                           (PROT_READ OR PROT_WRITE)) (\<lambda>(r, h).
                    let k = k\<lparr>k_handler := h\<rparr>
                    in case r of
                         Inl e \<Rightarrow> Ret (Err e, k)
                       | Inr _ \<Rightarrow>
                           obind (mmap_guest env addr pages prot k) (\<lambda>k.
                             if prot \<noteq> PROT_READ OR PROT_WRITE
                             then obind (mprotect_unlocked env addr (in_bytes pages) prot k) (\<lambda>(r, k).
                                    case r of
                                      Inr _ \<Rightarrow> Ret (Ok addr, k)
                                    | Inl e \<Rightarrow>
                                        obind (munmap_unlocked env addr (in_bytes pages) k) (\<lambda>(r, k).
                                          case r of
                                            Inl e' \<Rightarrow> Ret (Err e', k)
                                          | Inr _ \<Rightarrow> Ret (Err e, k)))
                             else Ret (Ok addr, k)))))"

definition sgx_munmap ::
  "('w, 'l, 'a, 'p) sgx_env \<Rightarrow> usize \<Rightarrow> usize \<Rightarrow> ('w, 'l, 'p) keep \<Rightarrow>
     (unit result \<times> ('w, 'l, 'p) keep) outcome" where
  "sgx_munmap env addr len k = munmap_unlocked env addr len k"

section \<open>What every operation keeps\<close>

text \<open>The accesses a page of the heap may have.\<close>

definition allowed_accesses :: "('l, 'a) ledger_ops \<Rightarrow> 'a set" where
  "allowed_accesses lg = insert (lg_READ_WRITE lg) (lg_from_bits lg ` as_usize ` {prot. is_prot_allowed prot})"

definition pages_allowed :: "('l, 'a) ledger_ops \<Rightarrow> ('l \<Rightarrow> nat \<Rightarrow> 'a option) \<Rightarrow> 'l heap \<Rightarrow> bool" where
  "pages_allowed lg pages hp \<longleftrightarrow> (\<forall>p acc. pages (hp_ledger hp) p = Some acc \<longrightarrow> acc \<in> allowed_accesses lg)"

definition keep_ok ::
  "('l, 'a) ledger_ops \<Rightarrow> ('l \<Rightarrow> nat \<Rightarrow> 'a option) \<Rightarrow> ('w, 'l, 'p) keep \<Rightarrow> bool" where
  "keep_ok lg pages k \<longleftrightarrow> heap_wf (k_heap k) \<and> hp_start (k_heap k) \<noteq> 0 \<and> pages_allowed lg pages (k_heap k)"

text \<open>An operation settles: it gives up, or it returns in a state with the property.\<close>

definition settles :: "(('r \<times> 's) \<Rightarrow> bool) \<Rightarrow> ('r \<times> 's) outcome \<Rightarrow> bool" where
  "settles P out \<longleftrightarrow> out = Attacked \<or> (\<exists>x. out = Ret x \<and> P x)"

lemma settles_simps [simp]:
  "settles P (Ret x) = P x" "settles P Attacked" "\<not> settles P Panic" "\<not> settles P UB"
  by (auto simp: settles_def)

lemma host_memory_calls:
  "\<exists>r h'. handler_mmap_host host h addr len prot = Ret (r, h') \<and> same_frame h h'"
  "\<exists>r h'. handler_mprotect_host host h addr len prot = Ret (r, h') \<and> same_frame h h'"
  "\<exists>r h'. handler_munmap_host host h addr len = Ret (r, h') \<and> same_frame h h'"
  "\<exists>r h'. handler_trim_sgx_pages host h addr len = Ret (r, h') \<and> same_frame h h'"
  unfolding handler_mmap_host_def handler_mprotect_host_def handler_munmap_host_def
    handler_trim_sgx_pages_def
  by (rule exec_returns, rule mmap_host.item.call_laws_axioms mprotect_host.item.call_laws_axioms
      munmap_host.item.call_laws_axioms trim_sgx_pages.item.call_laws_axioms)+

lemma ledger_map_allowed:
  assumes "ledger_ok lg pages start" "pages_allowed lg pages hp" "acc \<in> allowed_accesses lg"
    and "lg_map lg (hp_ledger hp) addr len acc = (ok, l)"
  shows "pages_allowed lg pages (hp\<lparr>hp_ledger := l\<rparr>)"
proof -
  have "pages l = (if ok then (\<lambda>p. if p \<in> page_range addr len then Some acc else pages (hp_ledger hp) p)
      else pages (hp_ledger hp))"
    using assms(1,4) unfolding ledger_ok_def by blast
  then show ?thesis
    using assms(2,3) by (auto simp: pages_allowed_def split: if_splits)
qed

lemma ledger_unmap_allowed:
  assumes "ledger_ok lg pages start" "pages_allowed lg pages hp"
    and "lg_unmap lg (hp_ledger hp) addr len = (ok, l)"
  shows "pages_allowed lg pages (hp\<lparr>hp_ledger := l\<rparr>)"
proof -
  have "pages l = (if ok then (\<lambda>p. if p \<in> page_range addr len then None else pages (hp_ledger hp) p)
      else pages (hp_ledger hp))"
    using assms(1,3) unfolding ledger_ok_def by blast
  then show ?thesis
    using assms(2) by (auto simp: pages_allowed_def split: if_splits)
qed

lemma allowed_accessesI:
  "lg_READ_WRITE lg \<in> allowed_accesses lg"
  "is_prot_allowed prot \<Longrightarrow> lg_from_bits lg (as_usize prot) \<in> allowed_accesses lg"
  by (auto simp: allowed_accesses_def)

lemma heap_ops_allowed:
  assumes "ledger_ok lg pages start" "pages_allowed lg pages hp"
  shows "pages_allowed lg pages (snd (heap_brk lg next_brk hp))"
    and "acc \<in> allowed_accesses lg \<Longrightarrow> pages_allowed lg pages (snd (heap_mmap lg addr len acc hp))"
    and "pages_allowed lg pages (snd (heap_munmap lg a len hp))"
proof -
  have set_other: "pages_allowed lg pages (hp'\<lparr>hp_brk := b\<rparr>) = pages_allowed lg pages hp'"
    "pages_allowed lg pages (hp'\<lparr>hp_brk_max := b\<rparr>) = pages_allowed lg pages hp'" for hp' b
    by (simp_all add: pages_allowed_def)
  show "pages_allowed lg pages (snd (heap_brk lg next_brk hp))"
    by (cases rule: heap_brk_cases [of next_brk hp lg])
      (use assms ledger_map_allowed [OF assms allowed_accessesI(1)] in \<open>auto simp: set_other\<close>)
  show "acc \<in> allowed_accesses lg \<Longrightarrow> pages_allowed lg pages (snd (heap_mmap lg addr len acc hp))"
    using assms ledger_map_allowed [OF assms]
    by (auto simp: heap_mmap_def split: option.splits prod.splits)
  show "pages_allowed lg pages (snd (heap_munmap lg a len hp))"
    using ledger_unmap_allowed [OF assms] by (auto simp: heap_munmap_def split: prod.splits)
qed

lemma heap_ops_start [simp]:
  "hp_start (snd (heap_brk lg next_brk hp)) = hp_start hp"
  "hp_start (snd (heap_mmap lg addr len acc hp)) = hp_start hp"
  "hp_start (snd (heap_munmap lg a len hp)) = hp_start hp"
  by (auto simp: heap_brk_def heap_mmap_def heap_munmap_def Let_def split: option.splits prod.splits bool.splits)

lemma keep_ok_heap:
  assumes "ledger_ok lg pages start" "keep_ok lg pages k"
  shows "keep_ok lg pages (k\<lparr>k_heap := snd (heap_brk lg next_brk (k_heap k))\<rparr>)"
    and "acc \<in> allowed_accesses lg \<Longrightarrow> keep_ok lg pages (k\<lparr>k_heap := snd (heap_mmap lg addr len acc (k_heap k))\<rparr>)"
    and "keep_ok lg pages (k\<lparr>k_heap := snd (heap_munmap lg a len (k_heap k))\<rparr>)"
  using assms heap_ops_allowed [OF assms(1)]
  by (auto simp: keep_ok_def intro: heap_brk_wf heap_mmap_wf heap_munmap_wf)

lemma keep_ok_other [simp]:
  "keep_ok lg pages (k\<lparr>k_handler := h\<rparr>) = keep_ok lg pages k"
  "keep_ok lg pages (k\<lparr>k_epc := p\<rparr>) = keep_ok lg pages k"
  by (simp_all add: keep_ok_def)

text \<open>The operations in turn; \<open>keeps\<close> is their common conclusion.\<close>

definition keeps ::
  "('w, 'l, 'a, 'p) sgx_env \<Rightarrow> ('l \<Rightarrow> nat \<Rightarrow> 'a option) \<Rightarrow> ('r \<times> ('w, 'l, 'p) keep) outcome \<Rightarrow> bool" where
  "keeps env pages out \<longleftrightarrow> settles (\<lambda>(r, k). keep_ok (env_ledger env) pages k) out"

lemma keeps_simps [simp]:
  "keeps env pages (Ret (r, k)) = keep_ok (env_ledger env) pages k" "keeps env pages Attacked"
  by (simp_all add: keeps_def)

lemma heap_pair: "f = (x, hp) \<Longrightarrow> hp = snd f"
  by simp

lemma mprotect_start:
  assumes "mprotect_unlocked env addr len prot k = Ret (r, k')"
  shows "hp_start (k_heap k') = hp_start (k_heap k)"
proof -
  obtain r0 h' where h: "handler_mprotect_host (env_host env) (k_handler k) addr
      (in_bytes (page_count len)) prot = Ret (r0, h')"
    using host_memory_calls(2) by blast
  with assms show ?thesis
    by (cases r0) (auto simp: mprotect_unlocked_def Let_def split_beta split: if_splits option.splits)
qed

lemma heap_mmap_found:
  assumes "ledger_ok lg pages start" "heap_mmap lg None len acc hp = (Some a, hp')"
  shows "start \<le> a" "unat a mod page_size = 0" "\<forall>p \<in> page_range a len. pages (hp_ledger hp) p = None"
proof -
  from assms(2) have "lg_find_free_back lg (hp_ledger hp) len = Some a"
    by (auto simp: heap_mmap_def split: option.splits prod.splits if_splits)
  with assms(1) show "start \<le> a" "unat a mod page_size = 0"
    "\<forall>p \<in> page_range a len. pages (hp_ledger hp) p = None"
    by (auto simp: ledger_ok_def)
qed

lemma mprotect_keeps:
  assumes "ledger_ok (env_ledger env) pages (hp_start (k_heap k))" "keep_ok (env_ledger env) pages k"
  shows "keeps env pages (mprotect_unlocked env addr len prot k)"
proof -
  obtain r h' where h: "handler_mprotect_host (env_host env) (k_handler k) addr
      (in_bytes (page_count len)) prot = Ret (r, h')"
    using host_memory_calls(2) by blast
  have "is_prot_allowed prot \<Longrightarrow> keep_ok (env_ledger env) pages (k\<lparr>k_heap := snd (heap_mmap (env_ledger env)
      (Some addr) (page_count len) (lg_from_bits (env_ledger env) (as_usize prot)) (k_heap k))\<rparr>)"
    by (intro keep_ok_heap(2) [OF assms] allowed_accessesI(2))
  with assms(2) h show ?thesis
    by (auto simp: mprotect_unlocked_def Let_def split_beta keep_ok_def split: sum.splits option.splits)
qed

lemma munmap_keeps:
  assumes "ledger_ok (env_ledger env) pages (hp_start (k_heap k))" "keep_ok (env_ledger env) pages k"
  shows "keeps env pages (munmap_unlocked env addr len k)"
proof -
  obtain r h' where h: "handler_trim_sgx_pages (env_host env) (k_handler k) addr
      (in_bytes (page_count len)) = Ret (r, h')"
    using host_memory_calls(4) by blast
  obtain r' h'' where h': "handler_munmap_host (env_host env) h' addr (in_bytes (page_count len)) = Ret (r', h'')"
    using host_memory_calls(3) by blast
  have "keep_ok (env_ledger env) pages (k\<lparr>k_heap := snd (heap_munmap (env_ledger env) addr
      (page_count len) (k_heap k))\<rparr>)"
    by (rule keep_ok_heap(3) [OF assms])
  with assms(2) h h' show ?thesis
    by (auto simp: munmap_unlocked_def Let_def split_beta keep_ok_def split: sum.splits option.splits)
qed

lemma mmap_guest_cases:
  obtains "mmap_guest env addr len prot k = Attacked"
  | p where "mmap_guest env addr len prot k = Ret (k\<lparr>k_epc := p\<rparr>)"
  by (cases "for_pages (epc_accept_copy (env_epc env) (ucast prot)) addr (unat len) (k_epc k)")
    (auto simp: mmap_guest_def)

lemma heap_brk_result:
  assumes "heap_wf hp" "hp_start hp \<noteq> 0"
  shows "fst (heap_brk lg next_brk hp) \<noteq> 0" "hp_brk_max hp \<noteq> 0"
  using assms
  by (cases rule: heap_brk_cases [of next_brk hp lg], auto simp: heap_wf_def word_le_0_iff)

lemma brk_keeps:
  assumes "ledger_ok (env_ledger env) pages (hp_start (k_heap k))" "keep_ok (env_ledger env) pages k"
  shows "keeps env pages (sgx_brk env addr k)"
proof -
  let ?lg = "env_ledger env"
  define a where "a = (case addr of Some v \<Rightarrow> (v + of_nat page_size - 1) AND NOT (of_nat page_size - 1) | None \<Rightarrow> 0)"
  obtain b hp where b: "heap_brk ?lg a (k_heap k) = (b, hp)"
    by fastforce
  have nz: "b \<noteq> 0" "heap_brk_max (k_heap k) \<noteq> 0"
    using heap_brk_result(1) [of "k_heap k" ?lg a] heap_brk_result(2) [of "k_heap k"] assms(2) b by (auto simp: keep_ok_def heap_brk_max_def)
  have ok: "keep_ok ?lg pages (k\<lparr>k_heap := hp\<rparr>)"
    using keep_ok_heap(1) [OF assms, of a] b by simp
  obtain r h' where h: "handler_mmap_host (env_host env) (k_handler k) (heap_brk_max (k_heap k))
      (b - heap_brk_max (k_heap k)) (PROT_READ OR PROT_WRITE) = Ret (r, h')"
    using host_memory_calls(1) by blast
  show ?thesis
    by (rule mmap_guest_cases [of env "heap_brk_max (k_heap k)" "pages_between b (heap_brk_max (k_heap k))"
          "PROT_READ OR PROT_WRITE" "k\<lparr>k_heap := hp, k_handler := h'\<rparr>"])
      (use ok nz h b in \<open>auto simp: sgx_brk_def a_def [symmetric] non_null_def Let_def keep_ok_def split: sum.splits\<close>)
qed

lemma mmap_protect_keeps:
  assumes "ledger_ok (env_ledger env) pages (hp_start (k_heap k))" "keep_ok (env_ledger env) pages k"
  shows "keeps env pages (obind (mprotect_unlocked env a n prot k) (\<lambda>(r, k). case r of
      Inr _ \<Rightarrow> Ret (Ok a, k)
    | Inl e \<Rightarrow> obind (munmap_unlocked env a n k) (\<lambda>(r, k). case r of
        Inl e' \<Rightarrow> Ret (Err e', k) | Inr _ \<Rightarrow> Ret (Err e, k))))"
proof (cases "mprotect_unlocked env a n prot k")
  case (Ret x)
  obtain r k1 where x: "x = (r, k1)" by fastforce
  have k1: "keep_ok (env_ledger env) pages k1" "hp_start (k_heap k1) = hp_start (k_heap k)"
    using mprotect_keeps [OF assms, of a n prot] Ret x mprotect_start [of env a n prot k r k1] by auto
  have "keeps env pages (munmap_unlocked env a n k1)"
    using munmap_keeps [of env pages k1] assms(1) k1 by simp
  then show ?thesis
    using Ret x k1 by (cases "munmap_unlocked env a n k1") (auto simp: keeps_def split: sum.splits)
qed (use mprotect_keeps [OF assms, of a n prot] in \<open>auto simp: keeps_def\<close>)

lemma mmap_keeps:
  assumes "ledger_ok (env_ledger env) pages (hp_start (k_heap k))" "keep_ok (env_ledger env) pages k"
  shows "keeps env pages (sgx_mmap env addr len prot flags fd offset k)"
proof (cases "(case addr of Some v \<Rightarrow> v | None \<Rightarrow> 0) \<noteq> 0 \<or> len = 0 \<or> fd \<noteq> - 1 \<or> offset \<noteq> 0 \<or>
    flags \<noteq> MAP_PRIVATE OR MAP_ANONYMOUS \<or> prot OR PROT_READ \<noteq> 0 \<and> \<not> is_prot_allowed (prot OR PROT_READ)")
  case True
  then show ?thesis
    using assms(2) by (auto simp: sgx_mmap_def Let_def)
next
  case ok: False
  let ?lg = "env_ledger env" and ?p = "prot OR PROT_READ"
  define n where "n = (len + of_nat page_size - 1) div of_nat page_size"
  have allowed: "is_prot_allowed ?p"
    using ok or_eq_0_iff [of prot PROT_READ] by (auto simp: PROT_READ_def)
  obtain found hp where m: "heap_mmap ?lg None n (lg_from_bits ?lg (as_usize ?p)) (k_heap k) = (found, hp)"
    by fastforce
  have k1: "keep_ok ?lg pages (k\<lparr>k_heap := hp\<rparr>)" "hp_start hp = hp_start (k_heap k)"
    using keep_ok_heap(2) [OF assms allowed_accessesI(2) [OF allowed], of None n] heap_ops_start(2) m
    by (metis snd_conv)+
  show ?thesis
  proof (cases found)
    case None
    then show ?thesis
      using ok m k1 by (auto simp: sgx_mmap_def Let_def n_def [symmetric] split: option.splits)
  next
    case (Some a)
    have "a \<noteq> 0"
      using heap_mmap_found [OF assms(1) m [unfolded Some]] assms(2) by (auto simp: keep_ok_def)
    moreover obtain r h' where h: "handler_mmap_host (env_host env) (k_handler k) a (in_bytes n)
        (PROT_READ OR PROT_WRITE) = Ret (r, h')"
      using host_memory_calls(1) by blast
    moreover have "keeps env pages (obind (mmap_guest env a n ?p (k\<lparr>k_heap := hp, k_handler := h'\<rparr>)) (\<lambda>k.
        if ?p \<noteq> PROT_READ OR PROT_WRITE
        then obind (mprotect_unlocked env a (in_bytes n) ?p k) (\<lambda>(r, k). case r of
            Inr _ \<Rightarrow> Ret (Ok a, k)
          | Inl e \<Rightarrow> obind (munmap_unlocked env a (in_bytes n) k) (\<lambda>(r, k). case r of
              Inl e' \<Rightarrow> Ret (Err e', k) | Inr _ \<Rightarrow> Ret (Err e, k)))
        else Ret (Ok a, k)))"
      by (rule mmap_guest_cases [of env a n ?p "k\<lparr>k_heap := hp, k_handler := h'\<rparr>"])
        (use assms(1) k1 in \<open>auto simp: keep_ok_def intro!: mmap_protect_keeps\<close>)
    ultimately show ?thesis
      using ok m k1 Some
      by (auto simp: sgx_mmap_def Let_def n_def [symmetric] non_null_def keep_ok_def split: option.splits sum.splits)
  qed
qed

section \<open>Properties\<close>

text \<open>Write and execute exclude each other in an allowed protection.\<close>

lemma is_prot_allowed_exclusive:
  "is_prot_allowed prot \<Longrightarrow> prot AND PROT_WRITE = 0 \<or> prot AND PROT_EXEC = 0"
  by (auto simp: is_prot_allowed_def libc_consts)

text \<open>C4: memory management in the enclave is safe against any host and any answer of the
  hardware. Each of \<^verbatim>\<open>brk\<close>, \<^verbatim>\<open>mmap\<close>, \<^verbatim>\<open>mprotect\<close> and \<^verbatim>\<open>munmap\<close> returns or gives up;
  none panics. Afterwards the break is still within the heap, and every page of the heap has an
  access the shim allows: readable and writable, or the access of a protection that is never
  writable and executable at once.\<close>

theorem sgx_memory_safe:
  assumes "ledger_ok (env_ledger env) pages (hp_start (k_heap k))" "keep_ok (env_ledger env) pages k"
  shows "keeps env pages (sgx_brk env addr k) \<and>
    keeps env pages (sgx_mmap env addr len prot flags fd offset k) \<and>
    keeps env pages (sgx_mprotect env a len prot k) \<and>
    keeps env pages (sgx_munmap env a len k)"
  using brk_keeps [OF assms] mmap_keeps [OF assms] mprotect_keeps [OF assms] munmap_keeps [OF assms]
  by (simp add: sgx_mprotect_def sgx_munmap_def)

text \<open>A ledger to apply the properties to: the access of every page, one free region at a fixed
  address.\<close>

definition page_list :: "usize \<Rightarrow> usize \<Rightarrow> nat list" where
  "page_list addr len = [unat addr div page_size ..< unat addr div page_size + unat len]"

definition table_ledger :: "usize \<Rightarrow> (nat \<Rightarrow> usize option, usize) ledger_ops" where
  "table_ledger base =
     \<lparr>lg_contains = (\<lambda>l addr len. if list_all (\<lambda>p. l p \<noteq> None) (page_list addr len) then Some 7 else None),
      lg_overlaps = (\<lambda>l addr len. list_ex (\<lambda>p. l p \<noteq> None) (page_list addr len)),
      lg_map = (\<lambda>l addr len acc. (True, \<lambda>p. if p \<in> set (page_list addr len) then Some acc else l p)),
      lg_unmap = (\<lambda>l addr len. (True, \<lambda>p. if p \<in> set (page_list addr len) then None else l p)),
      lg_find_free_back = (\<lambda>l len. if list_all (\<lambda>p. l p = None) (page_list base len) then Some base else None),
      lg_READ_WRITE = 3, lg_from_bits = (\<lambda>b. b AND 7)\<rparr>"

lemma set_page_list: "set (page_list addr len) = page_range addr len"
  by (simp add: page_list_def page_range_def)

lemma table_ledger_ok:
  "unat base mod page_size = 0 \<Longrightarrow> start \<le> base \<Longrightarrow> ledger_ok (table_ledger base) (\<lambda>l. l) start"
  by (auto simp: ledger_ok_def table_ledger_def list_all_iff list_ex_iff set_page_list fun_eq_iff split: if_splits)

definition table_keep :: "(unit, nat \<Rightarrow> usize option, unit) keep" where
  "table_keep =
     \<lparr>k_handler = \<lparr>h_addr = 4096, h_block = [], h_actions = [], h_world = ()\<rparr>,
      k_heap = \<lparr>hp_start = 0x10000, hp_end = 0x20000, hp_brk = 0x10000, hp_brk_max = 0x10000, hp_ledger = (\<lambda>_. None)\<rparr>,
      k_epc = ()\<rparr>"

definition table_env :: "(unit, nat \<Rightarrow> usize option, usize, unit) sgx_env" where
  "table_env =
     \<lparr>env_ledger = table_ledger 0x18000,
      env_epc = \<lparr>epc_accept_copy = (\<lambda>_ _ p. Some p), epc_accept_restricted = (\<lambda>_ p. Some p),
        epc_extend = (\<lambda>_ _ p. p), epc_accept_trimmed = (\<lambda>_ p. Some p)\<rparr>,
      env_host = (\<lambda>w ws. (Err EIO, (!) ws, w))\<rparr>"

lemma table_ok:
  "ledger_ok (env_ledger table_env) (\<lambda>l. l) (hp_start (k_heap table_keep))"
  "keep_ok (env_ledger table_env) (\<lambda>l. l) table_keep"
  by (auto simp: table_env_def table_keep_def keep_ok_def heap_wf_def pages_allowed_def page_size_def
      intro: table_ledger_ok)

theorem sgx_memory_safe_witness:
  "keeps table_env (\<lambda>l. l) (sgx_brk table_env (Some 0x12000) table_keep) \<and>
   keeps table_env (\<lambda>l. l) (sgx_mmap table_env None 8192 3 34 (- 1) 0 table_keep) \<and>
   keeps table_env (\<lambda>l. l) (sgx_mprotect table_env 0x10000 4096 1 table_keep) \<and>
   keeps table_env (\<lambda>l. l) (sgx_munmap table_env 0x10000 4096 table_keep)"
  using sgx_memory_safe [OF table_ok, where addr = "Some 0x12000"]
    sgx_memory_safe [OF table_ok, where addr = None and len = 8192 and prot = 3 and flags = 34]
    sgx_memory_safe [OF table_ok, where len = 4096 and prot = 1 and a = "0x10000"] by blast

text \<open>The break is not moved when it grows. When \<^verbatim>\<open>Heap::brk\<close> grows the heap it returns the new
  address but leaves \<^verbatim>\<open>self.brk\<close> as it was, so that a query right after it (a break of 0) answers
  with the old break.\<close>

theorem brk_query_after_growth:
  assumes "hp_start hp \<noteq> 0" "hp_brk_max hp < next_brk" "heap_brk lg next_brk hp = (next_brk, hp')" "hp_brk hp \<noteq> next_brk"
  shows "hp_brk_max hp' = next_brk \<and> heap_brk lg 0 hp' = (hp_brk hp, hp')"
proof (cases rule: heap_brk_cases [of next_brk hp lg])
  case (grow l)
  then show ?thesis
    using assms by (auto simp: heap_brk_def word_gt_0)
qed (use assms in auto)

theorem brk_query_after_growth_witness:
  "let hp = \<lparr>hp_start = 0x10000, hp_end = 0x20000, hp_brk = 0x10000, hp_brk_max = 0x10000, hp_ledger = (\<lambda>_. None)\<rparr>;
       hp' = snd (heap_brk (table_ledger 0x18000) 0x12000 hp)
   in fst (heap_brk (table_ledger 0x18000) 0x12000 hp) = 0x12000 \<and>
      heap_brk (table_ledger 0x18000) 0 hp' = (0x10000, hp')"
proof -
  let ?hp = "\<lparr>hp_start = 0x10000, hp_end = 0x20000, hp_brk = 0x10000, hp_brk_max = 0x10000, hp_ledger = (\<lambda>_. None)\<rparr>"
  have "fst (heap_brk (table_ledger 0x18000) 0x12000 ?hp) = 0x12000"
    by (simp add: heap_brk_def table_ledger_def list_ex_iff)
  then have "heap_brk (table_ledger 0x18000) 0x12000 ?hp = (0x12000, snd (heap_brk (table_ledger 0x18000) 0x12000 ?hp))"
    by (metis prod.collapse)
  from brk_query_after_growth [OF _ _ this] show ?thesis
    by (simp add: Let_def) (simp add: heap_brk_def table_ledger_def list_ex_iff)
qed

lemma heap_brk_grew:
  assumes "heap_wf hp" "heap_brk lg a hp = (b, hp')" "hp_brk_max hp < b"
  shows "b = a \<and> hp_brk_max hp' = a \<and> hp_start hp' \<le> a \<and> a < hp_end hp'"
proof (cases rule: heap_brk_cases [of a hp lg])
  case (grow l)
  with assms show ?thesis by auto
qed (use assms in \<open>auto simp: heap_wf_def\<close>)

text \<open>C40: a refused growth is not undone. When the host refuses to map the new part of the heap,
  \<^verbatim>\<open>brk\<close> returns the error, but the heap has recorded the growth: asking for the same break again
  succeeds, without asking the host and without accepting a page.\<close>

theorem brk_refusal_not_undone:
  assumes "heap_wf (k_heap k)" "sgx_brk env (Some v) k = Ret (Err e, k')"
  shows "\<exists>b hp. sgx_brk env (Some v) k' = Ret (Ok b, k'\<lparr>k_heap := hp\<rparr>) \<and> k_epc k' = k_epc k \<and>
    heap_brk_max (k_heap k) < b"
proof -
  let ?lg = "env_ledger env" and ?max = "heap_brk_max (k_heap k)"
  define a where "a = (v + of_nat page_size - 1) AND NOT (of_nat page_size - 1)"
  obtain b hp where b: "heap_brk ?lg a (k_heap k) = (b, hp)" by fastforce
  obtain r h' where h: "handler_mmap_host (env_host env) (k_handler k) ?max (b - ?max) (PROT_READ OR PROT_WRITE) = Ret (r, h')"
    using host_memory_calls(1) by blast
  note run = assms(2) [unfolded sgx_brk_def option.case a_def [symmetric] Let_def b prod.case]
  have lt: "?max < b"
  proof (rule ccontr)
    assume "\<not> ?max < b"
    with run show False by (cases "b = 0") (simp_all add: non_null_def)
  qed
  have k': "k' = k\<lparr>k_heap := hp, k_handler := h'\<rparr>"
    using run lt h by (cases r; cases "?max = 0"; cases "b = 0") (auto simp: non_null_def obind_Ret)
  have g: "b = a" "hp_brk_max hp = a" "hp_start hp \<le> a" "a < hp_end hp"
    using heap_brk_grew [OF assms(1) b] lt by (auto simp: heap_brk_max_def)
  have "a \<noteq> 0"
    using lt g(1) by auto
  moreover have "heap_brk ?lg a hp = (a, hp\<lparr>hp_brk := a\<rparr>)"
    using g by (auto simp: heap_brk_def)
  ultimately have "sgx_brk env (Some v) k' = Ret (Ok a, k'\<lparr>k_heap := hp\<lparr>hp_brk := a\<rparr>\<rparr>)"
    using g(2) unfolding sgx_brk_def option.case a_def [symmetric] Let_def k'
    by (simp add: heap_brk_max_def non_null_def)
  with k' lt g(1) show ?thesis by auto
qed

lemma empty_block_refuses:
  "h_block h = [] \<Longrightarrow> exec host h c = Ret (Err ENOMEM, h)"
  by (simp add: exec_def execute_def reserve_input_def reserve_input_layout_def reserve_layout_def
      smap_def sbind_def alloc_stage_def alloc_new_def checked_sub_def)

theorem brk_refusal_not_undone_witness:
  "\<exists>k' b hp. sgx_brk table_env (Some 0x12000) table_keep = Ret (Err ENOMEM, k') \<and>
     sgx_brk table_env (Some 0x12000) k' = Ret (Ok b, k'\<lparr>k_heap := hp\<rparr>)"
proof -
  have "\<exists>k'. sgx_brk table_env (Some 0x12000) table_keep = Ret (Err ENOMEM, k')"
    by (simp add: sgx_brk_def table_env_def table_keep_def heap_brk_def heap_brk_max_def table_ledger_def
        page_size_def list_ex_iff non_null_def handler_mmap_host_def empty_block_refuses)
  moreover have "heap_wf (k_heap table_keep)"
    by (simp add: table_keep_def heap_wf_def)
  ultimately show ?thesis
    using brk_refusal_not_undone by blast
qed

lemma protect_result:
  assumes "obind (mprotect_unlocked env a n prot k) (\<lambda>(r, k). case r of
      Inr _ \<Rightarrow> Ret (Ok a, k)
    | Inl e \<Rightarrow> obind (munmap_unlocked env a n k) (\<lambda>(r, k). case r of
        Inl e' \<Rightarrow> Ret (Err e', k) | Inr _ \<Rightarrow> Ret (Err e, k))) = Ret (Ok b, k')"
  shows "b = a"
proof (cases "mprotect_unlocked env a n prot k")
  case (Ret x)
  obtain r k1 where x: "x = (r, k1)" by fastforce
  show ?thesis
  proof (cases r)
    case (Inl e)
    then show ?thesis
      using assms Ret x by (cases "munmap_unlocked env a n k1") (auto split: sum.splits)
  qed (use assms Ret x in simp)
qed (use assms in simp_all)

lemma sgx_mmap_found:
  assumes "sgx_mmap env addr len prot flags fd offset k = Ret (Ok a, k')"
  shows "\<exists>hp. heap_mmap (env_ledger env) None ((len + of_nat page_size - 1) div of_nat page_size)
    (lg_from_bits (env_ledger env) (as_usize (prot OR PROT_READ))) (k_heap k) = (Some a, hp)"
proof -
  let ?lg = "env_ledger env" and ?p = "prot OR PROT_READ"
  define n where "n = (len + of_nat page_size - 1) div of_nat page_size"
  obtain found hp where m: "heap_mmap ?lg None n (lg_from_bits ?lg (as_usize ?p)) (k_heap k) = (found, hp)"
    by fastforce
  note run = assms [unfolded sgx_mmap_def Let_def n_def [symmetric] m prod.case]
  obtain b where b: "found = Some b"
    using run by (cases found) (auto split: if_splits)
  obtain r h' where h: "handler_mmap_host (env_host env) (k_handler k) b (in_bytes n) (PROT_READ OR PROT_WRITE) = Ret (r, h')"
    using host_memory_calls(1) by blast
  have "b = a"
    by (rule mmap_guest_cases [of env b n ?p "k\<lparr>k_heap := hp, k_handler := h'\<rparr>"]; cases r)
      (use run b h in \<open>auto simp: non_null_def split: if_splits option.splits dest: protect_result\<close>)
  with m b show ?thesis by (simp add: n_def)
qed

lemma mmap_pages_cover:
  assumes "unat len + page_size \<le> usize_limit"
  shows "unat len \<le> unat ((len + of_nat page_size - 1) div of_nat page_size :: usize) * page_size"
proof -
  have "len + of_nat page_size - 1 = len + 4095" "of_nat page_size = (4096 :: usize)"
    by (simp_all add: page_size_def)
  moreover have "unat (len + 4095) = unat len + 4095"
    using assms by (subst unat_plus_if') (simp add: page_size_def usize_limit_def)
  ultimately have "unat ((len + of_nat page_size - 1) div of_nat page_size :: usize) = (unat len + 4095) div 4096"
    by (simp only: unat_div) simp
  then show ?thesis
    unfolding page_size_def by linarith
qed


text \<open>A host that answers every request with zeros, and a block it fits into.\<close>

definition ready_keep :: "(unit, nat \<Rightarrow> usize option, unit) keep" where
  "ready_keep = table_keep\<lparr>k_handler := \<lparr>h_addr = 4096, h_block = replicate 16 0, h_actions = [], h_world = ()\<rparr>\<rparr>"

definition ready_env :: "(unit, nat \<Rightarrow> usize option, usize, unit) sgx_env" where
  "ready_env = table_env\<lparr>env_host := \<lambda>w ws. (Ok (), \<lambda>_. 0, w)\<rparr>"

lemma execute_served:
  assumes "call_laws c s_ok c_ok"
    and "reserve_input header_layout (alloc_section (c_stage c))
           (alloc_stage (alloc_new (h_addr h) (length (h_block h)))) = Ok (((s, len), r), al)"
    and "0 < len" "\<And>w ws. host w ws = (Ok (), \<lambda>_. 0, w)"
  shows "\<exists>x v h'. execute host h c = Ret (Ok v, h') \<and> c_collect c x (block_mem h') = Ret v \<and>
    h_block h' = replicate (length (h_block h)) 0"
proof -
  from call_laws.execute_staged [OF assms(1,2)] obtain x m1 m2 where
    1: "c_commit c s (block_mem h) = Some (x, m1)" "same_shape (block_mem h) m1"
    and 2: "in_ref_copy_from r end_header m1 = Some ((), m2)" "same_shape (block_mem h) m2"
    and 3: "alloc_sally (alloc_commit al) (h_addr h) (length (h_block h)) = Ok (alloc_commit al)"
    and 4: "\<And>m'. same_shape (block_mem h) m' \<Longrightarrow> (\<exists>v. c_collect c x m' = Ret v) \<and>
              (\<exists>lo hi. c_ok lo hi x \<and> in_mem m' lo (hi - lo))"
    by blast
  obtain h' where sal: "sally host (with_mem h m2) = (Ok (), h')"
    by (simp add: sally_def assms(4))
  from same_frame_trans [OF with_mem_frame [OF 2(2)] sally_frame [OF sal]]
  have fr: "same_frame h h'" .
  then obtain v where v: "c_collect c x (block_mem h') = Ret v"
    using 4 [OF same_frame_shape] by blast
  have "h_block h' = replicate (length (h_block h')) 0"
    using sal by (auto simp: sally_def assms(4) map_replicate_const)
  moreover have "execute host h c = Ret (Ok v, h')"
    using assms(2,3) 1 2 3 sal v fr by (simp add: execute_def Let_def same_frame_def)
  moreover have "length (h_block h') = length (h_block h)"
    using fr by (simp add: same_frame_def)
  ultimately show ?thesis
    using v by auto
qed

lemma le_nat_zero: "le_nat (replicate n 0) = 0"
  by (induction n) simp_all

lemma le_bytes_zero: "le_bytes n 0 = replicate n 0"
  by (induction n) simp_all

lemma usize_zero_bytes: "usize_bytes 0 = replicate 8 0"
  by (simp add: usize_bytes_def le_bytes_zero)

lemma bytes_of_zero_words: "bytes_of_words (replicate n 0) = replicate (8 * n) 0"
  by (induction n) (simp_all add: bytes_of_words_def usize_zero_bytes replicate_add [symmetric])

lemma zero_collect:
  assumes "h_block h = replicate n 0"
    and "c_collect (enarx_call (enarxcall_passthrough k as enarx_result_unit)) x (block_mem h) = Ret v"
  shows "v = Ok ()"
proof -
  obtain xa where x: "x = CommittedCall xa" by (cases x)
  from assms x obtain bs where bs: "out_ref_copy_to (co_ret_ref xa) (block_mem h) = Ret bs"
    and v: "v = enarx_result_unit (usize_of_bytes bs)"
    by (auto simp: item_call_def alloc_call_def numbered_call_def numbered_collect_def
        enarxcall_passthrough_def enarxcall_kind_def obind_Ret)
  from bs obtain k where "bs = replicate k 0"
    using assms(1)
    by (auto simp: out_ref_copy_to_def mem_read_def block_mem_def bytes_of_zero_words or_ub_def split: if_splits)
  with v show ?thesis
    by (simp add: usize_of_bytes_def le_nat_zero enarx_result_unit_def sys_result_unit_def ERRNO_START_def MAX_ERRNO_def)
qed

lemma reserve_zero:
  assumes "advancing f" "\<exists>s. f \<lparr>a_ptr = 4096, a_len = 112, a_offset = 0\<rparr> = Ok (s, \<lparr>a_ptr = 4160, a_len = 48, a_offset = 64\<rparr>)"
  shows "\<exists>s r al. reserve_input header_layout (alloc_section f)
           (alloc_stage (alloc_new 4096 16)) = Ok (((s, 64), r), al)"
proof -
  have "allocate_layout header_layout \<lparr>a_ptr = 4160, a_len = 64, a_offset = 64\<rparr> =
     Ok (((4160, 16), 64), \<lparr>a_ptr = 4176, a_len = 48, a_offset = 80\<rparr>)"
    by (subst allocate_aligned) (simp_all add: usize_limit_def)
  with assms(2) show ?thesis
    by (auto simp: reserve_input_def reserve_input_layout_def smap_def sbind_def reserve_layout_def
        alloc_stage_def alloc_new_def checked_sub_def alloc_section_def align_offset_def Let_def)
qed

lemma stage_mmap_host:
  assumes "al0 = \<lparr>a_ptr = 4096, a_len = 112, a_offset = 0\<rparr>"
  shows "\<exists>x. c_stage (enarx_call (mmap_host_alloc a l p)) al0 = Ok (x, \<lparr>a_ptr = 4160, a_len = 48, a_offset = 64\<rparr>)"
proof -
  have 1: "allocate_input header_layout al0 =
      Ok (aligned_ref 4096 header_layout 0, \<lparr>a_ptr = 4112, a_len = 96, a_offset = 16\<rparr>)"
    unfolding assms by (subst allocate_input_aligned) (simp_all add: usize_limit_def)
  have 2: "allocate_input usize_layout \<lparr>a_ptr = 4112, a_len = 96, a_offset = 0\<rparr> =
      Ok (aligned_ref 4112 usize_layout 0, \<lparr>a_ptr = 4120, a_len = 88, a_offset = 8\<rparr>)"
    by (subst allocate_input_aligned) (simp_all add: usize_limit_def)
  have 3: "allocate_input (array_of 4 usize_layout) \<lparr>a_ptr = 4120, a_len = 88, a_offset = 8\<rparr> =
      Ok (aligned_ref 4120 (array_of 4 usize_layout) 8, \<lparr>a_ptr = 4152, a_len = 56, a_offset = 40\<rparr>)"
    by (subst allocate_input_aligned) (simp_all add: usize_limit_def)
  have 4: "allocate_inout usize_layout \<lparr>a_ptr = 4152, a_len = 56, a_offset = 40\<rparr> =
      Ok (InOutRef (aligned_ref 4152 usize_layout 40), \<lparr>a_ptr = 4160, a_len = 48, a_offset = 48\<rparr>)"
    by (subst allocate_input_aligned) (simp_all add: usize_limit_def)
  show ?thesis
    by (simp add: item_call_def alloc_call_def alloc_call_stage_def numbered_call_def numbered_stage_def
      mmap_host_alloc_def enarxcall_passthrough_def enarxcall_kind_def sbind_def 1 2 3 4 alloc_section_def Let_def)
qed
lemma ready_mmap_host:
  "\<exists>h'. handler_mmap_host (env_host ready_env) (k_handler ready_keep) a l p = Ret (Ok (), h')"
proof -
  let ?h = "k_handler ready_keep" and ?c = "enarx_call (mmap_host_alloc a l p)"
  have h: "h_addr ?h = 4096" "length (h_block ?h) = 16"
    by (simp_all add: ready_keep_def)
  from reserve_zero [where f = "c_stage ?c"] obtain s r al where
    "reserve_input header_layout (alloc_section (c_stage ?c)) (alloc_stage (alloc_new 4096 16)) = Ok (((s, 64), r), al)"
    using stage_mmap_host [OF refl] call_laws.stage_advancing [OF mmap_host.item.call_laws_axioms] by blast
  then have st: "reserve_input header_layout (alloc_section (c_stage ?c))
      (alloc_stage (alloc_new (h_addr ?h) (length (h_block ?h)))) = Ok (((s, 64), r), al)"
    by (simp add: h)
  have host: "env_host ready_env w ws = (Ok (), \<lambda>_. 0, w)" for w ws
    by (simp add: ready_env_def)
  obtain x v h' where 1: "execute (env_host ready_env) ?h ?c = Ret (Ok v, h')"
      "c_collect ?c x (block_mem h') = Ret v" "h_block h' = replicate (length (h_block ?h)) 0"
    using execute_served [where host = "env_host ready_env", OF mmap_host.item.call_laws_axioms st _ host] by auto
  then show ?thesis
    using zero_collect [OF 1(3), of MmapHost "[a, l, as_usize p]" x]
    by (simp add: handler_mmap_host_def exec_def mmap_host_alloc_def)
qed

lemma ready_pages: "for_pages (\<lambda>_ p. Some p) a n p = Some p"
  by (induction n) simp_all

lemma ready_sgx_mmap: "\<exists>k'. sgx_mmap ready_env None 8192 3 34 (- 1) 0 ready_keep = Ret (Ok 0x18000, k')"
proof -
  obtain h' where h: "handler_mmap_host (env_host ready_env) (k_handler ready_keep) 0x18000 8192 3 = Ret (Ok (), h')"
    using ready_mmap_host by blast
  have g: "mmap_guest ready_env a n p k = Ret k" for a n p k
    by (simp add: mmap_guest_def ready_env_def table_env_def ready_pages)
  have m: "\<exists>hp. heap_mmap (env_ledger ready_env) None 2 acc (k_heap ready_keep) = (Some 0x18000, hp)" for acc
    by (simp add: heap_mmap_def ready_env_def table_env_def ready_keep_def table_keep_def table_ledger_def list_all_iff)
  obtain hp where "heap_mmap (env_ledger ready_env) None 2 (lg_from_bits (env_ledger ready_env) (as_usize 3)) (k_heap ready_keep) = (Some 0x18000, hp)"
    using m by blast
  then show ?thesis
    using h g by (simp add: sgx_mmap_def libc_consts page_size_def is_prot_allowed_def non_null_def in_bytes_def)
qed


end
