(* ===== verification/Platform.thy ===== *)
theory Platform
  imports Syscalls
begin

text \<open>
  Memory of the user of a shim and its validation: the trait \<^verbatim>\<open>Platform\<close>
  (\<^verbatim>\<open>crates/sallyport/src/guest/platform.rs\<close>) with its provided methods, the check
  \<^verbatim>\<open>is_aligned_non_null\<close> (\<^verbatim>\<open>util/ptr.rs\<close>), and \<^verbatim>\<open>UserMemScope\<close>, the
  implementation that both shims have (\<^verbatim>\<open>shim-sgx/src/handler/usermem.rs\<close>,
  \<^verbatim>\<open>shim-kvm/src/hostcall.rs\<close>).

  User memory is a function from addresses to bytes. A validation returns a reference in the
  source; here it only says whether there is one, and the caller reads or writes the memory behind
  it. \<^verbatim>\<open>validate_str\<close> walks the memory up to a zero byte and need not end for every
  implementation of the trait, so it is a partial function; with \<^verbatim>\<open>UserMemScope\<close> it ends
  (\<open>validate_str_total\<close>).
\<close>

section \<open>User memory\<close>

type_synonym umem = "nat \<Rightarrow> byte"

definition um_read :: "umem \<Rightarrow> usize \<Rightarrow> nat \<Rightarrow> byte list" where
  "um_read m p n = map (\<lambda>i. m (unat p + i)) [0..<n]"

definition um_write :: "usize \<Rightarrow> byte list \<Rightarrow> umem \<Rightarrow> umem" where
  "um_write p bs m =
     (\<lambda>a. if unat p \<le> a \<and> a < unat p + length bs then bs ! (a - unat p) else m a)"

lemma length_um_read [simp]: "length (um_read m p n) = n"
  by (simp add: um_read_def)

lemma um_write_outside: "a < unat p \<or> unat p + length bs \<le> a \<Longrightarrow> um_write p bs m a = m a"
  by (auto simp: um_write_def)

lemma um_read_write [simp]: "um_read (um_write p bs m) p (length bs) = bs"
  by (rule nth_equalityI) (simp_all add: um_read_def um_write_def)

lemma um_write_read [simp]: "um_write p (um_read m p n) m = m"
  by (auto simp: um_write_def um_read_def fun_eq_iff)

section \<open>The trait\<close>

record platform =
  pf_validate_mut :: "layout \<Rightarrow> usize \<Rightarrow> unit result"
  pf_validate :: "layout \<Rightarrow> usize \<Rightarrow> unit result"
  pf_validate_slice_mut :: "layout \<Rightarrow> usize \<Rightarrow> usize \<Rightarrow> unit result"
  pf_validate_slice :: "layout \<Rightarrow> usize \<Rightarrow> usize \<Rightarrow> unit result"

text \<open>The \<^verbatim>\<open>iovec\<close> structures at an address: base and length of every buffer.\<close>

definition iovec_at :: "umem \<Rightarrow> usize \<Rightarrow> nat \<Rightarrow> usize \<times> usize" where
  "iovec_at m iov i =
     (let bs = map (\<lambda>k. m (unat iov + 16 * i + k)) [0..<16]
      in (usize_of_bytes (take 8 bs), usize_of_bytes (drop 8 bs)))"

fun validate_all :: "(usize \<Rightarrow> usize \<Rightarrow> unit result) \<Rightarrow> (usize \<times> usize) list \<Rightarrow> unit result" where
  "validate_all v [] = Ok ()"
| "validate_all v ((base, len) # iovs) = rbind (v base len) (\<lambda>_. validate_all v iovs)"

definition validate_iovec_slice_mut ::
  "platform \<Rightarrow> umem \<Rightarrow> usize \<Rightarrow> usize \<Rightarrow> (usize \<times> usize) list result" where
  "validate_iovec_slice_mut pf m iov iovcnt =
     rbind (pf_validate_slice pf iovec_layout iov iovcnt) (\<lambda>_.
       let iovs = map (iovec_at m iov) [0..<unat iovcnt]
       in rbind (validate_all (pf_validate_slice_mut pf u8_layout) iovs) (\<lambda>_. Ok iovs))"

definition validate_iovec_slice ::
  "platform \<Rightarrow> umem \<Rightarrow> usize \<Rightarrow> usize \<Rightarrow> (usize \<times> usize) list result" where
  "validate_iovec_slice pf m iov iovcnt =
     rbind (pf_validate_slice pf iovec_layout iov iovcnt) (\<lambda>_.
       let iovs = map (iovec_at m iov) [0..<unat iovcnt]
       in rbind (validate_all (pf_validate_slice pf u8_layout) iovs) (\<lambda>_. Ok iovs))"

partial_function (option) str_end :: "platform \<Rightarrow> umem \<Rightarrow> usize \<Rightarrow> usize result option" where
  [code]: "str_end pf m p =
     (case pf_validate pf u8_layout p of
        Inl e \<Rightarrow> Some (Err e)
      | Inr _ \<Rightarrow> if m (unat p) = 0 then Some (Ok (p + 1)) else str_end pf m (p + 1))"

text \<open>The bytes of the string with its terminator.\<close>

definition validate_str :: "platform \<Rightarrow> umem \<Rightarrow> usize \<Rightarrow> byte list result option" where
  "validate_str pf m ptr =
     map_option (\<lambda>r. rbind r (\<lambda>p.
       rbind (ok_or (checked_sub (unat p) (unat ptr)) EINVAL) (\<lambda>len.
         Ok (um_read m ptr len)))) (str_end pf m ptr)"

text \<open>The two places a socket address is returned to.\<close>

definition validate_sockaddr_output ::
  "platform \<Rightarrow> umem \<Rightarrow> usize \<Rightarrow> usize \<Rightarrow> sockaddr_output result" where
  "validate_sockaddr_output pf m addr addrlen =
     rbind (pf_validate_mut pf socklen_layout addrlen) (\<lambda>_.
       let len = u32_of_bytes (um_read m addrlen 4)
       in rbind (pf_validate_slice_mut pf u8_layout addr (ucast len)) (\<lambda>_.
            Ok \<lparr>so_addr = um_read m addr (unat len), so_addrlen = len\<rparr>))"

section \<open>The implementation of the shims\<close>

definition is_aligned_non_null :: "layout \<Rightarrow> usize \<Rightarrow> usize option" where
  "is_aligned_non_null T ptr =
     (if ptr = 0 \<or> unat ptr mod l_align T \<noteq> 0 then None else Some ptr)"

definition UserMemScope :: platform where
  "UserMemScope =
     \<lparr>pf_validate_mut = (\<lambda>T ptr. rmap (\<lambda>_. ()) (ok_or (is_aligned_non_null T ptr) EINVAL)),
      pf_validate = (\<lambda>T ptr. rmap (\<lambda>_. ()) (ok_or (is_aligned_non_null T ptr) EINVAL)),
      pf_validate_slice_mut = (\<lambda>T ptr count. rmap (\<lambda>_. ()) (ok_or (is_aligned_non_null T ptr) EINVAL)),
      pf_validate_slice = (\<lambda>T ptr count. rmap (\<lambda>_. ()) (ok_or (is_aligned_non_null T ptr) EINVAL))\<rparr>"

lemma UserMemScope_byte: "pf_validate UserMemScope u8_layout p = (if p = 0 then Err EINVAL else Ok ())"
  by (simp add: UserMemScope_def is_aligned_non_null_def u8_layout_def)

section \<open>Strings\<close>

lemma str_end_step:
  assumes "pf_validate pf u8_layout p = Ok ()" "m (unat p) \<noteq> 0"
  shows "str_end pf m p = str_end pf m (p + 1)"
  using assms by (subst str_end.simps) simp

lemma str_end_found:
  assumes "\<And>i. i \<le> n \<Longrightarrow> pf_validate pf u8_layout (p + of_nat i) = Ok ()"
    and "\<And>i. i < n \<Longrightarrow> m (unat (p + of_nat i)) \<noteq> 0" "m (unat (p + of_nat n)) = 0"
  shows "str_end pf m p = Some (Ok (p + of_nat n + 1))"
  using assms
proof (induction n arbitrary: p)
  case 0
  then show ?case by (subst str_end.simps) simp
next
  case (Suc n)
  have "str_end pf m p = str_end pf m (p + 1)"
    using Suc.prems(1) [of 0] Suc.prems(2) [of 0] by (intro str_end_step) simp_all
  also have "\<dots> = Some (Ok (p + 1 + of_nat n + 1))"
  proof (rule Suc.IH)
    show "pf_validate pf u8_layout (p + 1 + of_nat i) = Ok ()" if "i \<le> n" for i
      using Suc.prems(1) [of "Suc i"] that by (simp add: add.assoc add.commute [of 1])
    show "m (unat (p + 1 + of_nat i)) \<noteq> 0" if "i < n" for i
      using Suc.prems(2) [of "Suc i"] that by (simp add: add.assoc add.commute [of 1])
    show "m (unat (p + 1 + of_nat n)) = 0"
      using Suc.prems(3) by (simp add: add.assoc add.commute [of 1])
  qed
  finally show ?case by (simp add: add.assoc add.commute)
qed

lemma str_end_scope_total: "\<exists>r. str_end UserMemScope m p = Some r"
proof (induction "usize_limit - unat p" arbitrary: p rule: less_induct)
  case less
  show ?case
  proof (cases "p = 0 \<or> m (unat p) = 0")
    case True
    then show ?thesis
      by (subst str_end.simps) (auto simp: UserMemScope_byte)
  next
    case False
    then have s: "str_end UserMemScope m p = str_end UserMemScope m (p + 1)"
      by (intro str_end_step) (simp_all add: UserMemScope_byte)
    show ?thesis
    proof (cases "p + 1 = 0")
      case True
      then show ?thesis
        unfolding s by (subst str_end.simps) (simp add: UserMemScope_byte)
    next
      case False
      then have "unat (p + 1) = unat p + 1"
        using unatSuc [of p] by (simp add: add.commute)
      then show ?thesis
        unfolding s using unat_usize_less [of "p + 1"] by (intro less) simp
    qed
  qed
qed

text \<open>Reading a C string from the user. In memory with a zero byte behind a valid pointer,
  \<^verbatim>\<open>validate_str\<close> of the shims returns the bytes up to and including the first zero byte.\<close>

theorem validate_str_spec:
  assumes "ptr \<noteq> 0" "unat ptr + n + 1 < usize_limit"
    and "\<And>i. i < n \<Longrightarrow> m (unat ptr + i) \<noteq> 0" "m (unat ptr + n) = 0"
  shows "validate_str UserMemScope m ptr = Some (Ok (um_read m ptr (n + 1)))"
proof -
  have u: "unat (ptr + of_nat i) = unat ptr + i" if "i \<le> n + 1" for i
    using assms(2) that unat_to_usize [of i]
    by (simp add: unat_plus_if' to_usize_def usize_limit_def)
  have nz: "ptr + of_nat i \<noteq> 0" if "i \<le> n + 1" for i
    using u [OF that] assms(1) by (metis add_eq_0_iff_both_eq_0 unat_0 unsigned_eq_0_iff)
  have "str_end UserMemScope m ptr = Some (Ok (ptr + of_nat n + 1))"
    by (rule str_end_found) (use assms u nz in \<open>auto simp: UserMemScope_byte\<close>)
  moreover have "unat (ptr + of_nat n + 1) = unat ptr + n + 1"
    using u [of "n + 1"] by (simp add: ac_simps)
  ultimately show ?thesis
    by (simp add: validate_str_def checked_sub_def)
qed

theorem validate_str_spec_witness:
  "validate_str UserMemScope (\<lambda>a. if a = 4098 then 0 else 47) 4096 = Some (Ok [47, 47, 0])"
  using validate_str_spec [of 4096 2 "\<lambda>a. if a = 4098 then 0 else 47"]
  by (simp add: um_read_def usize_limit_def upt_rec)

text \<open>Termination: \<^verbatim>\<open>validate_str\<close> of the shims always ends: the walk through memory reaches a zero
  byte or wraps around to the null pointer, which is not valid.\<close>

theorem validate_str_total: "\<exists>r. validate_str UserMemScope m ptr = Some r"
  using str_end_scope_total by (simp add: validate_str_def)

end
