(* ===== verification/Dispatch.thy ===== *)
theory Dispatch
  imports Platform Handler_Laws
begin

text \<open>
  System calls of the program in the keep: the provided methods \<^verbatim>\<open>mremap\<close> and
  \<^verbatim>\<open>syscall\<close> of the trait \<^verbatim>\<open>Handler\<close>
  (\<^verbatim>\<open>crates/sallyport/src/guest/handler.rs\<close>).

  \<^verbatim>\<open>syscall\<close> takes the seven registers of a system call, validates the pointers among them,
  calls the method of the handler and writes what that method returns through its references back to
  the memory of the program. The state is that memory, the handler and what the shim keeps for
  itself; the six methods a shim has to provide are the fields of \<open>shim_ops\<close>. The platform, the
  host and the random number instruction are parameters, too.

  The value is \<open>None\<close> when the call does not return: \<^verbatim>\<open>validate_str\<close> and
  \<^verbatim>\<open>getrandom\<close> loop. There is one definition per arm of the match that does more than
  to convert its arguments.
\<close>

unbundle bit_operations_syntax

section \<open>State\<close>

record ('w, 'x) guest =
  g_mem :: umem
  g_handler :: "'w handler"
  g_own :: 'x

type_synonym ('w, 'x, 'r) reply = "('r result \<times> ('w, 'x) guest) outcome"

text \<open>The required methods of the trait.\<close>

record ('w, 'x) shim_ops =
  sh_arch_prctl :: "c_int \<Rightarrow> usize \<Rightarrow> ('w, 'x) guest \<Rightarrow> ('w, 'x, unit) reply"
  sh_brk :: "usize option \<Rightarrow> ('w, 'x) guest \<Rightarrow> ('w, 'x, usize) reply"
  sh_madvise :: "usize \<Rightarrow> usize \<Rightarrow> c_int \<Rightarrow> ('w, 'x) guest \<Rightarrow> ('w, 'x, unit) reply"
  sh_mmap :: "usize option \<Rightarrow> usize \<Rightarrow> c_int \<Rightarrow> c_int \<Rightarrow> c_int \<Rightarrow> 64 word \<Rightarrow> ('w, 'x) guest \<Rightarrow> ('w, 'x, usize) reply"
  sh_mprotect :: "usize \<Rightarrow> usize \<Rightarrow> c_int \<Rightarrow> ('w, 'x) guest \<Rightarrow> ('w, 'x, unit) reply"
  sh_munmap :: "usize \<Rightarrow> usize \<Rightarrow> ('w, 'x) guest \<Rightarrow> ('w, 'x, unit) reply"

record ('w, 'x) shim_env =
  se_platform :: platform
  se_host :: "'w host"
  se_rdrand :: rdrand
  se_ops :: "('w, 'x) shim_ops"

section \<open>Replies\<close>

type_synonym ('w, 'x) answer = "('w, 'x, usize \<times> usize) reply"

text \<open>\<^verbatim>\<open>.map(|ret| [ret as _, 0])\<close> after a method of the handler, without and with memory
  that the method has written.\<close>

definition reply_with ::
  "('r \<Rightarrow> usize) \<Rightarrow> ('w, 'x) guest \<Rightarrow> ('r result \<times> 'w handler) outcome \<Rightarrow> ('w, 'x) answer" where
  "reply_with conv g out = obind out (\<lambda>(r, h). Ret (rmap (\<lambda>x. (conv x, 0)) r, g\<lparr>g_handler := h\<rparr>))"

definition reply_buf ::
  "('r \<Rightarrow> usize) \<Rightarrow> ('b \<Rightarrow> umem \<Rightarrow> umem) \<Rightarrow> ('w, 'x) guest \<Rightarrow>
     ('r result \<times> 'b \<times> 'w handler) outcome \<Rightarrow> ('w, 'x) answer" where
  "reply_buf conv store g out =
     obind out (\<lambda>(r, b, h). Ret (rmap (\<lambda>x. (conv x, 0)) r, g\<lparr>g_handler := h, g_mem := store b (g_mem g)\<rparr>))"

definition reply_shim :: "('r \<Rightarrow> usize) \<Rightarrow> ('w, 'x, 'r) reply \<Rightarrow> ('w, 'x) answer" where
  "reply_shim conv out = obind out (\<lambda>(r, g). Ret (rmap (\<lambda>x. (conv x, 0)) r, g))"

text \<open>\<^verbatim>\<open>[0, 0]\<close>\<close>

definition no_value :: "'r \<Rightarrow> usize" where
  "no_value _ = 0"

text \<open>\<^verbatim>\<open>?\<close> on a validation.\<close>

definition validated ::
  "('w, 'x) guest \<Rightarrow> 'a result \<Rightarrow> ('a \<Rightarrow> ('w, 'x, 'r) reply) \<Rightarrow> ('w, 'x, 'r) reply" where
  "validated g v k = (case v of Inl e \<Rightarrow> Ret (Err e, g) | Inr x \<Rightarrow> k x)"

text \<open>An optional pointer: null stands for no value.\<close>

definition nullable :: "usize \<Rightarrow> 'a result \<Rightarrow> 'a option result" where
  "nullable p v = (if p = 0 then Ok None else rmap Some v)"

section \<open>Values in user memory\<close>

definition load_timespec :: "platform \<Rightarrow> umem \<Rightarrow> usize \<Rightarrow> timespec result" where
  "load_timespec pf m p = rmap (\<lambda>_. timespec_of_bytes (um_read m p 16)) (pf_validate pf timespec_layout p)"

definition load_timespec_mut :: "platform \<Rightarrow> umem \<Rightarrow> usize \<Rightarrow> timespec result" where
  "load_timespec_mut pf m p = rmap (\<lambda>_. timespec_of_bytes (um_read m p 16)) (pf_validate_mut pf timespec_layout p)"

definition store_timespec :: "usize \<Rightarrow> timespec \<Rightarrow> umem \<Rightarrow> umem" where
  "store_timespec p t = um_write p (timespec_bytes t)"

definition store_option :: "('b \<Rightarrow> umem \<Rightarrow> umem) \<Rightarrow> 'b option \<Rightarrow> umem \<Rightarrow> umem" where
  "store_option store x m = (case x of None \<Rightarrow> m | Some b \<Rightarrow> store b m)"

definition epoll_event_of_bytes :: "byte list \<Rightarrow> epoll_event" where
  "epoll_event_of_bytes bs =
     \<lparr>ev_events = u32_of_bytes (take 4 bs), ev_padding = u32_of_bytes (take 4 (drop 4 bs)),
      ev_u64 = usize_of_bytes (take 8 (drop 8 bs))\<rparr>"

definition pollfd_of_bytes :: "byte list \<Rightarrow> pollfd" where
  "pollfd_of_bytes bs =
     \<lparr>pfd_fd = u32_of_bytes (take 4 bs), pfd_events = of_nat (le_nat (take 2 (drop 4 bs))),
      pfd_revents = of_nat (le_nat (take 2 (drop 6 bs)))\<rparr>"

definition load_array :: "(byte list \<Rightarrow> 'a) \<Rightarrow> nat \<Rightarrow> umem \<Rightarrow> usize \<Rightarrow> usize \<Rightarrow> 'a list" where
  "load_array of_bytes sz m p n =
     (let bs = um_read m p (sz * unat n) in map (\<lambda>i. of_bytes (take sz (drop (sz * i) bs))) [0..<unat n])"

definition sigset_of_bytes :: "byte list \<Rightarrow> sigset" where
  "sigset_of_bytes bs = (\<lambda>i. words_of_bytes bs ! i)"

definition load_sigset :: "umem \<Rightarrow> usize \<Rightarrow> sigset" where
  "load_sigset m p = sigset_of_bytes (um_read m p 128)"

definition store_sigset :: "usize \<Rightarrow> sigset \<Rightarrow> umem \<Rightarrow> umem" where
  "store_sigset p s = um_write p (sigset_bytes s)"

definition load_sigaction :: "umem \<Rightarrow> usize \<Rightarrow> sigaction" where
  "load_sigaction m p = words_of_bytes (um_read m p 32)"

definition stack_of_bytes :: "byte list \<Rightarrow> stack_t" where
  "stack_of_bytes bs =
     \<lparr>ss_sp = usize_of_bytes (take 8 bs), ss_flags = u32_of_bytes (take 4 (drop 8 bs)),
      ss_size = usize_of_bytes (take 8 (drop 16 bs))\<rparr>"

definition load_stack :: "umem \<Rightarrow> usize \<Rightarrow> stack_t" where
  "load_stack m p = stack_of_bytes (um_read m p 24)"

definition stat_of_bytes :: "byte list \<Rightarrow> stat" where
  "stat_of_bytes bs =
     (let w = (\<lambda>off. usize_of_bytes (take 8 (drop off bs))); u = (\<lambda>off. u32_of_bytes (take 4 (drop off bs)))
      in \<lparr>st_dev = w 0, st_ino = w 8, st_nlink = w 16, st_mode = u 24, st_uid = u 28, st_gid = u 32,
          st_rdev = w 40, st_size = w 48, st_blksize = w 56, st_blocks = w 64, st_atime = w 72, st_atime_nsec = w 80,
          st_mtime = w 88, st_mtime_nsec = w 96, st_ctime = w 104, st_ctime_nsec = w 112\<rparr>)"

definition load_stat :: "umem \<Rightarrow> usize \<Rightarrow> stat" where
  "load_stat m p = stat_of_bytes (um_read m p 144)"

text \<open>The structure is made from zeros, so that its padding and its unused words are zero.\<close>

definition stat_bytes :: "stat \<Rightarrow> byte list" where
  "stat_bytes s =
     usize_bytes (st_dev s) @ usize_bytes (st_ino s) @ usize_bytes (st_nlink s) @
     u32_bytes (st_mode s) @ u32_bytes (st_uid s) @ u32_bytes (st_gid s) @ replicate 4 0 @
     usize_bytes (st_rdev s) @ usize_bytes (st_size s) @ usize_bytes (st_blksize s) @ usize_bytes (st_blocks s) @
     usize_bytes (st_atime s) @ usize_bytes (st_atime_nsec s) @ usize_bytes (st_mtime s) @
     usize_bytes (st_mtime_nsec s) @ usize_bytes (st_ctime s) @ usize_bytes (st_ctime_nsec s) @ replicate 24 0"

definition utsname_of_bytes :: "byte list \<Rightarrow> utsname" where
  "utsname_of_bytes bs =
     (let f = (\<lambda>i. take 65 (drop (65 * i) bs))
      in \<lparr>un_sysname = f 0, un_nodename = f 1, un_release = f 2, un_version = f 3, un_machine = f 4, un_domainname = f 5\<rparr>)"

definition load_utsname :: "umem \<Rightarrow> usize \<Rightarrow> utsname" where
  "load_utsname m p = utsname_of_bytes (um_read m p 390)"

definition utsname_bytes :: "utsname \<Rightarrow> byte list" where
  "utsname_bytes u =
     un_sysname u @ un_nodename u @ un_release u @ un_version u @ un_machine u @ un_domainname u"

definition store_sockaddr :: "usize \<Rightarrow> usize \<Rightarrow> sockaddr_output \<Rightarrow> umem \<Rightarrow> umem" where
  "store_sockaddr addr addrlen so m =
     um_write addrlen (u32_bytes (so_addrlen so)) (um_write addr (so_addr so) m)"

fun store_iovs :: "(usize \<times> usize) list \<Rightarrow> byte list list \<Rightarrow> umem \<Rightarrow> umem" where
  "store_iovs ((base, len) # iovs) (bs # bss) m = store_iovs iovs bss (um_write base bs m)"
| "store_iovs _ _ m = m"

definition load_iovs :: "umem \<Rightarrow> (usize \<times> usize) list \<Rightarrow> byte list list" where
  "load_iovs m iovs = map (\<lambda>(base, len). um_read m base (unat len)) iovs"

text \<open>\<^verbatim>\<open>validate_slice::<u8>\<close> and its mutable variant, with the bytes.\<close>

definition load_bytes :: "platform \<Rightarrow> umem \<Rightarrow> usize \<Rightarrow> usize \<Rightarrow> byte list result" where
  "load_bytes pf m p n = rmap (\<lambda>_. um_read m p (unat n)) (pf_validate_slice pf u8_layout p n)"

definition load_bytes_mut :: "platform \<Rightarrow> umem \<Rightarrow> usize \<Rightarrow> usize \<Rightarrow> byte list result" where
  "load_bytes_mut pf m p n = rmap (\<lambda>_. um_read m p (unat n)) (pf_validate_slice_mut pf u8_layout p n)"

section \<open>mremap\<close>

record mremap_flags =
  mf_fixed :: "usize option"
  mf_dontunmap :: bool

definition non_null_or :: "c_int \<Rightarrow> usize \<Rightarrow> usize result" where
  "non_null_or e p = (if p = 0 then Err e else Ok p)"

definition handler_mremap ::
  "('w, 'x) shim_env \<Rightarrow> usize \<Rightarrow> usize \<Rightarrow> usize \<Rightarrow> mremap_flags option \<Rightarrow> ('w, 'x) guest \<Rightarrow> ('w, 'x, usize) reply" where
  "handler_mremap env old_address old_size new_size flags g =
     (let movable = (case flags of None \<Rightarrow> None | Some f \<Rightarrow> if mf_fixed f = None then Some (mf_dontunmap f) else None)
      in if (flags = None \<or> movable \<noteq> None) \<and> new_size = old_size then Ret (Ok old_address, g)
         else if movable = Some False \<and> new_size < old_size then
           validated g (pf_validate_slice (se_platform env) u8_layout old_address old_size) (\<lambda>_.
           validated g (non_null_or EINVAL (old_address + new_size)) (\<lambda>addr.
             obind (sh_munmap (se_ops env) addr (old_size - new_size) g) (\<lambda>(_, g). Ret (Ok old_address, g))))
         else if movable \<noteq> None \<and> old_size < new_size then
           validated g (pf_validate_slice (se_platform env) u8_layout old_address old_size) (\<lambda>_.
             obind (sh_mmap (se_ops env) None new_size (PROT_WRITE OR PROT_EXEC OR PROT_READ)
                      (MAP_PRIVATE OR MAP_ANONYMOUS) (- 1) 0 g) (\<lambda>(r, g).
               validated g r (\<lambda>new_addr.
                 let g = g\<lparr>g_mem := um_write new_addr (um_read (g_mem g) old_address (unat old_size)) (g_mem g)\<rparr>
                 in if movable = Some False
                    then obind (sh_munmap (se_ops env) old_address old_size g) (\<lambda>(_, g). Ret (Ok new_addr, g))
                    else Ret (Ok new_addr, g))))
         else Ret (Err ENOTSUP, g))"

definition mremap_flags_of :: "c_int \<Rightarrow> usize \<Rightarrow> mremap_flags option result" where
  "mremap_flags_of flags new_address =
     (if flags = 0 \<and> new_address = 0 then Ok None
      else if flags = MREMAP_MAYMOVE \<and> new_address = 0
      then Ok (Some \<lparr>mf_fixed = None, mf_dontunmap = False\<rparr>)
      else if new_address = 0 \<and> flags = MREMAP_MAYMOVE OR MREMAP_DONTUNMAP
      then Ok (Some \<lparr>mf_fixed = None, mf_dontunmap = True\<rparr>)
      else if new_address = 0 \<and> flags AND MREMAP_FIXED \<noteq> 0 then Err EINVAL
      else if flags = MREMAP_MAYMOVE OR MREMAP_FIXED
      then Ok (Some \<lparr>mf_fixed = Some new_address, mf_dontunmap = False\<rparr>)
      else if flags = MREMAP_MAYMOVE OR MREMAP_FIXED OR MREMAP_DONTUNMAP
      then Ok (Some \<lparr>mf_fixed = Some new_address, mf_dontunmap = True\<rparr>)
      else Err EINVAL)"

section \<open>The arms of the match\<close>

text \<open>The arms that use pointers. An arm gets the argument registers.\<close>

definition dispatch_accept :: "('w, 'x) shim_env \<Rightarrow> usize list \<Rightarrow> ('w, 'x) guest \<Rightarrow> ('w, 'x) answer" where
  "dispatch_accept env a g =
     validated g (nullable (a ! 1) (validate_sockaddr_output (se_platform env) (g_mem g) (a ! 1) (a ! 2))) (\<lambda>addr.
       reply_buf as_usize (store_option (store_sockaddr (a ! 1) (a ! 2))) g
         (handler_accept (se_host env) (g_handler g) (as_int (a ! 0)) addr))"

definition dispatch_accept4 :: "('w, 'x) shim_env \<Rightarrow> usize list \<Rightarrow> ('w, 'x) guest \<Rightarrow> ('w, 'x) answer" where
  "dispatch_accept4 env a g =
     validated g (nullable (a ! 1) (validate_sockaddr_output (se_platform env) (g_mem g) (a ! 1) (a ! 2))) (\<lambda>addr.
       reply_buf as_usize (store_option (store_sockaddr (a ! 1) (a ! 2))) g
         (handler_accept4 (se_host env) (g_handler g) (as_int (a ! 0)) addr (as_int (a ! 3))))"

definition dispatch_bind :: "('w, 'x) shim_env \<Rightarrow> usize list \<Rightarrow> ('w, 'x) guest \<Rightarrow> ('w, 'x) answer" where
  "dispatch_bind env a g =
     validated g (load_bytes (se_platform env) (g_mem g) (a ! 1) (a ! 2)) (\<lambda>addr.
       reply_with no_value g (handler_bind (se_host env) (g_handler g) (as_int (a ! 0)) addr))"

definition dispatch_clock_getres :: "('w, 'x) shim_env \<Rightarrow> usize list \<Rightarrow> ('w, 'x) guest \<Rightarrow> ('w, 'x) answer" where
  "dispatch_clock_getres env a g =
     validated g (nullable (a ! 1) (load_timespec_mut (se_platform env) (g_mem g) (a ! 1))) (\<lambda>res.
       reply_buf no_value (store_option (store_timespec (a ! 1))) g
         (handler_clock_getres (se_host env) (g_handler g) (as_int (a ! 0)) res))"

definition dispatch_clock_gettime :: "('w, 'x) shim_env \<Rightarrow> usize list \<Rightarrow> ('w, 'x) guest \<Rightarrow> ('w, 'x) answer" where
  "dispatch_clock_gettime env a g =
     validated g (load_timespec_mut (se_platform env) (g_mem g) (a ! 1)) (\<lambda>tp.
       reply_buf no_value (store_timespec (a ! 1)) g
         (handler_clock_gettime (se_host env) (g_handler g) (as_int (a ! 0)) tp))"

definition dispatch_connect :: "('w, 'x) shim_env \<Rightarrow> usize list \<Rightarrow> ('w, 'x) guest \<Rightarrow> ('w, 'x) answer" where
  "dispatch_connect env a g =
     validated g (load_bytes (se_platform env) (g_mem g) (a ! 1) (a ! 2)) (\<lambda>addr.
       reply_with no_value g (handler_connect (se_host env) (g_handler g) (as_int (a ! 0)) addr))"

definition dispatch_epoll_ctl :: "('w, 'x) shim_env \<Rightarrow> usize list \<Rightarrow> ('w, 'x) guest \<Rightarrow> ('w, 'x) answer" where
  "dispatch_epoll_ctl env a g =
     validated g (pf_validate (se_platform env) epoll_event_layout (a ! 3)) (\<lambda>_.
       reply_with no_value g (handler_epoll_ctl (se_host env) (g_handler g) (as_int (a ! 0)) (as_int (a ! 1))
         (as_int (a ! 2)) (epoll_event_of_bytes (um_read (g_mem g) (a ! 3) 16))))"

definition dispatch_epoll_wait :: "('w, 'x) shim_env \<Rightarrow> usize list \<Rightarrow> ('w, 'x) guest \<Rightarrow> ('w, 'x) answer" where
  "dispatch_epoll_wait env a g =
     validated g (pf_validate_slice_mut (se_platform env) epoll_event_layout (a ! 1) (a ! 2)) (\<lambda>_.
       reply_buf as_usize (um_write (a ! 1)) g
         (handler_epoll_wait (se_host env) (g_handler g) (as_int (a ! 0))
            (load_array epoll_event_of_bytes 16 (g_mem g) (a ! 1) (a ! 2)) (as_int (a ! 3))))"

definition dispatch_epoll_pwait :: "('w, 'x) shim_env \<Rightarrow> usize list \<Rightarrow> ('w, 'x) guest \<Rightarrow> ('w, 'x) answer" where
  "dispatch_epoll_pwait env a g =
     validated g (pf_validate_slice_mut (se_platform env) epoll_event_layout (a ! 1) (a ! 2)) (\<lambda>_.
       let events = load_array epoll_event_of_bytes 16 (g_mem g) (a ! 1) (a ! 2)
       in if a ! 4 = 0
          then reply_buf as_usize (um_write (a ! 1)) g
                 (handler_epoll_wait (se_host env) (g_handler g) (as_int (a ! 0)) events (as_int (a ! 3)))
          else validated g (pf_validate (se_platform env) sigset_layout (a ! 4)) (\<lambda>_.
                 reply_buf as_usize (um_write (a ! 1)) g
                   (handler_epoll_pwait (se_host env) (g_handler g) (as_int (a ! 0)) events (as_int (a ! 3))
                      (load_sigset (g_mem g) (a ! 4)))))"

definition dispatch_fstat :: "('w, 'x) shim_env \<Rightarrow> usize list \<Rightarrow> ('w, 'x) guest \<Rightarrow> ('w, 'x) answer" where
  "dispatch_fstat env a g =
     validated g (pf_validate_mut (se_platform env) stat_layout (a ! 1)) (\<lambda>_.
       let statbuf = load_stat (g_mem g) (a ! 1)
       in obind (handler_fstat (se_host env) (g_handler g) (as_int (a ! 0)) statbuf) (\<lambda>(r, st, h).
            Ret (rmap (\<lambda>_. (0, 0)) r,
                 g\<lparr>g_handler := h, g_mem := if r = Ok () then um_write (a ! 1) (stat_bytes st) (g_mem g) else g_mem g\<rparr>)))"

definition dispatch_getrandom :: "('w, 'x) shim_env \<Rightarrow> usize list \<Rightarrow> ('w, 'x) guest \<Rightarrow> ('w, 'x) answer option" where
  "dispatch_getrandom env a g =
     (case load_bytes_mut (se_platform env) (g_mem g) (a ! 0) (a ! 1) of
        Inl e \<Rightarrow> Some (Ret (Err e, g))
      | Inr buf \<Rightarrow> map_option (reply_buf id (um_write (a ! 0)) g)
                    (handler_getrandom (se_rdrand env) 0 (se_host env) (g_handler g) buf (as_int (a ! 2))))"

definition dispatch_getsockname :: "('w, 'x) shim_env \<Rightarrow> usize list \<Rightarrow> ('w, 'x) guest \<Rightarrow> ('w, 'x) answer" where
  "dispatch_getsockname env a g =
     validated g (validate_sockaddr_output (se_platform env) (g_mem g) (a ! 1) (a ! 2)) (\<lambda>addr.
       reply_buf no_value (store_sockaddr (a ! 1) (a ! 2)) g
         (handler_getsockname (se_host env) (g_handler g) (as_int (a ! 0)) addr))"

definition dispatch_ioctl :: "('w, 'x) shim_env \<Rightarrow> usize list \<Rightarrow> ('w, 'x) guest \<Rightarrow> ('w, 'x) answer" where
  "dispatch_ioctl env a g =
     (let request = as_int (a ! 1)
      in validated g
           (if a ! 2 = 0 then Ok None
            else if request = FIONBIO \<or> request = FIONREAD
            then rmap (\<lambda>_. Some (um_read (g_mem g) (a ! 2) 4)) (pf_validate_mut (se_platform env) u32_layout (a ! 2))
            else Err ENOTSUP) (\<lambda>argp.
           reply_buf as_usize (store_option (um_write (a ! 2))) g
             (handler_ioctl (se_host env) (g_handler g) (as_int (a ! 0)) request argp)))"

definition dispatch_mremap :: "('w, 'x) shim_env \<Rightarrow> usize list \<Rightarrow> ('w, 'x) guest \<Rightarrow> ('w, 'x) answer" where
  "dispatch_mremap env a g =
     validated g (non_null_or EFAULT (a ! 0)) (\<lambda>old_address.
     validated g (mremap_flags_of (as_int (a ! 3)) (a ! 4)) (\<lambda>flags.
       reply_shim id (handler_mremap env old_address (a ! 1) (a ! 2) flags g)))"

definition dispatch_nanosleep :: "('w, 'x) shim_env \<Rightarrow> usize list \<Rightarrow> ('w, 'x) guest \<Rightarrow> ('w, 'x) answer" where
  "dispatch_nanosleep env a g =
     validated g (load_timespec (se_platform env) (g_mem g) (a ! 0)) (\<lambda>req.
     validated g (nullable (a ! 1) (load_timespec_mut (se_platform env) (g_mem g) (a ! 1))) (\<lambda>rem.
       reply_buf no_value (store_option (store_timespec (a ! 1))) g
         (handler_nanosleep (se_host env) (g_handler g) req rem)))"

definition dispatch_open :: "('w, 'x) shim_env \<Rightarrow> usize list \<Rightarrow> ('w, 'x) guest \<Rightarrow> ('w, 'x) answer option" where
  "dispatch_open env a g =
     map_option (\<lambda>path. validated g path (\<lambda>pathname.
       reply_with as_usize g (handler_open (se_host env) (g_handler g) pathname (as_int (a ! 1))
         (if a ! 2 = 0 then None else Some (ucast (a ! 2))))))
       (validate_str (se_platform env) (g_mem g) (a ! 0))"

definition dispatch_poll :: "('w, 'x) shim_env \<Rightarrow> usize list \<Rightarrow> ('w, 'x) guest \<Rightarrow> ('w, 'x) answer" where
  "dispatch_poll env a g =
     validated g (pf_validate_slice_mut (se_platform env) pollfd_layout (a ! 0) (a ! 1)) (\<lambda>_.
       reply_buf as_usize (um_write (a ! 0)) g
         (handler_poll (se_host env) (g_handler g) (load_array pollfd_of_bytes 8 (g_mem g) (a ! 0) (a ! 1)) (as_int (a ! 2))))"

definition dispatch_read :: "('w, 'x) shim_env \<Rightarrow> usize list \<Rightarrow> ('w, 'x) guest \<Rightarrow> ('w, 'x) answer" where
  "dispatch_read env a g =
     validated g (load_bytes_mut (se_platform env) (g_mem g) (a ! 1) (a ! 2)) (\<lambda>buf.
       reply_buf id (um_write (a ! 1)) g (handler_read (se_host env) (g_handler g) (as_int (a ! 0)) buf))"

definition dispatch_readlink :: "('w, 'x) shim_env \<Rightarrow> usize list \<Rightarrow> ('w, 'x) guest \<Rightarrow> ('w, 'x) answer option" where
  "dispatch_readlink env a g =
     map_option (\<lambda>path. validated g path (\<lambda>pathname.
       validated g (load_bytes_mut (se_platform env) (g_mem g) (a ! 1) (a ! 2)) (\<lambda>buf.
         reply_buf id (um_write (a ! 1)) g (handler_readlink (se_host env) (g_handler g) pathname buf))))
       (validate_str (se_platform env) (g_mem g) (a ! 0))"

definition dispatch_readv :: "('w, 'x) shim_env \<Rightarrow> usize list \<Rightarrow> ('w, 'x) guest \<Rightarrow> ('w, 'x) answer" where
  "dispatch_readv env a g =
     validated g (validate_iovec_slice_mut (se_platform env) (g_mem g) (a ! 1) (a ! 2)) (\<lambda>iovs.
       reply_buf id (store_iovs iovs) g
         (handler_readv (se_host env) (g_handler g) (as_int (a ! 0)) (load_iovs (g_mem g) iovs)))"

definition dispatch_recvfrom :: "('w, 'x) shim_env \<Rightarrow> usize list \<Rightarrow> ('w, 'x) guest \<Rightarrow> ('w, 'x) answer" where
  "dispatch_recvfrom env a g =
     validated g (load_bytes_mut (se_platform env) (g_mem g) (a ! 1) (a ! 2)) (\<lambda>buf.
       if a ! 4 = 0
       then reply_buf id (um_write (a ! 1)) g
              (handler_recv (se_host env) (g_handler g) (as_int (a ! 0)) buf (as_int (a ! 3)))
       else validated g (validate_sockaddr_output (se_platform env) (g_mem g) (a ! 4) (a ! 5)) (\<lambda>src_addr.
              reply_buf id (\<lambda>(bs, so) m. store_sockaddr (a ! 4) (a ! 5) so (um_write (a ! 1) bs m)) g
                (handler_recvfrom (se_host env) (g_handler g) (as_int (a ! 0)) buf (as_int (a ! 3)) src_addr)))"

definition dispatch_rt_sigaction :: "('w, 'x) shim_env \<Rightarrow> usize list \<Rightarrow> ('w, 'x) guest \<Rightarrow> ('w, 'x) answer" where
  "dispatch_rt_sigaction env a g =
     (let action = (\<lambda>p. rmap (\<lambda>_. load_sigaction (g_mem g) p) (pf_validate (se_platform env) (array_of 4 u64_layout) p))
      in validated g (nullable (a ! 1) (action (a ! 1))) (\<lambda>act.
         if a ! 2 = 0
         then reply_with no_value g
                (obind (handler_rt_sigaction (g_handler g) (as_int (a ! 0)) act None (a ! 3)) (\<lambda>(r, _, h). Ret (r, h)))
         else validated g (pf_validate_mut (se_platform env) (array_of 4 u64_layout) (a ! 2)) (\<lambda>_.
                reply_buf no_value (\<lambda>old m. case old of
                    Some (Some ws) \<Rightarrow> um_write (a ! 2) (bytes_of_words ws) m
                  | _ \<Rightarrow> m) g
                  (obind (handler_rt_sigaction (g_handler g) (as_int (a ! 0)) act (Some None) (a ! 3))
                    (\<lambda>(r, old, h). Ret (r, if r = Ok () then old else None, h))))))"

definition dispatch_rt_sigprocmask :: "('w, 'x) shim_env \<Rightarrow> usize list \<Rightarrow> ('w, 'x) guest \<Rightarrow> ('w, 'x) answer" where
  "dispatch_rt_sigprocmask env a g =
     validated g (nullable (a ! 1) (rmap (\<lambda>_. load_sigset (g_mem g) (a ! 1))
                   (pf_validate (se_platform env) sigset_layout (a ! 1)))) (\<lambda>newset.
     validated g (nullable (a ! 2) (rmap (\<lambda>_. load_sigset (g_mem g) (a ! 2))
                   (pf_validate_mut (se_platform env) sigset_layout (a ! 2)))) (\<lambda>oldset.
       reply_buf no_value (store_option (store_sigset (a ! 2))) g
         (handler_rt_sigprocmask (se_host env) (g_handler g) (as_int (a ! 0)) newset oldset (a ! 3))))"

definition dispatch_sendto :: "('w, 'x) shim_env \<Rightarrow> usize list \<Rightarrow> ('w, 'x) guest \<Rightarrow> ('w, 'x) answer" where
  "dispatch_sendto env a g =
     validated g (load_bytes (se_platform env) (g_mem g) (a ! 1) (a ! 2)) (\<lambda>buf.
       if a ! 4 = 0
       then reply_with id g (handler_send (se_host env) (g_handler g) (as_int (a ! 0)) buf (as_int (a ! 3)))
       else validated g (load_bytes (se_platform env) (g_mem g) (a ! 4) (a ! 5)) (\<lambda>dest_addr.
              reply_with id g
                (handler_sendto (se_host env) (g_handler g) (as_int (a ! 0)) buf (as_int (a ! 3)) dest_addr)))"

definition dispatch_setsockopt :: "('w, 'x) shim_env \<Rightarrow> usize list \<Rightarrow> ('w, 'x) guest \<Rightarrow> ('w, 'x) answer" where
  "dispatch_setsockopt env a g =
     validated g (nullable (a ! 3) (load_bytes (se_platform env) (g_mem g) (a ! 3) (a ! 4))) (\<lambda>optval.
       reply_with as_usize g
         (handler_setsockopt (se_host env) (g_handler g) (as_int (a ! 0)) (as_int (a ! 1)) (as_int (a ! 2)) optval))"

definition dispatch_set_tid_address :: "('w, 'x) shim_env \<Rightarrow> usize list \<Rightarrow> ('w, 'x) guest \<Rightarrow> ('w, 'x) answer" where
  "dispatch_set_tid_address env a g =
     validated g (pf_validate_mut (se_platform env) u32_layout (a ! 0)) (\<lambda>_.
       reply_with as_usize g
         (handler_set_tid_address (se_host env) (g_handler g) (u32_of_bytes (um_read (g_mem g) (a ! 0) 4))))"

definition dispatch_sigaltstack :: "('w, 'x) shim_env \<Rightarrow> usize list \<Rightarrow> ('w, 'x) guest \<Rightarrow> ('w, 'x) answer" where
  "dispatch_sigaltstack env a g =
     validated g (nullable (a ! 0) (rmap (\<lambda>_. load_stack (g_mem g) (a ! 0))
                   (pf_validate (se_platform env) stack_layout (a ! 0)))) (\<lambda>ss.
     validated g (nullable (a ! 1) (rmap (\<lambda>_. load_stack (g_mem g) (a ! 1))
                   (pf_validate_mut (se_platform env) stack_layout (a ! 1)))) (\<lambda>old_ss.
       reply_with no_value g
         (obind (handler_sigaltstack (se_host env) (g_handler g) ss old_ss) (\<lambda>(r, _, h). Ret (r, h)))))"

definition dispatch_uname :: "('w, 'x) shim_env \<Rightarrow> usize list \<Rightarrow> ('w, 'x) guest \<Rightarrow> ('w, 'x) answer" where
  "dispatch_uname env a g =
     validated g (pf_validate_mut (se_platform env) utsname_layout (a ! 0)) (\<lambda>_.
       reply_buf no_value (\<lambda>u. um_write (a ! 0) (utsname_bytes u)) g
         (handler_uname (se_host env) (g_handler g) (load_utsname (g_mem g) (a ! 0))))"

definition dispatch_write :: "('w, 'x) shim_env \<Rightarrow> usize list \<Rightarrow> ('w, 'x) guest \<Rightarrow> ('w, 'x) answer" where
  "dispatch_write env a g =
     validated g (load_bytes (se_platform env) (g_mem g) (a ! 1) (a ! 2)) (\<lambda>buf.
       reply_with id g (handler_write (se_host env) (g_handler g) (as_int (a ! 0)) buf))"

definition dispatch_writev :: "('w, 'x) shim_env \<Rightarrow> usize list \<Rightarrow> ('w, 'x) guest \<Rightarrow> ('w, 'x) answer" where
  "dispatch_writev env a g =
     validated g (validate_iovec_slice (se_platform env) (g_mem g) (a ! 1) (a ! 2)) (\<lambda>iovs.
       reply_with id g
         (handler_writev (se_host env) (g_handler g) (as_int (a ! 0)) (load_iovs (g_mem g) iovs)))"

section \<open>The match\<close>

text \<open>The registers are the number and the six arguments. The source matches the number against
  constants; here the same constants are compared in the same order.\<close>

definition syscall_memory :: "('w, 'x) shim_env \<Rightarrow> usize \<Rightarrow> usize list \<Rightarrow> ('w, 'x) guest \<Rightarrow> ('w, 'x) answer option" where
  "syscall_memory env num a g =
     (let ops = se_ops env
      in if num = SYS_arch_prctl then Some (reply_shim no_value (sh_arch_prctl ops (as_int (a ! 0)) (a ! 1) g))
         else if num = SYS_brk then Some (reply_shim id (sh_brk ops (if a ! 0 = 0 then None else Some (a ! 0)) g))
         else if num = SYS_madvise then Some (validated g (non_null_or EFAULT (a ! 0)) (\<lambda>addr.
           reply_shim no_value (sh_madvise ops addr (a ! 1) (as_int (a ! 2)) g)))
         else if num = SYS_mmap then Some (reply_shim id (sh_mmap ops (if a ! 0 = 0 then None else Some (a ! 0))
           (a ! 1) (as_int (a ! 2)) (as_int (a ! 3)) (as_int (a ! 4)) (a ! 5) g))
         else if num = SYS_mprotect then Some (validated g (non_null_or EFAULT (a ! 0)) (\<lambda>addr.
           reply_shim no_value (sh_mprotect ops addr (a ! 1) (as_int (a ! 2)) g)))
         else if num = SYS_mremap then Some (dispatch_mremap env a g)
         else if num = SYS_munmap then Some (validated g (non_null_or EFAULT (a ! 0)) (\<lambda>addr.
           reply_shim no_value (sh_munmap ops addr (a ! 1) g)))
         else None)"

definition syscall_plain :: "('w, 'x) shim_env \<Rightarrow> usize \<Rightarrow> usize list \<Rightarrow> ('w, 'x) guest \<Rightarrow> ('w, 'x) answer option" where
  "syscall_plain env num a g =
     (let host = se_host env; h = g_handler g
      in if num = SYS_close then Some (reply_with no_value g (handler_close host h (as_int (a ! 0))))
         else if num = SYS_dup then Some (reply_with no_value g (handler_dup host h (as_int (a ! 0))))
         else if num = SYS_dup2 then Some (reply_with no_value g (handler_dup2 host h (as_int (a ! 0)) (as_int (a ! 1))))
         else if num = SYS_dup3 then Some (reply_with no_value g
           (handler_dup3 host h (as_int (a ! 0)) (as_int (a ! 1)) (as_int (a ! 2))))
         else if num = SYS_epoll_create1 then Some (reply_with as_usize g (handler_epoll_create1 host h (as_int (a ! 0))))
         else if num = SYS_eventfd2 then Some (reply_with as_usize g
           (handler_eventfd2 host h (as_int (a ! 0)) (as_int (a ! 1))))
         else if num = SYS_exit then Some (reply_with no_value g (handler_exit host h (as_int (a ! 0))))
         else if num = SYS_exit_group then Some (reply_with no_value g (handler_exit_group host h (as_int (a ! 0))))
         else if num = SYS_fcntl then Some (reply_with as_usize g
           (handler_fcntl host h (as_int (a ! 0)) (as_int (a ! 1)) (as_int (a ! 2))))
         else if num = SYS_getegid then Some (reply_with ucast g (handler_getegid host h))
         else if num = SYS_geteuid then Some (reply_with ucast g (handler_geteuid host h))
         else if num = SYS_getgid then Some (reply_with ucast g (handler_getgid host h))
         else if num = SYS_getpid then Some (reply_with as_usize g (handler_getpid host h))
         else if num = SYS_getuid then Some (reply_with ucast g (handler_getuid host h))
         else if num = SYS_listen then Some (reply_with no_value g (handler_listen host h (as_int (a ! 0)) (as_int (a ! 1))))
         else if num = SYS_socket then Some (reply_with as_usize g
           (handler_socket host h (as_int (a ! 0)) (as_int (a ! 1)) (as_int (a ! 2))))
         else if num = SYS_sync then Some (reply_with no_value g (handler_sync host h))
         else None)"

definition syscall_pointer :: "('w, 'x) shim_env \<Rightarrow> usize \<Rightarrow> usize list \<Rightarrow> ('w, 'x) guest \<Rightarrow> ('w, 'x) answer option" where
  "syscall_pointer env num a g =
     (if num = SYS_accept then Some (dispatch_accept env a g)
      else if num = SYS_accept4 then Some (dispatch_accept4 env a g)
      else if num = SYS_bind then Some (dispatch_bind env a g)
      else if num = SYS_clock_getres then Some (dispatch_clock_getres env a g)
      else if num = SYS_clock_gettime then Some (dispatch_clock_gettime env a g)
      else if num = SYS_connect then Some (dispatch_connect env a g)
      else if num = SYS_epoll_ctl then Some (dispatch_epoll_ctl env a g)
      else if num = SYS_epoll_pwait then Some (dispatch_epoll_pwait env a g)
      else if num = SYS_epoll_wait then Some (dispatch_epoll_wait env a g)
      else if num = SYS_fstat then Some (dispatch_fstat env a g)
      else if num = SYS_getsockname then Some (dispatch_getsockname env a g)
      else if num = SYS_ioctl then Some (dispatch_ioctl env a g)
      else if num = SYS_nanosleep then Some (dispatch_nanosleep env a g)
      else if num = SYS_poll then Some (dispatch_poll env a g)
      else if num = SYS_read then Some (dispatch_read env a g)
      else if num = SYS_readv then Some (dispatch_readv env a g)
      else if num = SYS_recvfrom then Some (dispatch_recvfrom env a g)
      else if num = SYS_rt_sigaction then Some (dispatch_rt_sigaction env a g)
      else if num = SYS_rt_sigprocmask then Some (dispatch_rt_sigprocmask env a g)
      else if num = SYS_sendto then Some (dispatch_sendto env a g)
      else if num = SYS_setsockopt then Some (dispatch_setsockopt env a g)
      else if num = SYS_set_tid_address then Some (dispatch_set_tid_address env a g)
      else if num = SYS_sigaltstack then Some (dispatch_sigaltstack env a g)
      else if num = SYS_uname then Some (dispatch_uname env a g)
      else if num = SYS_write then Some (dispatch_write env a g)
      else if num = SYS_writev then Some (dispatch_writev env a g)
      else None)"

text \<open>The three groups have no number in common.\<close>

definition handler_syscall :: "('w, 'x) shim_env \<Rightarrow> usize list \<Rightarrow> ('w, 'x) guest \<Rightarrow> ('w, 'x) answer option" where
  "handler_syscall env regs g =
     (let num = regs ! 0; a = drop 1 regs
      in if num = SYS_getrandom then dispatch_getrandom env a g
         else if num = SYS_open then dispatch_open env a g
         else if num = SYS_readlink then dispatch_readlink env a g
         else case syscall_plain env num a g of
                Some r \<Rightarrow> Some r
              | None \<Rightarrow>
                (case syscall_pointer env num a g of
                   Some r \<Rightarrow> Some r
                 | None \<Rightarrow>
                   (case syscall_memory env num a g of
                      Some r \<Rightarrow> Some r
                    | None \<Rightarrow> Some (Ret (Err ENOSYS, g)))))"

end
