(* ===== verification/Dispatch_Laws.thy ===== *)
theory Dispatch_Laws
  imports Dispatch
begin

text \<open>
  What a system call of the program can do. For any host: which part of the memory of the program a
  call may change (\<open>output_area\<close>), that it never runs into undefined behaviour, the one call that
  can panic, and that it returns.
\<close>

unbundle bit_operations_syntax

section \<open>Where a call may write\<close>

definition area :: "usize \<Rightarrow> nat \<Rightarrow> nat set" where
  "area p n = {unat p ..< unat p + n}"

definition sockaddr_area :: "umem \<Rightarrow> usize \<Rightarrow> usize \<Rightarrow> nat set" where
  "sockaddr_area m addr addrlen = area addr (unat (u32_of_bytes (um_read m addrlen 4))) \<union> area addrlen 4"

text \<open>The output buffers that the arguments of a call name.\<close>

definition output_area :: "umem \<Rightarrow> usize \<Rightarrow> usize list \<Rightarrow> nat set" where
  "output_area m num a =
     (if num = SYS_accept \<or> num = SYS_accept4 \<or> num = SYS_getsockname then sockaddr_area m (a ! 1) (a ! 2)
      else if num = SYS_clock_getres \<or> num = SYS_clock_gettime \<or> num = SYS_nanosleep then area (a ! 1) 16
      else if num = SYS_epoll_wait \<or> num = SYS_epoll_pwait then area (a ! 1) (16 * unat (a ! 2))
      else if num = SYS_fstat then area (a ! 1) 144
      else if num = SYS_getrandom then area (a ! 0) (unat (a ! 1))
      else if num = SYS_ioctl then area (a ! 2) 4
      else if num = SYS_poll then area (a ! 0) (8 * unat (a ! 1))
      else if num = SYS_read \<or> num = SYS_readlink then area (a ! 1) (unat (a ! 2))
      else if num = SYS_readv
      then \<Union> ((\<lambda>i. area (fst (iovec_at m (a ! 1) i)) (unat (snd (iovec_at m (a ! 1) i)))) ` {..<unat (a ! 2)})
      else if num = SYS_recvfrom then area (a ! 1) (unat (a ! 2)) \<union> sockaddr_area m (a ! 4) (a ! 5)
      else if num = SYS_rt_sigaction then area (a ! 2) 32
      else if num = SYS_rt_sigprocmask then area (a ! 2) 128
      else if num = SYS_uname then area (a ! 0) 390
      else {})"

lemma um_write_area: "a \<notin> area p n \<Longrightarrow> length bs \<le> n \<Longrightarrow> um_write p bs m a = m a"
  by (auto simp: area_def um_write_def)

lemma um_write_exact: "a \<notin> area p (length bs) \<Longrightarrow> um_write p bs m a = m a"
  by (simp add: um_write_area)

text \<open>A state in which the stored signal actions are four words each.\<close>

definition actions_ok :: "'w handler \<Rightarrow> bool" where
  "actions_ok h \<longleftrightarrow> length (h_actions h) = 64 \<and> (\<forall>ws. Some ws \<in> set (h_actions h) \<longrightarrow> length ws = 4)"

definition guest_ok :: "('w, 'x) guest \<Rightarrow> bool" where
  "guest_ok g \<longleftrightarrow> actions_ok (g_handler g)"

text \<open>The common conclusion: the call gives up, or it returns and memory outside \<open>A\<close>, the
  shim's own state and the place of the block are as before.\<close>

definition confined :: "('w, 'x) guest \<Rightarrow> nat set \<Rightarrow> ('w, 'x) answer \<Rightarrow> bool" where
  "confined g A out \<longleftrightarrow> out = Attacked \<or>
     (\<exists>r g'. out = Ret (r, g') \<and> g_own g' = g_own g \<and> guest_ok g' \<and>
        h_addr (g_handler g') = h_addr (g_handler g) \<and>
        length (h_block (g_handler g')) = length (h_block (g_handler g)) \<and>
        (\<forall>a. a \<notin> A \<longrightarrow> g_mem g' a = g_mem g a))"

section \<open>Replies\<close>

lemma confined_refl: "guest_ok g \<Longrightarrow> confined g A (Ret (r, g))"
  by (simp add: confined_def)

lemma confined_validated:
  assumes "guest_ok g" "\<And>x. v = Ok x \<Longrightarrow> confined g A (k x)"
  shows "confined g A (validated g v k)"
  using assms by (cases v) (auto simp: validated_def confined_refl)

lemma same_frame_actions: "same_frame h h' \<Longrightarrow> actions_ok h \<Longrightarrow> actions_ok h'"
  by (simp add: same_frame_def actions_ok_def)

lemma confined_reply_with:
  assumes "guest_ok g" "out = Attacked \<or> (\<exists>r h'. out = Ret (r, h') \<and> same_frame (g_handler g) h')"
  shows "confined g A (reply_with conv g out)"
  using assms same_frame_actions [of "g_handler g"]
  by (auto simp: reply_with_def confined_def guest_ok_def same_frame_def)

lemma confined_reply_buf:
  assumes "guest_ok g"
    and "out = Attacked \<or> (\<exists>r b h'. out = Ret (r, b, h') \<and> same_frame (g_handler g) h' \<and> P b)"
    and "\<And>b a. P b \<Longrightarrow> a \<notin> A \<Longrightarrow> store b (g_mem g) a = g_mem g a"
  shows "confined g A (reply_buf conv store g out)"
  using assms same_frame_actions [of "g_handler g"]
  by (auto simp: reply_buf_def confined_def guest_ok_def same_frame_def)

text \<open>Outcomes of the methods in the form these rules want them.\<close>

lemma exec_ret: "call_laws c s_ok c_ok \<Longrightarrow>
    exec host h c = Attacked \<or> (\<exists>r h'. exec host h c = Ret (r, h') \<and> same_frame h h')"
  using exec_returns by blast

lemma exec_buf_ret: "call_laws c s_ok c_ok \<Longrightarrow>
    exec_buf host h c b = Attacked \<or> (\<exists>r b' h'. exec_buf host h c b = Ret (r, b', h') \<and> same_frame h h' \<and> True)"
  using exec_buf_returns [of c s_ok c_ok host h b] by simp

lemma execute_ret: "call_laws c s_ok c_ok \<Longrightarrow>
    execute host h c = Attacked \<or> (\<exists>r h'. execute host h c = Ret (r, h') \<and> same_frame h h')"
  using call_laws.execute_returns by blast

lemma sends_ret: "sends_safely h n out \<Longrightarrow> out = Attacked \<or> (\<exists>r h'. out = Ret (r, h') \<and> same_frame h h')"
  by (auto simp: sends_safely_def)

lemma read_post_length: "read_post buf r b \<Longrightarrow> length b = length buf"
  by (auto simp: read_post_def split: option.splits sum.splits)

lemma events_post_length: "events_post sz evs r b \<Longrightarrow> length b = length evs"
  by (auto simp: events_post_def split: option.splits sum.splits)

lemma fills_ret: "fills_safely h buf out \<Longrightarrow>
    out = Attacked \<or> (\<exists>r b h'. out = Ret (r, b, h') \<and> same_frame h h' \<and> length b = length buf)"
  by (auto simp: fills_safely_def dest: read_post_length)

lemma waits_ret: "waits_safely h sz evs out \<Longrightarrow>
    out = Attacked \<or> (\<exists>r b h'. out = Ret (r, b, h') \<and> same_frame h h' \<and> length b = length evs)"
  by (auto simp: waits_safely_def dest: events_post_length)

lemma stub_ret: "exec_buf host h (stub_call (res, b')) b = Attacked \<or>
    (\<exists>r c h'. exec_buf host h (stub_call (res, b')) b = Ret (r, c, h') \<and> same_frame h h' \<and> (c = b' \<or> c = b))"
proof -
  have "collected (stub_call (res, b')) (\<lambda>_ _ _. True) v \<Longrightarrow> v = (res, b')" for v
    by (auto simp: collected_def stub_call_def)
  then have "\<exists>r c h'. exec_buf host h (stub_call (res, b')) b = Ret (r, c, h') \<and> same_frame h h' \<and> (c = b' \<or> c = b)"
    by (intro exec_buf_collects [OF stub.call_laws_axioms]) auto
  then show ?thesis by blast
qed

section \<open>Calls without output\<close>

lemma plain_confined:
  assumes "guest_ok g" "syscall_plain env num a g = Some out"
  shows "confined g A out"
proof -
  have exit: "handler_exit host h st = Attacked \<or> (\<exists>r h'. handler_exit host h st = Ret (r, h') \<and> same_frame h h')"
    "handler_exit_group host h st = Attacked \<or> (\<exists>r h'. handler_exit_group host h st = Ret (r, h') \<and> same_frame h h')"
    for host :: "'a host" and h st
    using exec_returns [OF exit.item.call_laws_axioms, of host h st]
      exec_returns [OF exit_group.item.call_laws_axioms, of host h st]
    by (auto simp: handler_exit_def handler_exit_group_def split: sum.splits)
  show ?thesis
    using assms(2) unfolding syscall_plain_def Let_def
    by (auto simp: handler_close_def handler_dup_def handler_dup2_def handler_dup3_def handler_epoll_create1_def
        handler_eventfd2_def handler_fcntl_def handler_getegid_def handler_geteuid_def handler_getgid_def
        handler_getpid_def handler_getuid_def handler_listen_def handler_socket_def handler_sync_def
        split: if_splits
        intro!: confined_reply_with [OF assms(1)] exit
          exec_ret [OF close.item.call_laws_axioms] exec_ret [OF dup.item.call_laws_axioms]
          exec_ret [OF dup2.item.call_laws_axioms] exec_ret [OF dup3.item.call_laws_axioms]
          exec_ret [OF epoll_create1.item.call_laws_axioms] exec_ret [OF eventfd2.item.call_laws_axioms]
          exec_ret [OF fcntl_call.call_laws_axioms] exec_ret [OF listen.item.call_laws_axioms]
          exec_ret [OF socket.item.call_laws_axioms] exec_ret [OF sync.item.call_laws_axioms]
          execute_ret [OF stub.call_laws_axioms])
qed

section \<open>Socket addresses\<close>

lemma sockaddr_output_length:
  "validate_sockaddr_output pf m addr addrlen = Ok so \<Longrightarrow>
     length (so_addr so) = unat (u32_of_bytes (um_read m addrlen 4))"
  by (auto simp: validate_sockaddr_output_def rbind_Inr Let_def)

lemma store_sockaddr_area:
  assumes "x \<notin> sockaddr_area m addr addrlen" "length (so_addr so) \<le> unat (u32_of_bytes (um_read m addrlen 4))"
  shows "store_sockaddr addr addrlen so m' x = m' x"
proof -
  have "x \<notin> area addr (unat (u32_of_bytes (um_read m addrlen 4)))" "x \<notin> area addrlen 4"
    using assms(1) by (auto simp: sockaddr_area_def)
  with assms(2) show ?thesis
    by (simp add: store_sockaddr_def um_write_area [where n = 4] um_write_area [where p = addr])
qed

lemma option_sockaddr_collected:
  assumes "option_ok (sockaddr_committed_ok n) lo hi x" "in_mem m lo (hi - lo)"
    and "option_collect sockaddr_output_collect x m = Ret y" "y = Some so"
  shows "length (so_addr so) = n"
  using assms sockaddr_output_collect_ok [of n lo hi _ m]
  by (cases x) (force simp: option_collect_def obind_Ret)+

lemma accept_ret:
  "handler_accept host h sockfd addr = Attacked \<or> (\<exists>r b h'. handler_accept host h sockfd addr = Ret (r, b, h') \<and>
     same_frame h h' \<and> (\<forall>so. b = Some so \<longrightarrow> length (so_addr so) = option_len addr))"
  "handler_accept4 host h sockfd addr flags = Attacked \<or>
     (\<exists>r b h'. handler_accept4 host h sockfd addr flags = Ret (r, b, h') \<and>
     same_frame h h' \<and> (\<forall>so. b = Some so \<longrightarrow> length (so_addr so) = option_len addr))"
proof -
  have a: "\<forall>so. addr = Some so \<longrightarrow> length (so_addr so) = option_len addr"
    by (simp add: option_len_def)
  show "handler_accept host h sockfd addr = Attacked \<or> (\<exists>r b h'. handler_accept host h sockfd addr = Ret (r, b, h') \<and>
     same_frame h h' \<and> (\<forall>so. b = Some so \<longrightarrow> length (so_addr so) = option_len addr))"
    unfolding handler_accept_def
    by (rule disjI2, rule exec_buf_collects [OF accept.item.call_laws_axioms])
      (auto simp: a accept_alloc_def obind_Ret dest!: collected_item intro: option_sockaddr_collected)
  show "handler_accept4 host h sockfd addr flags = Attacked \<or>
     (\<exists>r b h'. handler_accept4 host h sockfd addr flags = Ret (r, b, h') \<and>
     same_frame h h' \<and> (\<forall>so. b = Some so \<longrightarrow> length (so_addr so) = option_len addr))"
    unfolding handler_accept4_def
    by (rule disjI2, rule exec_buf_collects [OF accept4.item.call_laws_axioms])
      (auto simp: a accept4_alloc_def obind_Ret dest!: collected_item intro: option_sockaddr_collected)
qed

lemma getsockname_ret:
  "handler_getsockname host h sockfd addr = Attacked \<or>
     (\<exists>r b h'. handler_getsockname host h sockfd addr = Ret (r, b, h') \<and>
     same_frame h h' \<and> length (so_addr b) = length (so_addr addr))"
  unfolding handler_getsockname_def
  by (rule disjI2, rule exec_buf_collects [OF getsockname.item.call_laws_axioms])
    (use sockaddr_output_collect_ok in \<open>fastforce simp: getsockname_alloc_def obind_Ret dest!: collected_item\<close>)+

lemma nullable_sockaddr:
  assumes "nullable addr (validate_sockaddr_output pf m addr addrlen) = Ok so"
    and "\<forall>x. so' = Some x \<longrightarrow> length (so_addr x) = option_len so" "a \<notin> sockaddr_area m addr addrlen"
  shows "store_option (store_sockaddr addr addrlen) so' m' a = m' a"
proof (cases so')
  case (Some x)
  have "option_len so \<le> unat (u32_of_bytes (um_read m addrlen 4))"
    using assms(1) by (auto simp: nullable_def option_len_def rmap_Inr split: if_splits dest: sockaddr_output_length)
  with Some assms(2,3) show ?thesis
    by (auto simp: store_option_def intro: store_sockaddr_area)
qed (simp add: store_option_def)

lemma accept_confined:
  assumes "guest_ok g"
  shows "confined g (sockaddr_area (g_mem g) (a ! 1) (a ! 2)) (dispatch_accept env a g)"
    and "confined g (sockaddr_area (g_mem g) (a ! 1) (a ! 2)) (dispatch_accept4 env a g)"
  unfolding dispatch_accept_def dispatch_accept4_def
  by (rule confined_validated [OF assms], rule confined_reply_buf [OF assms accept_ret(1)], erule (2) nullable_sockaddr)
    (rule confined_validated [OF assms], rule confined_reply_buf [OF assms accept_ret(2)], erule (2) nullable_sockaddr)

lemma getsockname_confined:
  assumes "guest_ok g"
  shows "confined g (sockaddr_area (g_mem g) (a ! 1) (a ! 2)) (dispatch_getsockname env a g)"
  unfolding dispatch_getsockname_def
  by (rule confined_validated [OF assms], rule confined_reply_buf [OF assms getsockname_ret])
    (simp add: sockaddr_output_length store_sockaddr_area)

section \<open>Buffers\<close>

lemma load_bytes_mut_length: "load_bytes_mut pf m p n = Ok buf \<Longrightarrow> length buf = unat n"
  by (auto simp: load_bytes_mut_def rmap_Inr)

lemma recvfrom_confined:
  assumes "guest_ok g"
  shows "confined g (area (a ! 1) (unat (a ! 2)) \<union> sockaddr_area (g_mem g) (a ! 4) (a ! 5)) (dispatch_recvfrom env a g)"
  unfolding dispatch_recvfrom_def
proof (rule confined_validated [OF assms])
  fix buf
  assume "load_bytes_mut (se_platform env) (g_mem g) (a ! 1) (a ! 2) = Ok buf"
  then have n: "length buf = unat (a ! 2)"
    by (rule load_bytes_mut_length)
  have recvfrom: "handler_recvfrom (se_host env) (g_handler g) fd buf flags so = Attacked \<or>
      (\<exists>r b h'. handler_recvfrom (se_host env) (g_handler g) fd buf flags so = Ret (r, b, h') \<and>
        same_frame (g_handler g) h' \<and> length (fst b) = unat (a ! 2) \<and> length (so_addr (snd b)) = length (so_addr so))"
    for fd flags so
    using recvfrom_safe [of "se_host env" "g_handler g" fd buf flags so] n by (auto dest: read_post_length)
  have store: "(\<lambda>(bs, so) m. store_sockaddr (a ! 4) (a ! 5) so (um_write (a ! 1) bs m)) b (g_mem g) x = g_mem g x"
    if "length (fst b) = unat (a ! 2) \<and> length (so_addr (snd b)) = length (so_addr so)"
      "x \<notin> area (a ! 1) (unat (a ! 2)) \<union> sockaddr_area (g_mem g) (a ! 4) (a ! 5)"
      "validate_sockaddr_output (se_platform env) (g_mem g) (a ! 4) (a ! 5) = Ok so" for b x so
    using that sockaddr_output_length [OF that(3)]
    by (simp add: split_beta store_sockaddr_area [of x "g_mem g"] um_write_exact)
  show "confined g (area (a ! 1) (unat (a ! 2)) \<union> sockaddr_area (g_mem g) (a ! 4) (a ! 5))
    (if a ! 4 = 0 then reply_buf id (um_write (a ! 1)) g
        (handler_recv (se_host env) (g_handler g) (as_int (a ! 0)) buf (as_int (a ! 3)))
     else validated g (validate_sockaddr_output (se_platform env) (g_mem g) (a ! 4) (a ! 5)) (\<lambda>src_addr.
        reply_buf id (\<lambda>(bs, so) m. store_sockaddr (a ! 4) (a ! 5) so (um_write (a ! 1) bs m)) g
          (handler_recvfrom (se_host env) (g_handler g) (as_int (a ! 0)) buf (as_int (a ! 3)) src_addr)))"
  proof (cases "a ! 4 = 0")
    case True
    have "confined g (area (a ! 1) (unat (a ! 2)) \<union> sockaddr_area (g_mem g) (a ! 4) (a ! 5))
      (reply_buf id (um_write (a ! 1)) g (handler_recv (se_host env) (g_handler g) (as_int (a ! 0)) buf (as_int (a ! 3))))"
      by (rule confined_reply_buf [OF assms fills_ret [OF fills_safe(2)]]) (simp add: um_write_exact n)
    with True show ?thesis by simp
  next
    case False
    have "confined g (area (a ! 1) (unat (a ! 2)) \<union> sockaddr_area (g_mem g) (a ! 4) (a ! 5))
      (validated g (validate_sockaddr_output (se_platform env) (g_mem g) (a ! 4) (a ! 5)) (\<lambda>src_addr.
        reply_buf id (\<lambda>(bs, so) m. store_sockaddr (a ! 4) (a ! 5) so (um_write (a ! 1) bs m)) g
          (handler_recvfrom (se_host env) (g_handler g) (as_int (a ! 0)) buf (as_int (a ! 3)) src_addr)))"
      by (rule confined_validated [OF assms], rule confined_reply_buf [OF assms recvfrom], erule (2) store)
    with False show ?thesis by simp
  qed
qed

lemma read_confined:
  assumes "guest_ok g"
  shows "confined g (area (a ! 1) (unat (a ! 2))) (dispatch_read env a g)"
  unfolding dispatch_read_def
  by (rule confined_validated [OF assms], rule confined_reply_buf [OF assms fills_ret [OF fills_safe(1)]])
    (simp add: um_write_exact load_bytes_mut_length)

lemma readlink_ret:
  "handler_readlink host h path buf = Attacked \<or>
     (\<exists>r b h'. handler_readlink host h path buf = Ret (r, b, h') \<and> same_frame h h' \<and> length b = length buf)"
proof -
  have "length (snd (readlink_collect path buf)) = length buf"
    by (simp add: readlink_collect_def Let_def bytes_of_string_def)
  then have "collected (stub_call (readlink_collect path buf)) (\<lambda>_ _ _. True) (Some r, b) \<Longrightarrow> length b = length buf" for r b
    by (auto simp: collected_def stub_call_def)
  then show ?thesis
    unfolding handler_readlink_def
    by (intro exec_checked_buf_returns [OF stub.call_laws_axioms, where P = "\<lambda>r b. length b = length buf"]) auto
qed

lemma readlink_confined:
  assumes "guest_ok g" "dispatch_readlink env a g = Some out"
  shows "confined g (area (a ! 1) (unat (a ! 2))) out"
  using assms(2)
  by (auto simp: dispatch_readlink_def um_write_exact load_bytes_mut_length
      intro!: confined_validated [OF assms(1)] confined_reply_buf [OF assms(1) readlink_ret])

lemma getrandom_collect_length:
  assumes "getrandom_collect rdrand t buf flags = Some (r, bs, u)"
  shows "length bs = length buf"
proof -
  have "length bs' = length buf" if "getrandom_chunks rdrand flags 0 t (chunks8 buf) = Some (r', bs', u')" for r' bs' u'
    using getrandom_chunks_length [OF that] chunks8_short by (metis concat_chunks8)
  then show ?thesis
    using assms by (auto simp: getrandom_collect_def split: if_splits option.splits)
qed

lemma getrandom_confined:
  assumes "guest_ok g" "dispatch_getrandom env a g = Some out"
  shows "confined g (area (a ! 0) (unat (a ! 1))) out"
proof (cases "load_bytes_mut (se_platform env) (g_mem g) (a ! 0) (a ! 1)")
  case (Inl e)
  then show ?thesis
    using assms by (auto simp: dispatch_getrandom_def confined_refl)
next
  case (Inr buf)
  then have n: "length buf = unat (a ! 1)"
    by (rule load_bytes_mut_length)
  from assms(2) Inr obtain r bs t where c: "getrandom_collect (se_rdrand env) 0 buf (as_int (a ! 2)) = Some (r, bs, t)"
    and out: "out = reply_buf id (um_write (a ! 0)) g (exec_buf (se_host env) (g_handler g) (stub_call (r, bs)) buf)"
    by (auto simp: dispatch_getrandom_def handler_getrandom_def)
  have "length bs = length buf"
    by (rule getrandom_collect_length [OF c])
  then show ?thesis
    unfolding out using n
    by (intro confined_reply_buf [OF assms(1) stub_ret]) (auto simp: um_write_exact)
qed

lemma store_iovs_outside:
  "map length bss = map (unat \<circ> snd) iovs \<Longrightarrow> (\<And>p n. (p, n) \<in> set iovs \<Longrightarrow> x \<notin> area p (unat n)) \<Longrightarrow>
     store_iovs iovs bss m x = m x"
  by (induction iovs bss m rule: store_iovs.induct) (auto simp: um_write_exact)

lemma readv_post_length: "readv_post iovs r iovs' \<Longrightarrow> map length iovs' = map length iovs"
  by (auto simp: readv_post_def split: option.splits sum.splits)

lemma readv_confined:
  assumes "guest_ok g"
  shows "confined g (\<Union> ((\<lambda>i. area (fst (iovec_at (g_mem g) (a ! 1) i)) (unat (snd (iovec_at (g_mem g) (a ! 1) i))))
    ` {..<unat (a ! 2)})) (dispatch_readv env a g)"
  unfolding dispatch_readv_def
proof (rule confined_validated [OF assms])
  fix iovs
  assume "validate_iovec_slice_mut (se_platform env) (g_mem g) (a ! 1) (a ! 2) = Ok iovs"
  then have iovs: "iovs = map (iovec_at (g_mem g) (a ! 1)) [0..<unat (a ! 2)]"
    by (auto simp: validate_iovec_slice_mut_def rbind_Inr Let_def)
  let ?bss = "load_iovs (g_mem g) iovs"
  have l: "map length ?bss = map (unat \<circ> snd) iovs"
    by (auto simp: load_iovs_def)
  have ret: "handler_readv (se_host env) (g_handler g) fd ?bss = Attacked \<or>
      (\<exists>r b h'. handler_readv (se_host env) (g_handler g) fd ?bss = Ret (r, b, h') \<and>
        same_frame (g_handler g) h' \<and> map length b = map (unat \<circ> snd) iovs)" for fd
    using readv_safe [of "se_host env" "g_handler g" fd ?bss]
    by (elim disjE exE conjE) (simp_all add: l readv_post_length)
  show "confined g (\<Union> ((\<lambda>i. area (fst (iovec_at (g_mem g) (a ! 1) i)) (unat (snd (iovec_at (g_mem g) (a ! 1) i))))
    ` {..<unat (a ! 2)})) (reply_buf id (store_iovs iovs) g (handler_readv (se_host env) (g_handler g) (as_int (a ! 0)) ?bss))"
    by (rule confined_reply_buf [OF assms ret], erule store_iovs_outside)
      (auto simp: iovs, metis fst_conv lessThan_iff snd_conv)
qed

section \<open>Structures\<close>

lemma timespec_outside: "x \<notin> area p 16 \<Longrightarrow> store_timespec p t m x = m x"
  "x \<notin> area p 16 \<Longrightarrow> store_option (store_timespec p) y m x = m x"
  by (auto simp: store_timespec_def timespec_bytes_def um_write_exact store_option_def split: option.splits)

lemma clock_confined:
  assumes "guest_ok g"
  shows "confined g (area (a ! 1) 16) (dispatch_clock_getres env a g)"
    and "confined g (area (a ! 1) 16) (dispatch_clock_gettime env a g)"
    and "confined g (area (a ! 1) 16) (dispatch_nanosleep env a g)"
  unfolding dispatch_clock_getres_def dispatch_clock_gettime_def dispatch_nanosleep_def
    handler_clock_getres_def handler_clock_gettime_def handler_nanosleep_def
  by (intro confined_validated [OF assms] confined_reply_buf [OF assms exec_buf_ret [OF clock_getres.item.call_laws_axioms]]
      confined_reply_buf [OF assms exec_buf_ret [OF clock_gettime.item.call_laws_axioms]]
      confined_reply_buf [OF assms exec_buf_ret [OF nanosleep.item.call_laws_axioms]] timespec_outside; assumption)+

lemma length_load_array [simp]: "length (load_array f sz m p n) = unat n"
  by (simp add: load_array_def Let_def)

lemma epoll_confined:
  assumes "guest_ok g"
  shows "confined g (area (a ! 1) (16 * unat (a ! 2))) (dispatch_epoll_wait env a g)"
    and "confined g (area (a ! 1) (16 * unat (a ! 2))) (dispatch_epoll_pwait env a g)"
    and "confined g (area (a ! 0) (8 * unat (a ! 1))) (dispatch_poll env a g)"
proof -
  show "confined g (area (a ! 1) (16 * unat (a ! 2))) (dispatch_epoll_wait env a g)"
    unfolding dispatch_epoll_wait_def
    by (intro confined_validated [OF assms] confined_reply_buf [OF assms waits_ret [OF waits_safe(1)]]) (simp add: um_write_exact)
  show "confined g (area (a ! 1) (16 * unat (a ! 2))) (dispatch_epoll_pwait env a g)"
    unfolding dispatch_epoll_pwait_def Let_def
    by (auto intro!: confined_validated [OF assms] confined_reply_buf [OF assms waits_ret [OF waits_safe(1)]]
        confined_reply_buf [OF assms waits_ret [OF waits_safe(2)]] simp: um_write_exact)
  show "confined g (area (a ! 0) (8 * unat (a ! 1))) (dispatch_poll env a g)"
    unfolding dispatch_poll_def
    by (intro confined_validated [OF assms] confined_reply_buf [OF assms waits_ret [OF waits_safe(3)]]) (simp add: um_write_exact)
qed

lemma fstat_confined:
  assumes "guest_ok g"
  shows "confined g (area (a ! 1) 144) (dispatch_fstat env a g)"
  unfolding dispatch_fstat_def Let_def
proof (rule confined_validated [OF assms])
  let ?st = "load_stat (g_mem g) (a ! 1)"
  obtain r st h' where f: "handler_fstat (se_host env) (g_handler g) (as_int (a ! 0)) ?st = Ret (r, st, h')"
    "same_frame (g_handler g) h'"
    using exec_buf_returns [OF stub.call_laws_axioms, of "se_host env" "g_handler g" "fstat_collect (as_int (a ! 0)) ?st" ?st]
    unfolding handler_fstat_def by auto
  then show "confined g (area (a ! 1) 144) (obind (handler_fstat (se_host env) (g_handler g) (as_int (a ! 0)) ?st)
      (\<lambda>(r, st, h). Ret (rmap (\<lambda>_. (0, 0)) r, g\<lparr>g_handler := h,
        g_mem := if r = Ok () then um_write (a ! 1) (stat_bytes st) (g_mem g) else g_mem g\<rparr>)))"
    using assms same_frame_actions [OF f(2)]
    by (auto simp: confined_def guest_ok_def same_frame_def stat_bytes_def um_write_exact)
qed

lemma ioctl_collected:
  assumes "collected (ioctl_call fd request argp) (maybe_ok (ioctl_stage fd request argp)
      (committed_call_ok (committed_alloc_ok syscall_kind (arg_committed_ok (arg_len argp))))) (r, Some bs)"
  shows "length bs = arg_len argp"
proof -
  from assms obtain lo hi x m where x: "maybe_ok (ioctl_stage fd request argp)
      (committed_call_ok (committed_alloc_ok syscall_kind (arg_committed_ok (arg_len argp)))) lo hi x"
      "in_mem m lo (hi - lo)" "c_collect (ioctl_call fd request argp) x m = Ret (r, Some bs)"
    by (auto simp: collected_def)
  show ?thesis
  proof (cases x)
    case (MAlloc y)
    then have "collected (syscall_call (alloc_ioctl fd request argp))
        (committed_call_ok (committed_alloc_ok syscall_kind (arg_committed_ok (arg_len argp)))) (r, Some bs)"
      using x by (auto simp: collected_def ioctl_call_def maybe_alloc_call_def item_call_def syscall_kind_def)
    then show ?thesis
      using arg_collect_ok by (fastforce simp: alloc_ioctl_def obind_Ret dest!: collected_item)
  next
    case (MStub v)
    then show ?thesis
      using x by (auto simp: ioctl_call_def maybe_alloc_call_def ioctl_stage_def arg_len_def split: if_splits)
  qed
qed

lemma ioctl_ret:
  "handler_ioctl host h fd request argp = Attacked \<or>
     (\<exists>r b h'. handler_ioctl host h fd request argp = Ret (r, b, h') \<and> same_frame h h' \<and>
       (\<forall>bs. b = Some bs \<longrightarrow> length bs = arg_len argp))"
  unfolding handler_ioctl_def
  by (rule disjI2, rule exec_buf_collects [OF ioctl_call.call_laws_axioms])
    (auto simp: arg_len_def dest: ioctl_collected [unfolded arg_len_def])

lemma ioctl_confined:
  assumes "guest_ok g"
  shows "confined g (area (a ! 2) 4) (dispatch_ioctl env a g)"
  unfolding dispatch_ioctl_def Let_def
proof (rule confined_validated [OF assms], rule confined_reply_buf [OF assms ioctl_ret])
  fix argp b :: "byte list option" and x
  assume "(if a ! 2 = 0 then Ok None
      else if as_int (a ! 1) = FIONBIO \<or> as_int (a ! 1) = FIONREAD
      then rmap (\<lambda>_. Some (um_read (g_mem g) (a ! 2) 4)) (pf_validate_mut (se_platform env) u32_layout (a ! 2))
      else Err ENOTSUP) = Ok argp"
  then have "arg_len argp \<le> 4"
    by (auto simp: arg_len_def rmap_Inr split: if_splits)
  moreover assume "\<forall>bs. b = Some bs \<longrightarrow> length bs = arg_len argp" "x \<notin> area (a ! 2) 4"
  ultimately show "store_option (um_write (a ! 2)) b (g_mem g) x = g_mem g x"
    by (cases b) (auto simp: store_option_def intro: um_write_area)
qed

lemma sigaction_frame:
  assumes "guest_ok g" "length act = 4"
  shows "guest_ok (g\<lparr>g_handler := (g_handler g)\<lparr>h_actions := (h_actions (g_handler g))[i := Some act]\<rparr>\<rparr>)"
  using assms set_update_subset_insert [of "h_actions (g_handler g)" i "Some act"]
  by (auto simp: guest_ok_def actions_ok_def)

text \<open>The two uses of \<^verbatim>\<open>rt_sigaction\<close>.\<close>

lemma handler_rt_sigaction_cases:
  assumes "actions_ok h"
  obtains (panic) "handler_rt_sigaction h signum act oldact sz = Panic" "sint signum < 0"
  | (refused) "handler_rt_sigaction h signum act oldact sz = Ret (Err EINVAL, oldact, h)"
  | (ok) i where "handler_rt_sigaction h signum act oldact sz =
      Ret (Ok (), (case oldact of None \<Rightarrow> None | Some _ \<Rightarrow> Some (h_actions h ! i)),
        (case act of None \<Rightarrow> h | Some a \<Rightarrow> h\<lparr>h_actions := (h_actions h)[i := Some a]\<rparr>))"
      "oldact \<noteq> None \<longrightarrow> i < length (h_actions h)"
proof (cases "sint SIGRTMAX \<le> sint signum \<or> sz \<noteq> 8")
  case True
  then show ?thesis by (intro refused) (simp add: handler_rt_sigaction_def)
next
  case False
  show ?thesis
  proof (cases "(oldact \<noteq> None \<or> act \<noteq> None) \<and> length (h_actions h) \<le> unat (as_usize signum)")
    case True
    have "sint signum < 0"
    proof (rule ccontr)
      assume "\<not> sint signum < 0"
      with False unat_as_usize [of signum] have "unat (as_usize signum) < 64"
        by (auto simp: SIGRTMAX_def)
      with True assms show False by (simp add: actions_ok_def)
    qed
    with True False show ?thesis by (intro panic) (simp_all add: handler_rt_sigaction_def Let_def)
  next
    case f: False
    with False show ?thesis
      by (intro ok [of "unat (as_usize signum)"]) (auto simp: handler_rt_sigaction_def Let_def)
  qed
qed

lemma rt_sigaction_confined:
  assumes "guest_ok g"
  shows "dispatch_rt_sigaction env a g = Panic \<and> sint (as_int (a ! 0)) < 0 \<or>
    confined g (area (a ! 2) 32) (dispatch_rt_sigaction env a g)"
proof (cases "nullable (a ! 1) (rmap (\<lambda>_. load_sigaction (g_mem g) (a ! 1))
    (pf_validate (se_platform env) (array_of 4 u64_layout) (a ! 1)))")
  case (Inl e)
  then show ?thesis
    using assms by (simp add: dispatch_rt_sigaction_def validated_def confined_refl)
next
  case (Inr act)
  have act: "\<forall>ws. act = Some ws \<longrightarrow> length ws = 4"
    using Inr by (auto simp: nullable_def rmap_Inr load_sigaction_def length_words_of_bytes split: if_splits)
  have h: "actions_ok (g_handler g)"
    using assms by (simp add: guest_ok_def)
  have upd: "guest_ok (g\<lparr>g_handler := case act of None \<Rightarrow> g_handler g
      | Some ws \<Rightarrow> (g_handler g)\<lparr>h_actions := (h_actions (g_handler g))[i := Some ws]\<rparr>\<rparr>)" for i
    using assms act sigaction_frame [OF assms] by (cases act) auto
  show ?thesis
  proof (cases "a ! 2 = 0")
    case True
    show ?thesis
      using h
      by (rule handler_rt_sigaction_cases [of "g_handler g" "as_int (a ! 0)" act None "a ! 3"])
        (use Inr True assms upd in \<open>auto simp: dispatch_rt_sigaction_def validated_def reply_with_def confined_def
          guest_ok_def split: option.splits\<close>)
  next
    case False
    have old: "um_write (a ! 2) (bytes_of_words ws) m x = m x"
      if "i < length (h_actions (g_handler g))" "h_actions (g_handler g) ! i = Some ws" "x \<notin> area (a ! 2) 32" for i ws m x
      using that h nth_mem [OF that(1)] by (intro um_write_exact) (simp add: actions_ok_def)
    show ?thesis
      using h
      by (rule handler_rt_sigaction_cases [of "g_handler g" "as_int (a ! 0)" act "Some None" "a ! 3"])
        (use Inr False assms upd in \<open>auto simp: dispatch_rt_sigaction_def validated_def reply_buf_def confined_def
          guest_ok_def intro: old split: option.splits sum.splits\<close>)
  qed
qed

lemma sigset_outside: "x \<notin> area p 128 \<Longrightarrow> store_option (store_sigset p) y m x = m x"
  by (auto simp: store_sigset_def um_write_exact store_option_def sigset_bytes_def split: option.splits)

lemma signal_confined:
  assumes "guest_ok g"
  shows "confined g (area (a ! 2) 128) (dispatch_rt_sigprocmask env a g)"
    and "confined g {} (dispatch_sigaltstack env a g)"
proof -
  show "confined g (area (a ! 2) 128) (dispatch_rt_sigprocmask env a g)"
    unfolding dispatch_rt_sigprocmask_def handler_rt_sigprocmask_def
    by (intro confined_validated [OF assms] confined_reply_buf [OF assms exec_buf_ret [OF stub.call_laws_axioms]]
        sigset_outside)
  have "obind (handler_sigaltstack host h ss old) (\<lambda>(r, _, h). Ret (r, h)) = Attacked \<or>
      (\<exists>r h'. obind (handler_sigaltstack host h ss old) (\<lambda>(r, _, h). Ret (r, h)) = Ret (r, h') \<and> same_frame h h')"
    for host :: "'w host" and h ss old
    using exec_buf_returns [OF stub.call_laws_axioms, of host h "sigaltstack_collect ss old" old]
    by (auto simp: handler_sigaltstack_def)
  then show "confined g {} (dispatch_sigaltstack env a g)"
    unfolding dispatch_sigaltstack_def
    by (intro confined_validated [OF assms] confined_reply_with [OF assms])
qed

section \<open>Calls with inputs only\<close>

lemma input_confined:
  assumes "guest_ok g"
  shows "confined g A (dispatch_bind env a g)" "confined g A (dispatch_connect env a g)"
    and "confined g A (dispatch_epoll_ctl env a g)" "confined g A (dispatch_sendto env a g)"
    and "confined g A (dispatch_setsockopt env a g)" "confined g A (dispatch_set_tid_address env a g)"
    and "confined g A (dispatch_write env a g)" "confined g A (dispatch_writev env a g)"
  unfolding dispatch_bind_def dispatch_connect_def dispatch_epoll_ctl_def dispatch_sendto_def
    dispatch_setsockopt_def dispatch_set_tid_address_def dispatch_write_def dispatch_writev_def
    handler_bind_def handler_connect_def handler_epoll_ctl_def handler_setsockopt_def handler_set_tid_address_def
  by (auto intro!: confined_validated [OF assms] confined_reply_with [OF assms]
      exec_ret [OF bind.item.call_laws_axioms] exec_ret [OF connect.item.call_laws_axioms]
      exec_ret [OF epoll_ctl.item.call_laws_axioms] exec_ret [OF setsockopt.item.call_laws_axioms]
      execute_ret [OF stub.call_laws_axioms] sends_ret [OF sends_safe(1)] sends_ret [OF sends_safe(2)]
      sends_ret [OF sends_safe(3)] sends_ret [OF sends_safe(4)])

lemma open_confined:
  assumes "guest_ok g" "dispatch_open env a g = Some out"
  shows "confined g A out"
  using assms(2)
  by (auto simp: dispatch_open_def handler_open_def intro!: confined_validated [OF assms(1)]
      confined_reply_with [OF assms(1)] exec_ret [OF open_call.call_laws_axioms])

lemma uname_confined:
  assumes "guest_ok g"
  shows "confined g (area (a ! 0) 390) (dispatch_uname env a g)"
proof -
  have l: "length (utsname_bytes (load_utsname (g_mem g) (a ! 0))) = 390"
    "length (utsname_bytes (snd (uname_collect (load_utsname (g_mem g) (a ! 0))))) = 390"
    by (simp_all add: utsname_bytes_def load_utsname_def utsname_of_bytes_def Let_def uname_collect_def uname_fill_def)
  obtain r u where u: "uname_collect (load_utsname (g_mem g) (a ! 0)) = (r, u)"
    by fastforce
  show ?thesis
    unfolding dispatch_uname_def handler_uname_def u
    by (rule confined_validated [OF assms], rule confined_reply_buf [OF assms stub_ret])
      (use l u in \<open>auto simp: um_write_exact\<close>)
qed

section \<open>All calls\<close>

definition memory_calls :: "usize list" where
  "memory_calls = [SYS_arch_prctl, SYS_brk, SYS_madvise, SYS_mmap, SYS_mprotect, SYS_mremap, SYS_munmap]"

definition supported_calls :: "usize list" where
  "supported_calls = memory_calls @
     [SYS_accept, SYS_accept4, SYS_bind, SYS_clock_getres, SYS_clock_gettime, SYS_close, SYS_connect, SYS_dup,
      SYS_dup2, SYS_dup3, SYS_epoll_create1, SYS_epoll_ctl, SYS_epoll_pwait, SYS_epoll_wait, SYS_eventfd2,
      SYS_exit, SYS_exit_group, SYS_fcntl, SYS_fstat, SYS_getegid, SYS_geteuid, SYS_getgid, SYS_getpid,
      SYS_getrandom, SYS_getsockname, SYS_getuid, SYS_ioctl, SYS_listen, SYS_nanosleep, SYS_open, SYS_poll,
      SYS_read, SYS_readlink, SYS_readv, SYS_recvfrom, SYS_rt_sigaction, SYS_rt_sigprocmask, SYS_sendto,
      SYS_setsockopt, SYS_set_tid_address, SYS_sigaltstack, SYS_socket, SYS_sync, SYS_uname, SYS_write, SYS_writev]"

lemma pointer_confined:
  assumes "guest_ok g" "syscall_pointer env num a g = Some out"
  shows "confined g (output_area (g_mem g) num a) out \<or>
    out = Panic \<and> num = SYS_rt_sigaction \<and> sint (as_int (a ! 0)) < 0"
  using assms(2) accept_confined [OF assms(1)] getsockname_confined [OF assms(1)] recvfrom_confined [OF assms(1)]
    read_confined [OF assms(1)] readv_confined [OF assms(1)] clock_confined [OF assms(1)] epoll_confined [OF assms(1)]
    fstat_confined [OF assms(1)] ioctl_confined [OF assms(1)] rt_sigaction_confined [OF assms(1), of env a]
    signal_confined [OF assms(1)] input_confined [OF assms(1)] uname_confined [OF assms(1)]
  unfolding syscall_pointer_def
  by (auto simp: output_area_def libc_consts split: if_splits)

section \<open>Properties\<close>

lemma call_confined:
  assumes "guest_ok g" "handler_syscall env (num # a) g = Some out" "num \<notin> set memory_calls"
  shows "confined g (output_area (g_mem g) num a) out \<or>
    out = Panic \<and> num = SYS_rt_sigaction \<and> sint (as_int (a ! 0)) < 0"
proof -
  have "syscall_memory env num a g = None"
    using assms(3) by (simp add: syscall_memory_def memory_calls_def Let_def)
  with assms(2) consider (random) "num = SYS_getrandom" "dispatch_getrandom env a g = Some out"
    | (path) "num = SYS_open" "dispatch_open env a g = Some out"
    | (link) "num = SYS_readlink" "dispatch_readlink env a g = Some out"
    | (plain) "syscall_plain env num a g = Some out"
    | (pointer) "syscall_pointer env num a g = Some out" | (unknown) "out = Ret (Err ENOSYS, g)"
    by (auto simp: handler_syscall_def Let_def split: if_splits option.splits)
  then show ?thesis
  proof cases
    case random
    with getrandom_confined [OF assms(1)] show ?thesis by (auto simp: output_area_def libc_consts)
  next
    case path
    with open_confined [OF assms(1)] show ?thesis by blast
  next
    case link
    with readlink_confined [OF assms(1)] show ?thesis by (auto simp: output_area_def libc_consts)
  next
    case plain
    with plain_confined [OF assms(1)] show ?thesis by blast
  next
    case pointer
    with pointer_confined [OF assms(1)] show ?thesis by blast
  next
    case unknown
    with assms(1) show ?thesis by (simp add: confined_refl)
  qed
qed


text \<open>A program that reads into a buffer, and a shim whose own operations do nothing.\<close>

definition idle_ops :: "('w, 'x) shim_ops" where
  "idle_ops =
     \<lparr>sh_arch_prctl = (\<lambda>_ _ g. Ret (Err ENOSYS, g)), sh_brk = (\<lambda>_ g. Ret (Err ENOSYS, g)),
      sh_madvise = (\<lambda>_ _ _ g. Ret (Err ENOSYS, g)), sh_mmap = (\<lambda>_ _ _ _ _ _ g. Ret (Err ENOSYS, g)),
      sh_mprotect = (\<lambda>_ _ _ g. Ret (Err ENOSYS, g)), sh_munmap = (\<lambda>_ _ g. Ret (Err ENOSYS, g))\<rparr>"

definition example_env :: "(unit, unit) shim_env" where
  "example_env =
     \<lparr>se_platform = UserMemScope, se_host = (\<lambda>w ws. (Ok (), \<lambda>i. of_nat i, w)), se_rdrand = (\<lambda>t. Some 7), se_ops = idle_ops\<rparr>"

definition example_guest :: "(unit, unit) guest" where
  "example_guest =
     \<lparr>g_mem = (\<lambda>a. of_nat a), g_handler = \<lparr>h_addr = 4096, h_block = replicate 32 0,
        h_actions = thread_local_storage_new, h_world = ()\<rparr>, g_own = ()\<rparr>"

lemma example_guest_ok: "guest_ok example_guest"
  by (simp add: guest_ok_def actions_ok_def example_guest_def thread_local_storage_new_def SIGRTMAX_def)


lemma call_returns:
  assumes "se_platform env = UserMemScope" "\<And>t. \<exists>t' \<ge> t. se_rdrand env t' \<noteq> None"
  shows "\<exists>out. handler_syscall env regs g = Some out"
proof -
  have str: "\<exists>r. validate_str UserMemScope m p = Some r" for m p
    using str_end_scope_total by (simp add: validate_str_def)
  have rnd: "\<exists>x. getrandom_collect (se_rdrand env) 0 buf flags = Some x" for buf flags
    using getrandom_chunks_ends [of "se_rdrand env" flags 0 0 "chunks8 buf", OF assms(2)]
    by (auto simp: getrandom_collect_def split: option.splits)
  have "\<exists>out. dispatch_getrandom env a g = Some out" for a
    using rnd by (auto simp: dispatch_getrandom_def handler_getrandom_def split: sum.splits)
  moreover have "\<exists>out. dispatch_open env a g = Some out" "\<exists>out. dispatch_readlink env a g = Some out" for a
    using str by (auto simp: dispatch_open_def dispatch_readlink_def assms(1))
  ultimately show ?thesis
    by (auto simp: handler_syscall_def Let_def split: option.splits)
qed



text \<open>A number that is none of the supported system calls is refused with \<^verbatim>\<open>ENOSYS\<close>, and nothing
  changes: not the memory, not the block, not the state of the shim.\<close>

theorem syscall_unsupported:
  assumes "num \<notin> set supported_calls"
  shows "handler_syscall env (num # a) g = Some (Ret (Err ENOSYS, g))"
  using assms
  by (simp add: supported_calls_def memory_calls_def handler_syscall_def syscall_plain_def syscall_pointer_def
      syscall_memory_def Let_def)

theorem syscall_unsupported_witness:
  "handler_syscall example_env [57, 0, 0, 0, 0, 0, 0] example_guest = Some (Ret (Err ENOSYS, example_guest))"
  by (rule syscall_unsupported) (simp add: supported_calls_def memory_calls_def libc_consts)

end
