(* ===== verification/Sgx_Shim.thy ===== *)
theory Sgx_Shim
  imports Sgx_Memory Dispatch_Laws
begin

text \<open>
  The SGX shim (\<^verbatim>\<open>crates/shim-sgx/src\<close>): the required methods of the request handler put
  together, the two calls the shim adds (\<^verbatim>\<open>get_key\<close>, \<^verbatim>\<open>get_attestation\<close>), the exception
  handler (\<^verbatim>\<open>handler/mod.rs\<close>), key requests (\<^verbatim>\<open>handler/key.rs\<close>) and the entry
  check of \<^verbatim>\<open>main.rs\<close>.

  The own state of the shim is its heap and the page cache; memory of the program is part of
  what the page instructions work on. The instructions \<^verbatim>\<open>EGETKEY\<close> and \<^verbatim>\<open>EREPORT\<close> are
  parameters. The build without the features \<^verbatim>\<open>dbg\<close> and \<^verbatim>\<open>gdb\<close> is modelled.

  Shown: the state of a keep that handles any sequence of exceptions stays well-formed, no page is
  ever writable and executable; what an exception does to the registers; the sizes
  \<^verbatim>\<open>get_key\<close> insists on; that growing a mapping with \<^verbatim>\<open>mremap\<close> cannot succeed.
\<close>

unbundle bit_operations_syntax

section \<open>The handler of the shim\<close>

type_synonym ('l, 'q) sgx_own = "'l heap \<times> 'q"

definition keep_of :: "('w, ('l, 'q) sgx_own) guest \<Rightarrow> ('w, 'l, umem \<times> 'q) keep" where
  "keep_of g = \<lparr>k_handler = g_handler g, k_heap = fst (g_own g), k_epc = (g_mem g, snd (g_own g))\<rparr>"

definition guest_of :: "('w, 'l, umem \<times> 'q) keep \<Rightarrow> ('w, ('l, 'q) sgx_own) guest" where
  "guest_of k = \<lparr>g_mem = fst (k_epc k), g_handler = k_handler k, g_own = (k_heap k, snd (k_epc k))\<rparr>"

definition on_keep ::
  "(('w, 'l, umem \<times> 'q) keep \<Rightarrow> ('r result \<times> ('w, 'l, umem \<times> 'q) keep) outcome) \<Rightarrow>
     ('w, ('l, 'q) sgx_own) guest \<Rightarrow> ('w, ('l, 'q) sgx_own, 'r) reply" where
  "on_keep f g = obind (f (keep_of g)) (\<lambda>(r, k). Ret (r, guest_of k))"

definition sgx_ops ::
  "('w, 'l, 'a, umem \<times> 'q) sgx_env \<Rightarrow> ('w, ('l, 'q) sgx_own) shim_ops" where
  "sgx_ops env =
     \<lparr>sh_arch_prctl = (\<lambda>code addr g. Ret (Err ENOSYS, g)),
      sh_brk = (\<lambda>addr. on_keep (sgx_brk env addr)),
      sh_madvise = (\<lambda>addr len advice. on_keep (sgx_madvise addr len advice)),
      sh_mmap = (\<lambda>addr len prot flags fd offset. on_keep (sgx_mmap env addr len prot flags fd offset)),
      sh_mprotect = (\<lambda>addr len prot. on_keep (sgx_mprotect env addr len prot)),
      sh_munmap = (\<lambda>addr len. on_keep (sgx_munmap env addr len))\<rparr>"

section \<open>Keys\<close>

datatype key_name = EinittokenKey | ProvisionKey | ProvisionSealKey | ReportKey | SealKey

definition MRSIGNER :: "16 word" where
  "MRSIGNER = push_bit 1 1"

record key_request =
  kr_name :: key_name
  kr_policy :: "16 word"
  kr_isvsvn :: "16 word"
  kr_cet_attr_mask :: byte
  kr_cpusvn :: "byte list"
  kr_attribute_mask :: "byte list"
  kr_keyid :: "byte list"
  kr_misc_mask :: "byte list"
  kr_config_svn :: "16 word"

definition key_request_default :: key_request where
  "key_request_default =
     \<lparr>kr_name = EinittokenKey, kr_policy = MRSIGNER, kr_isvsvn = 0, kr_cet_attr_mask = 0,
      kr_cpusvn = replicate 16 0, kr_attribute_mask = replicate 16 0, kr_keyid = replicate 32 0,
      kr_misc_mask = replicate 4 0, kr_config_svn = 0\<rparr>"

definition SGX_KEY_LEN :: nat where
  "SGX_KEY_LEN = 16"

text \<open>The instruction gives the value of \<^verbatim>\<open>rax\<close> and the response it has written.\<close>

type_synonym egetkey = "key_request \<Rightarrow> 64 word \<times> byte_array"

definition enclu_egetkey :: "egetkey \<Rightarrow> key_request \<Rightarrow> 64 word + byte list" where
  "enclu_egetkey insn req =
     (let (rax, response) = insn req in if rax = 0 then Inr (array_bytes SGX_KEY_LEN response) else Inl rax)"

section \<open>The calls of the shim\<close>

text \<open>\<open>si_ereport\<close> makes a report from a target information and 64 bytes of data.\<close>

record sgx_insns =
  si_egetkey :: egetkey
  si_ereport :: "byte list \<Rightarrow> byte list \<Rightarrow> byte_array"
  si_disable_attestation :: bool

definition isize_max :: usize where
  "isize_max = of_nat (isize_limit - 1)"

definition sgx_get_key ::
  "sgx_insns \<Rightarrow> platform \<Rightarrow> usize \<Rightarrow> usize \<Rightarrow> ('w, 'x) guest \<Rightarrow> usize result \<times> ('w, 'x) guest" where
  "sgx_get_key insns pf buf buf_len g =
     (if buf = 0 then (Ok (of_nat SGX_KEY_LEN), g)
      else if isize_max < buf_len then (Err EINVAL, g)
      else if buf_len < of_nat SGX_KEY_LEN then (Err EMSGSIZE, g)
      else case pf_validate_slice_mut pf u8_layout buf buf_len of
             Inl e \<Rightarrow> (Err e, g)
           | Inr _ \<Rightarrow>
             let key_request = key_request_default\<lparr>kr_name := SealKey, kr_policy := MRSIGNER, kr_isvsvn := 0\<rparr>
             in case enclu_egetkey (si_egetkey insns) key_request of
                  Inl _ \<Rightarrow> (Err EIO, g)
                | Inr key \<Rightarrow> (Ok (of_nat SGX_KEY_LEN), g\<lparr>g_mem := um_write buf key (g_mem g)\<rparr>))"

definition SGX_TECH :: usize where
  "SGX_TECH = 2"

definition sgx_get_attestation ::
  "sgx_insns \<Rightarrow> platform \<Rightarrow> 'w host \<Rightarrow> usize \<Rightarrow> usize \<Rightarrow> usize \<Rightarrow> usize \<Rightarrow> ('w, 'x) guest \<Rightarrow> ('w, 'x) answer" where
  "sgx_get_attestation insns pf host hash hash_len buf buf_len g =
     (if si_disable_attestation insns then Ret (Ok (0, 0), g)
      else obind (handler_get_sgx_target_info host (g_handler g) (\<lambda>_. 0)) (\<lambda>(r, target_info, h).
        let g = g\<lparr>g_handler := h\<rparr> in validated g r (\<lambda>_.
        obind (handler_get_sgx_quote_size host (g_handler g)) (\<lambda>(r, h).
        let g = g\<lparr>g_handler := h\<rparr> in validated g r (\<lambda>quote_size.
          if buf = 0 then Ret (Ok (quote_size, SGX_TECH), g)
          else if isize_max < buf_len then Ret (Err EINVAL, g)
          else if buf_len < quote_size then Ret (Err EMSGSIZE, g)
          else if hash_len \<noteq> 64 then Ret (Err EINVAL, g)
          else validated g (load_bytes pf (g_mem g) hash hash_len) (\<lambda>data.
               validated g (load_bytes_mut pf (g_mem g) buf buf_len) (\<lambda>quote.
                 obind (handler_get_sgx_quote host (g_handler g) (si_ereport insns target_info data) quote)
                   (\<lambda>(r, quote, h). Ret (rmap (\<lambda>len. (len, SGX_TECH)) r,
                      g\<lparr>g_handler := h, g_mem := um_write buf quote (g_mem g)\<rparr>)))))))))"

section \<open>Exceptions\<close>

record gpr =
  gpr_rax :: "64 word"
  gpr_rbx :: "64 word"
  gpr_rcx :: "64 word"
  gpr_rdx :: "64 word"
  gpr_rsi :: "64 word"
  gpr_rdi :: "64 word"
  gpr_r8 :: "64 word"
  gpr_r9 :: "64 word"
  gpr_r10 :: "64 word"
  gpr_rip :: "64 word"

datatype vector = InvalidOpcode | OtherVector nat

record ('w, 'x) enclave =
  en_vector :: "vector option"
  en_gpr :: gpr
  en_guest :: "('w, 'x) guest"

record ('w, 'l, 'a, 'q) sgx_shim_env =
  sx_memory :: "('w, 'l, 'a, umem \<times> 'q) sgx_env"
  sx_insns :: sgx_insns
  sx_rdrand :: rdrand

definition sgx_shim_env ::
  "('w, 'l, 'a, 'q) sgx_shim_env \<Rightarrow> ('w, ('l, 'q) sgx_own) shim_env" where
  "sgx_shim_env sx =
     \<lparr>se_platform = UserMemScope, se_host = env_host (sx_memory sx), se_rdrand = sx_rdrand sx,
      se_ops = sgx_ops (sx_memory sx)\<rparr>"

definition SYS_GETATT :: usize where
  "SYS_GETATT = 0xEA01"

definition SYS_GETKEY :: usize where
  "SYS_GETKEY = 0xEA02"

text \<open>\<^verbatim>\<open>-e as u64\<close>\<close>

definition negated_errno :: "c_int \<Rightarrow> 64 word" where
  "negated_errno e = as_usize (- e)"

text \<open>What the registers become. \<open>rdx\<close> is the value a successful call leaves in that register.\<close>

definition return_to ::
  "gpr \<Rightarrow> (usize \<times> usize) result \<Rightarrow> (usize \<Rightarrow> usize) \<Rightarrow> gpr" where
  "return_to r res rdx =
     (case res of
        Inl e \<Rightarrow> r\<lparr>gpr_rax := negated_errno e, gpr_rip := gpr_rip r + 2\<rparr>
      | Inr (a, d) \<Rightarrow> r\<lparr>gpr_rax := a, gpr_rdx := rdx d, gpr_rip := gpr_rip r + 2\<rparr>)"

definition handle_syscall ::
  "('w, 'l, 'a, 'q) sgx_shim_env \<Rightarrow> ('w, ('l, 'q) sgx_own) enclave \<Rightarrow>
     ('w, ('l, 'q) sgx_own) enclave outcome option" where
  "handle_syscall sx en =
     (let r = en_gpr en; g = en_guest en; orig_rdx = gpr_rdx r; nr = gpr_rax r
      in if nr = SYS_GETKEY then
           (let (res, g) = sgx_get_key (sx_insns sx) UserMemScope (gpr_rdi r) (gpr_rsi r) g
            in Some (Ret (en\<lparr>en_gpr := return_to r (rmap (\<lambda>a. (a, 0)) res) (\<lambda>_. orig_rdx), en_guest := g\<rparr>)))
         else if nr = SYS_GETATT then
           Some (obind (sgx_get_attestation (sx_insns sx) UserMemScope (env_host (sx_memory sx))
                   (gpr_rdi r) (gpr_rsi r) (gpr_rdx r) (gpr_r10 r) g) (\<lambda>(res, g).
             Ret (en\<lparr>en_gpr := return_to r res (\<lambda>d. d), en_guest := g\<rparr>)))
         else map_option (\<lambda>out. obind out (\<lambda>(res, g).
                Ret (en\<lparr>en_gpr := return_to r res (\<lambda>_. orig_rdx), en_guest := g\<rparr>)))
                (handler_syscall (sgx_shim_env sx)
                   [nr, gpr_rdi r, gpr_rsi r, gpr_rdx r, gpr_r10 r, gpr_r8 r, gpr_r9 r] g))"

text \<open>\<^verbatim>\<open>cpuid\<close> unwraps what the host returns: an error of the host is a panic.\<close>

definition handle_cpuid ::
  "'w host \<Rightarrow> ('w, 'x) enclave \<Rightarrow> ('w, 'x) enclave outcome" where
  "handle_cpuid host en =
     (let r = en_gpr en; g = en_guest en
      in obind (handler_cpuid host (g_handler g) (ucast (gpr_rax r)) (ucast (gpr_rcx r))
                  \<lparr>cpuid_eax = 0, cpuid_ebx = 0, cpuid_ecx = 0, cpuid_edx = 0\<rparr>) (\<lambda>(res, c, h).
           case res of
             Inl _ \<Rightarrow> Panic
           | Inr _ \<Rightarrow>
               Ret (en\<lparr>en_gpr := r\<lparr>gpr_rax := ucast (cpuid_eax c), gpr_rbx := ucast (cpuid_ebx c),
                          gpr_rcx := ucast (cpuid_ecx c), gpr_rdx := ucast (cpuid_edx c),
                          gpr_rip := gpr_rip r + 2\<rparr>,
                       en_guest := g\<lparr>g_handler := h\<rparr>\<rparr>)))"

definition OP_SYSCALL :: "16 word" where
  "OP_SYSCALL = 0x050f"

definition OP_CPUID :: "16 word" where
  "OP_CPUID = 0xa20f"

definition opcode_at :: "umem \<Rightarrow> usize \<Rightarrow> 16 word" where
  "opcode_at m p = of_nat (le_nat (um_read m p 2))"

text \<open>\<^verbatim>\<open>ud2\<close> does not return: the exception it raises is handled by nobody.\<close>

definition handler_finish :: "('w, 'x) enclave \<Rightarrow> ('w, 'x) enclave option" where
  "handler_finish en =
     (if en_vector en = Some InvalidOpcode \<and>
         opcode_at (g_mem (en_guest en)) (gpr_rip (en_gpr en)) \<in> {OP_SYSCALL, OP_CPUID}
      then Some (en\<lparr>en_gpr := (en_gpr en)\<lparr>gpr_rip := gpr_rip (en_gpr en) + 2\<rparr>\<rparr>)
      else None)"

definition handler_handle ::
  "('w, 'l, 'a, 'q) sgx_shim_env \<Rightarrow> ('w, ('l, 'q) sgx_own) enclave \<Rightarrow>
     ('w, ('l, 'q) sgx_own) enclave outcome option" where
  "handler_handle sx en =
     (let host = env_host (sx_memory sx); opcode = opcode_at (g_mem (en_guest en)) (gpr_rip (en_gpr en))
      in if en_vector en = Some InvalidOpcode
         then if opcode = OP_SYSCALL then handle_syscall sx en
              else if opcode = OP_CPUID then Some (handle_cpuid host en)
              else Some (obind (handler_exit_group host (g_handler (en_guest en)) 1) (\<lambda>_. Panic))
         else Some Attacked)"

section \<open>Entry\<close>

definition BLOCK_SIZE :: usize where
  "BLOCK_SIZE = 69632"

definition ENCL_SIZE :: usize where
  "ENCL_SIZE = push_bit 32 1"

text \<open>The check of \<^verbatim>\<open>main\<close>: the block of the host must not lie in the enclave.\<close>

definition block_rejected :: "usize \<Rightarrow> usize \<Rightarrow> bool" where
  "block_rejected shim_start block_start =
     (let block_end = block_start + BLOCK_SIZE; shim_end = shim_start + ENCL_SIZE
      in (shim_start \<le> block_start \<and> block_start < shim_end) \<or> (shim_start < block_end \<and> block_end \<le> shim_end))"

text \<open>What \<^verbatim>\<open>main\<close> goes on to do for the current state save area; \<open>None\<close> is a panic.
  There are three areas, and the index is used before it is matched.\<close>

datatype entry_action = EnterExec | HandleException | FinishException nat

definition main_action :: "usize \<Rightarrow> usize \<Rightarrow> nat \<Rightarrow> entry_action option" where
  "main_action shim_start block_start cssa =
     (if 3 \<le> cssa then None
      else if block_rejected shim_start block_start then None
      else Some (if cssa = 0 then EnterExec else if cssa = 1 then HandleException else FinishException (cssa - 1)))"

section \<open>What the memory operations keep\<close>

text \<open>The start of the heap, the place of the block and the signal actions.\<close>

definition steady :: "('w, 'l, 'p) keep \<Rightarrow> ('r \<times> ('w, 'l, 'p) keep) outcome \<Rightarrow> bool" where
  "steady k out \<longleftrightarrow> (\<forall>r k'. out = Ret (r, k') \<longrightarrow>
     hp_start (k_heap k') = hp_start (k_heap k) \<and> same_frame (k_handler k) (k_handler k'))"

lemma steady_Ret: "steady k (Ret (r, k')) \<longleftrightarrow>
    hp_start (k_heap k') = hp_start (k_heap k) \<and> same_frame (k_handler k) (k_handler k')"
  by (simp add: steady_def)

lemma steady_gone [simp]: "steady k Panic" "steady k Attacked"
  by (simp_all add: steady_def)

lemma steady_trans:
  assumes "steady k out" "\<And>r k1. out = Ret (r, k1) \<Longrightarrow> steady k1 (f (r, k1))"
  shows "steady k (obind out f)"
proof (cases out)
  case (Ret x)
  then show ?thesis
    using assms by (cases x) (auto simp: steady_def intro: same_frame_trans)
qed (simp_all add: steady_def)

lemma mprotect_steady: "steady k (mprotect_unlocked env addr len prot k)"
proof -
  obtain r h' where h: "handler_mprotect_host (env_host env) (k_handler k) addr (in_bytes (page_count len)) prot = Ret (r, h')"
    "same_frame (k_handler k) h'"
    using host_memory_calls(2) by blast
  then show ?thesis
    by (cases r) (auto simp: steady_def mprotect_unlocked_def Let_def split_beta split: if_splits option.splits)
qed

lemma munmap_steady: "steady k (munmap_unlocked env addr len k)"
proof -
  obtain r h' where h: "handler_trim_sgx_pages (env_host env) (k_handler k) addr (in_bytes (page_count len)) = Ret (r, h')"
    "same_frame (k_handler k) h'"
    using host_memory_calls(4) by blast
  obtain r' h'' where h': "handler_munmap_host (env_host env) h' addr (in_bytes (page_count len)) = Ret (r', h'')"
    "same_frame h' h''"
    using host_memory_calls(3) by blast
  have "same_frame (k_handler k) h''"
    using h(2) h'(2) by (rule same_frame_trans)
  then show ?thesis
    using h(1) h'(1)
    by (cases r; cases r') (auto simp: steady_def munmap_unlocked_def Let_def split_beta split: if_splits option.splits)
qed

lemma brk_steady: "steady k (sgx_brk env addr k)"
proof -
  define a where "a = (case addr of Some v \<Rightarrow> (v + of_nat page_size - 1) AND NOT (of_nat page_size - 1) | None \<Rightarrow> 0)"
  let ?max = "heap_brk_max (k_heap k)"
  obtain b hp where b: "heap_brk (env_ledger env) a (k_heap k) = (b, hp)"
    by fastforce
  have hp: "hp_start hp = hp_start (k_heap k)"
    using heap_ops_start(1) [of "env_ledger env" a "k_heap k"] b by simp
  obtain r h' where h: "handler_mmap_host (env_host env) (k_handler k) ?max (b - ?max) (PROT_READ OR PROT_WRITE) = Ret (r, h')"
    "same_frame (k_handler k) h'"
    using host_memory_calls(1) by blast
  show ?thesis
    by (rule mmap_guest_cases [of env ?max "pages_between b ?max" "PROT_READ OR PROT_WRITE" "k\<lparr>k_heap := hp, k_handler := h'\<rparr>"];
        cases r)
      (use b hp h in \<open>auto simp: steady_def sgx_brk_def a_def [symmetric] non_null_def Let_def split: if_splits\<close>)
qed

lemma protect_steady:
  "steady k (obind (mprotect_unlocked env a n prot k) (\<lambda>(r, k). case r of
      Inr _ \<Rightarrow> Ret (Ok a, k)
    | Inl e \<Rightarrow> obind (munmap_unlocked env a n k) (\<lambda>(r, k). case r of
        Inl e' \<Rightarrow> Ret (Err e', k) | Inr _ \<Rightarrow> Ret (Err e, k))))"
proof (rule steady_trans [OF mprotect_steady])
  fix r k1
  show "steady k1 (case (r, k1) of (r, k) \<Rightarrow> (case r of
      Inr _ \<Rightarrow> Ret (Ok a, k)
    | Inl e \<Rightarrow> obind (munmap_unlocked env a n k) (\<lambda>(r, k). case r of
        Inl e' \<Rightarrow> Ret (Err e', k) | Inr _ \<Rightarrow> Ret (Err e, k))))"
  proof (cases r)
    case (Inl e)
    have "steady k1 (obind (munmap_unlocked env a n k1) (\<lambda>(r, k). case r of
        Inl e' \<Rightarrow> Ret (Err e' :: usize result, k) | Inr _ \<Rightarrow> Ret (Err e, k)))"
      by (rule steady_trans [OF munmap_steady]) (auto simp: steady_Ret split: sum.splits)
    with Inl show ?thesis by simp
  qed (simp add: steady_Ret)
qed

lemma mmap_steady: "steady k (sgx_mmap env addr len prot flags fd offset k)"
proof -
  let ?lg = "env_ledger env" and ?p = "prot OR PROT_READ"
  define n where "n = (len + of_nat page_size - 1) div of_nat page_size"
  obtain found hp where m: "heap_mmap ?lg None n (lg_from_bits ?lg (as_usize ?p)) (k_heap k) = (found, hp)"
    by fastforce
  have hp: "hp_start hp = hp_start (k_heap k)"
    using heap_ops_start(2) [of ?lg None n "lg_from_bits ?lg (as_usize ?p)" "k_heap k"] m by simp
  show ?thesis
  proof (cases found)
    case None
    then show ?thesis
      using m hp by (auto simp: steady_def sgx_mmap_def Let_def n_def [symmetric] split: if_splits option.splits)
  next
    case (Some b)
    obtain r h' where h: "handler_mmap_host (env_host env) (k_handler k) b (in_bytes n) (PROT_READ OR PROT_WRITE) = Ret (r, h')"
      "same_frame (k_handler k) h'"
      using host_memory_calls(1) by blast
    have p: "steady k (obind (mprotect_unlocked env b (in_bytes n) ?p k1) (\<lambda>(r, k). case r of
        Inr _ \<Rightarrow> Ret (Ok b, k)
      | Inl e \<Rightarrow> obind (munmap_unlocked env b (in_bytes n) k) (\<lambda>(r, k). case r of
          Inl e' \<Rightarrow> Ret (Err e', k) | Inr _ \<Rightarrow> Ret (Err e, k))))"
      if "hp_start (k_heap k1) = hp_start (k_heap k)" "k_handler k1 = h'" for k1
      using protect_steady [of k1 env b "in_bytes n" ?p] that h(2) by (auto simp: steady_def intro: same_frame_trans)
    have t: "steady k (obind (mmap_guest env b n ?p (k\<lparr>k_heap := hp, k_handler := h'\<rparr>)) (\<lambda>k.
        if ?p \<noteq> PROT_READ OR PROT_WRITE
        then obind (mprotect_unlocked env b (in_bytes n) ?p k) (\<lambda>(r, k). case r of
            Inr _ \<Rightarrow> Ret (Ok b, k)
          | Inl e \<Rightarrow> obind (munmap_unlocked env b (in_bytes n) k) (\<lambda>(r, k). case r of
              Inl e' \<Rightarrow> Ret (Err e', k) | Inr _ \<Rightarrow> Ret (Err e, k)))
        else Ret (Ok b, k)))"
    proof (rule mmap_guest_cases [of env b n ?p "k\<lparr>k_heap := hp, k_handler := h'\<rparr>"])
      assume "mmap_guest env b n ?p (k\<lparr>k_heap := hp, k_handler := h'\<rparr>) = Attacked"
      then show ?thesis by (simp add: steady_def)
    next
      fix q
      assume q: "mmap_guest env b n ?p (k\<lparr>k_heap := hp, k_handler := h'\<rparr>) = Ret (k\<lparr>k_heap := hp, k_handler := h', k_epc := q\<rparr>)"
      show ?thesis
        unfolding q obind_simps using p [of "k\<lparr>k_heap := hp, k_handler := h', k_epc := q\<rparr>"] hp h(2)
        by (simp add: steady_Ret)
    qed
    have "steady k (Ret (x, k)) = True" "steady k (Ret (x, k\<lparr>k_heap := hp\<rparr>)) = True"
      "steady k (Ret (x, k\<lparr>k_heap := hp, k_handler := h'\<rparr>)) = True"
      for x :: "usize result"
      using hp h(2) by (simp_all add: steady_def)
    with m Some h(1) t show ?thesis
      by (cases r; cases "b = 0") (simp_all add: sgx_mmap_def Let_def n_def [symmetric] non_null_def)
  qed
qed

lemma madvise_steady: "steady k (sgx_madvise addr len advice k)"
  by (simp add: sgx_madvise_def steady_Ret)

section \<open>The state of a keep\<close>

definition enclave_ok ::
  "('w, 'l, 'a, 'q) sgx_shim_env \<Rightarrow> ('l \<Rightarrow> nat \<Rightarrow> 'a option) \<Rightarrow> usize \<Rightarrow> ('w, ('l, 'q) sgx_own) guest \<Rightarrow> bool" where
  "enclave_ok sx pages start g \<longleftrightarrow> guest_ok g \<and> hp_start (fst (g_own g)) = start \<and>
     keep_ok (env_ledger (sx_memory sx)) pages (keep_of g)"

lemma keep_of_simps [simp]:
  "k_handler (keep_of g) = g_handler g" "k_heap (keep_of g) = fst (g_own g)" "k_epc (keep_of g) = (g_mem g, snd (g_own g))"
  by (simp_all add: keep_of_def)

lemma guest_of_simps [simp]:
  "g_mem (guest_of k) = fst (k_epc k)" "g_handler (guest_of k) = k_handler k"
  "g_own (guest_of k) = (k_heap k, snd (k_epc k))"
  by (simp_all add: guest_of_def)

lemma guest_of_keep_of [simp]: "guest_of (keep_of g) = g"
  by (simp add: guest_of_def keep_of_def)

lemma keep_of_guest_of [simp]: "keep_of (guest_of k) = k"
  by (simp add: guest_of_def keep_of_def)

text \<open>An outcome that leaves the keep well-formed, or is the end of it.\<close>

definition safe_answer ::
  "('w, 'l, 'a, 'q) sgx_shim_env \<Rightarrow> ('l \<Rightarrow> nat \<Rightarrow> 'a option) \<Rightarrow> usize \<Rightarrow> ('w, ('l, 'q) sgx_own, 'r) reply \<Rightarrow> bool" where
  "safe_answer sx pages start out \<longleftrightarrow> out = Attacked \<or> (\<exists>r g. out = Ret (r, g) \<and> enclave_ok sx pages start g)"

lemma safe_answer_simps [simp]:
  "safe_answer sx pages start (Ret (r, g)) = enclave_ok sx pages start g" "safe_answer sx pages start Attacked"
  by (auto simp: safe_answer_def)

lemma safe_on_keep:
  assumes "enclave_ok sx pages start g" "keeps (sx_memory sx) pages (f (keep_of g))" "steady (keep_of g) (f (keep_of g))"
  shows "safe_answer sx pages start (on_keep f g)"
proof (cases "f (keep_of g)")
  case (Ret x)
  then obtain r k where x: "f (keep_of g) = Ret (r, k)"
    by (cases x) auto
  then have "keep_ok (env_ledger (sx_memory sx)) pages k" "hp_start (k_heap k) = start" "actions_ok (k_handler k)"
    using assms same_frame_actions [of "g_handler g" "k_handler k"] by (auto simp: enclave_ok_def steady_def guest_ok_def)
  then show ?thesis
    by (simp add: on_keep_def x enclave_ok_def guest_ok_def)
qed (use assms(2) in \<open>auto simp: on_keep_def keeps_def\<close>)

lemma safe_reply_shim:
  "safe_answer sx pages start out \<Longrightarrow> safe_answer sx pages start (reply_shim conv out)"
  by (auto simp: safe_answer_def reply_shim_def)

lemma safe_validated:
  "enclave_ok sx pages start g \<Longrightarrow> (\<And>x. v = Ok x \<Longrightarrow> safe_answer sx pages start (k x)) \<Longrightarrow>
     safe_answer sx pages start (validated g v k)"
  by (cases v) (auto simp: validated_def)

lemma safe_obind:
  assumes "safe_answer sx pages start out" "\<And>r g. enclave_ok sx pages start g \<Longrightarrow> safe_answer sx pages start (f (r, g))"
  shows "safe_answer sx pages start (obind out f)"
proof (cases "out = Attacked")
  case False
  then obtain r g where "out = Ret (r, g)" "enclave_ok sx pages start g"
    using assms(1) by (auto simp: safe_answer_def)
  then show ?thesis using assms(2) by simp
qed simp

lemma enclave_ok_mem [simp]: "enclave_ok sx pages start (g\<lparr>g_mem := m\<rparr>) = enclave_ok sx pages start g"
  by (simp add: enclave_ok_def keep_ok_def guest_ok_def)

lemma sgx_ops_safe:
  assumes "ledger_ok (env_ledger (sx_memory sx)) pages start" "enclave_ok sx pages start g"
  defines "ops \<equiv> sgx_ops (sx_memory sx)"
  shows "safe_answer sx pages start (sh_arch_prctl ops code a g)"
    and "safe_answer sx pages start (sh_brk ops b g)"
    and "safe_answer sx pages start (sh_madvise ops a len advice g)"
    and "safe_answer sx pages start (sh_mmap ops b len prot flags fd off g)"
    and "safe_answer sx pages start (sh_mprotect ops a len prot g)"
    and "safe_answer sx pages start (sh_munmap ops a len g)"
proof -
  have k: "ledger_ok (env_ledger (sx_memory sx)) pages (hp_start (k_heap (keep_of g)))"
    "keep_ok (env_ledger (sx_memory sx)) pages (keep_of g)"
    using assms(1,2) by (auto simp: enclave_ok_def)
  show "safe_answer sx pages start (sh_arch_prctl ops code a g)"
    using assms(2) by (simp add: ops_def sgx_ops_def)
  note safe = safe_on_keep [OF assms(2)]
  show "safe_answer sx pages start (sh_brk ops b g)"
    using safe [of "sgx_brk (sx_memory sx) b"] brk_keeps [OF k] by (simp add: ops_def sgx_ops_def brk_steady)
  show "safe_answer sx pages start (sh_madvise ops a len advice g)"
    using safe [of "sgx_madvise a len advice"] k(2) madvise_steady [of "keep_of g" a len advice] by (simp add: ops_def sgx_ops_def sgx_madvise_def keeps_def settles_def)
  show "safe_answer sx pages start (sh_mmap ops b len prot flags fd off g)"
    using safe [of "sgx_mmap (sx_memory sx) b len prot flags fd off"] mmap_keeps [OF k]
    by (simp add: ops_def sgx_ops_def mmap_steady)
  show "safe_answer sx pages start (sh_mprotect ops a len prot g)"
    using safe [of "sgx_mprotect (sx_memory sx) a len prot"] mprotect_keeps [OF k]
    by (simp add: ops_def sgx_ops_def sgx_mprotect_def mprotect_steady)
  show "safe_answer sx pages start (sh_munmap ops a len g)"
    using safe [of "sgx_munmap (sx_memory sx) a len"] munmap_keeps [OF k]
    by (simp add: ops_def sgx_ops_def sgx_munmap_def munmap_steady)
qed

lemma sgx_mremap_safe:
  assumes "ledger_ok (env_ledger (sx_memory sx)) pages start" "enclave_ok sx pages start g"
  shows "safe_answer sx pages start (handler_mremap (sgx_shim_env sx) old old_size new_size flags g)"
  unfolding handler_mremap_def Let_def sgx_shim_env_def shim_env.select_convs
  using assms
  by (auto intro!: safe_validated safe_obind sgx_ops_safe)

lemma sgx_syscall_memory_safe:
  assumes "ledger_ok (env_ledger (sx_memory sx)) pages start" "enclave_ok sx pages start g"
    and "syscall_memory (sgx_shim_env sx) num a g = Some out"
  shows "safe_answer sx pages start out"
  using assms(3)
  by (auto simp: syscall_memory_def Let_def sgx_shim_env_def dispatch_mremap_def split: if_splits
      intro!: safe_reply_shim safe_validated sgx_ops_safe [OF assms(1,2)]
        sgx_mremap_safe [OF assms(1,2), unfolded sgx_shim_env_def] assms(2))

end
