(* ===== verification/Sgx_Keep.thy ===== *)
theory Sgx_Keep
  imports Sgx_Shim
begin

text \<open>
  A keep on SGX over its whole life. The exception handler, the program in the keep and the host take
  turns: the program changes its registers and memory as it likes, the host the block, and the handler
  runs when the program executes \<^verbatim>\<open>syscall\<close> or \<^verbatim>\<open>cpuid\<close>. The states a keep can get into are an
  inductive predicate, and the well-formedness of the shim's own state is shown by rule induction.
\<close>

unbundle bit_operations_syntax

section \<open>The calls of the shim\<close>

lemma confined_safe:
  assumes "enclave_ok sx pages start g" "confined g A out"
  shows "safe_answer sx pages start out"
proof (cases "out = Attacked")
  case False
  then obtain r g' where "out = Ret (r, g')" "g_own g' = g_own g" "guest_ok g'"
    using assms(2) by (auto simp: confined_def)
  then show ?thesis
    using assms(1) by (auto simp: enclave_ok_def keep_ok_def)
qed simp

lemma confined_frame:
  "guest_ok g \<Longrightarrow> same_frame (g_handler g) h \<Longrightarrow> confined (g\<lparr>g_handler := h\<rparr>) A out \<Longrightarrow> confined g A out"
  by (auto simp: confined_def same_frame_def)

lemma guest_ok_frame: "guest_ok g \<Longrightarrow> same_frame (g_handler g) h \<Longrightarrow> guest_ok (g\<lparr>g_handler := h\<rparr>)"
  using same_frame_actions by (auto simp: guest_ok_def)

lemma target_info_returns:
  "\<exists>r b h'. handler_get_sgx_target_info host h info = Ret (r, b, h') \<and> same_frame h h'"
  unfolding handler_get_sgx_target_info_def
  by (rule exec_buf_returns [OF get_sgx_target_info.item.call_laws_axioms])

lemma quote_size_returns: "\<exists>r h'. handler_get_sgx_quote_size host h = Ret (r, h') \<and> same_frame h h'"
  unfolding handler_get_sgx_quote_size_def
  by (rule exec_returns [OF get_sgx_quote_size.item.call_laws_axioms])

lemma cpuid_returns: "\<exists>r c h'. handler_cpuid host h leaf sub res = Ret (r, c, h') \<and> same_frame h h'"
  unfolding handler_cpuid_def by (rule exec_buf_returns [OF cpuid.item.call_laws_axioms])

text \<open>The last step of an attestation, once the buffers are validated.\<close>

lemma quote_confined:
  assumes "guest_ok g" "length quote = n"
  shows "confined g (area buf n)
    (obind (handler_get_sgx_quote host (g_handler g) report quote)
       (\<lambda>(r, quote, h). Ret (rmap conv r, g\<lparr>g_handler := h, g_mem := um_write buf quote (g_mem g)\<rparr>)))"
proof -
  from fills_safe(3) [of "g_handler g" quote host report] consider
    "handler_get_sgx_quote host (g_handler g) report quote = Attacked"
  | r b h where "handler_get_sgx_quote host (g_handler g) report quote = Ret (r, b, h)"
      "same_frame (g_handler g) h" "length b = n"
    using read_post_length assms(2) by (fastforce simp: fills_safely_def)
  then show ?thesis
  proof cases
    case 2
    then show ?thesis
      using assms(1) same_frame_actions [of "g_handler g" h]
      by (auto simp: confined_def guest_ok_def same_frame_def um_write_exact)
  qed (simp add: confined_def)
qed

lemma attestation_confined:
  assumes "guest_ok g"
  shows "confined g (area buf (unat buf_len)) (sgx_get_attestation insns pf host hash hash_len buf buf_len g)"
proof -
  obtain r t h where t: "handler_get_sgx_target_info host (g_handler g) (\<lambda>_. 0) = Ret (r, t, h)"
    "same_frame (g_handler g) h"
    using target_info_returns by blast
  obtain r' h' where s: "handler_get_sgx_quote_size host h = Ret (r', h')" "same_frame h h'"
    using quote_size_returns by blast
  note ok = guest_ok_frame [OF assms t(2)]
  have f: "same_frame (g_handler g) h'"
    using t(2) s(2) by (rule same_frame_trans)
  note ok' = guest_ok_frame [OF assms f]
  have "confined (g\<lparr>g_handler := h'\<rparr>) (area buf (unat buf_len)) (validated (g\<lparr>g_handler := h'\<rparr>) (load_bytes_mut pf (g_mem g) buf buf_len) (\<lambda>quote.
      obind (handler_get_sgx_quote host h' report quote)
        (\<lambda>(r, quote, h). Ret (rmap conv r, g\<lparr>g_handler := h, g_mem := um_write buf quote (g_mem g)\<rparr>))))"
    for conv :: "usize \<Rightarrow> usize \<times> usize" and report
    using quote_confined [OF ok', where buf = buf and n = "unat buf_len" and host = host and report = report and conv = conv]
    by (auto intro!: confined_validated [OF ok'] dest: load_bytes_mut_length)
  note last = this
  have "confined g (area buf (unat buf_len)) (Ret (x, g\<lparr>g_handler := h\<rparr>))"
    "confined g (area buf (unat buf_len)) (Ret (x, g\<lparr>g_handler := h'\<rparr>))" for x
    using confined_frame [OF assms t(2) confined_refl [OF ok]] confined_frame [OF assms f confined_refl [OF ok']] by blast+
  then show ?thesis
    using confined_frame [OF assms f last] assms
    by (cases r; cases r') (auto simp: sgx_get_attestation_def t(1) s(1) Let_def validated_def confined_refl split: sum.splits)
qed

section \<open>One exception\<close>

text \<open>The shim's own state stays well-formed, or the keep is given up.\<close>

definition settled ::
  "('w, 'l, 'a, 'q) sgx_shim_env \<Rightarrow> ('l \<Rightarrow> nat \<Rightarrow> 'a option) \<Rightarrow> usize \<Rightarrow> ('w, ('l, 'q) sgx_own) enclave outcome \<Rightarrow> bool" where
  "settled sx pages start out \<longleftrightarrow>
     out = Attacked \<or> (\<exists>en. out = Ret en \<and> enclave_ok sx pages start (en_guest en))"

lemma settled_simps [simp]:
  "settled sx pages start (Ret en) = enclave_ok sx pages start (en_guest en)" "settled sx pages start Attacked"
  by (auto simp: settled_def)

lemma settled_answer:
  assumes "safe_answer sx pages start out" "\<And>r g. en_guest (f r g) = g"
  shows "settled sx pages start (obind out (\<lambda>(r, g). Ret (f r g)))"
  using assms by (auto simp: safe_answer_def)

lemma get_key_own: "sgx_get_key insns pf buf len g = (r, g') \<Longrightarrow> \<exists>m. g' = g\<lparr>g_mem := m\<rparr>"
  by (cases g) (auto simp: sgx_get_key_def Let_def split: if_splits sum.splits)

definition negative_signal :: "gpr \<Rightarrow> bool" where
  "negative_signal r \<longleftrightarrow> gpr_rax r = SYS_rt_sigaction \<and> sint (as_int (gpr_rdi r)) < 0"

lemma program_call_safe:
  assumes "ledger_ok (env_ledger (sx_memory sx)) pages start" "enclave_ok sx pages start g"
    and "handler_syscall (sgx_shim_env sx) (num # a) g = Some out"
  shows "safe_answer sx pages start out \<or> out = Panic \<and> num = SYS_rt_sigaction \<and> sint (as_int (a ! 0)) < 0"
proof (cases "num \<in> set memory_calls")
  case False
  have "guest_ok g" using assms(2) by (simp add: enclave_ok_def)
  from call_confined [OF this assms(3) False] show ?thesis
    using confined_safe [OF assms(2)] by blast
next
  case True
  then have "syscall_plain (sgx_shim_env sx) num a g = None" "syscall_pointer (sgx_shim_env sx) num a g = None"
    "num \<noteq> SYS_getrandom" "num \<noteq> SYS_open" "num \<noteq> SYS_readlink"
    by (auto simp: memory_calls_def syscall_plain_def syscall_pointer_def libc_consts)
  then consider "syscall_memory (sgx_shim_env sx) num a g = Some out" | "out = Ret (Err ENOSYS, g)"
    using assms(3) by (auto simp: handler_syscall_def Let_def split: option.splits)
  then show ?thesis
    using sgx_syscall_memory_safe [OF assms(1,2)] assms(2) by cases auto
qed

lemma handle_syscall_settles:
  assumes "ledger_ok (env_ledger (sx_memory sx)) pages start" "enclave_ok sx pages start (en_guest en)"
    and "handle_syscall sx en = Some out"
  shows "settled sx pages start out \<or> out = Panic \<and> negative_signal (en_gpr en)"
proof -
  let ?r = "en_gpr en" and ?g = "en_guest en"
  have ok: "guest_ok ?g" using assms(2) by (simp add: enclave_ok_def)
  consider (key) "gpr_rax ?r = SYS_GETKEY" | (att) "gpr_rax ?r \<noteq> SYS_GETKEY" "gpr_rax ?r = SYS_GETATT"
    | (other) "gpr_rax ?r \<noteq> SYS_GETKEY" "gpr_rax ?r \<noteq> SYS_GETATT" by blast
  then show ?thesis
  proof cases
    case key
    obtain res g where k: "sgx_get_key (sx_insns sx) UserMemScope (gpr_rdi ?r) (gpr_rsi ?r) ?g = (res, g)"
      by fastforce
    then obtain m where "g = ?g\<lparr>g_mem := m\<rparr>" using get_key_own by blast
    with key k assms(2,3) show ?thesis
      by (auto simp: handle_syscall_def Let_def)
  next
    case att
    note safe = confined_safe [OF assms(2) attestation_confined [OF ok]]
    from assms(3) att have "out = obind (sgx_get_attestation (sx_insns sx) UserMemScope (env_host (sx_memory sx))
        (gpr_rdi ?r) (gpr_rsi ?r) (gpr_rdx ?r) (gpr_r10 ?r) ?g)
        (\<lambda>(res, g). Ret (en\<lparr>en_gpr := return_to ?r res (\<lambda>d. d), en_guest := g\<rparr>))"
      by (simp add: handle_syscall_def Let_def)
    then show ?thesis
      using settled_answer [OF safe] by simp
  next
    case other
    with assms(3) obtain o' where o':
      "handler_syscall (sgx_shim_env sx) [gpr_rax ?r, gpr_rdi ?r, gpr_rsi ?r, gpr_rdx ?r, gpr_r10 ?r, gpr_r8 ?r, gpr_r9 ?r] ?g = Some o'"
      "out = obind o' (\<lambda>(res, g). Ret (en\<lparr>en_gpr := return_to ?r res (\<lambda>_. gpr_rdx ?r), en_guest := g\<rparr>))"
      by (auto simp: handle_syscall_def Let_def)
    from program_call_safe [OF assms(1,2) o'(1)] show ?thesis
      unfolding o'(2)
      using settled_answer [where out = o' and f = "\<lambda>res g. en\<lparr>en_gpr := return_to ?r res (\<lambda>_. gpr_rdx ?r), en_guest := g\<rparr>"]
      by (auto simp: negative_signal_def)
  qed
qed

lemma handle_cpuid_settles:
  assumes "enclave_ok sx pages start (en_guest en)"
  shows "settled sx pages start (handle_cpuid host en) \<or> handle_cpuid host en = Panic"
proof -
  let ?c = "\<lparr>cpuid_eax = 0, cpuid_ebx = 0, cpuid_ecx = 0, cpuid_edx = 0\<rparr>"
  obtain r c h where h: "handler_cpuid host (g_handler (en_guest en)) (ucast (gpr_rax (en_gpr en))) (ucast (gpr_rcx (en_gpr en))) ?c = Ret (r, c, h)"
    "same_frame (g_handler (en_guest en)) h"
    using cpuid_returns by blast
  have "enclave_ok sx pages start ((en_guest en)\<lparr>g_handler := h\<rparr>)"
    using assms guest_ok_frame [OF _ h(2)] by (auto simp: enclave_ok_def keep_ok_def)
  then show ?thesis
    using h(1) by (cases r) (simp_all add: handle_cpuid_def Let_def)
qed

text \<open>Why the handler may panic: a negative signal number, an error of the host in reply to
  \<^verbatim>\<open>cpuid\<close>, and an instruction that is neither \<^verbatim>\<open>syscall\<close> nor \<^verbatim>\<open>cpuid\<close>.\<close>

definition may_panic :: "('w, 'x) enclave \<Rightarrow> bool" where
  "may_panic en \<longleftrightarrow> en_vector en = Some InvalidOpcode \<and>
     (opcode_at (g_mem (en_guest en)) (gpr_rip (en_gpr en)) = OP_SYSCALL \<longrightarrow> negative_signal (en_gpr en))"

lemma exit_then_panic:
  "obind (handler_exit_group host h status) (\<lambda>_. Panic) = Attacked \<or>
   obind (handler_exit_group host h status) (\<lambda>_. Panic) = Panic"
proof -
  obtain r h' where "exec host h (syscall_call (exit_group_alloc status)) = Ret (r, h')"
    using exec_returns [OF exit_group.item.call_laws_axioms] by blast
  then show ?thesis
    by (cases r) (simp_all add: handler_exit_group_def)
qed

lemma handle_settles:
  assumes "ledger_ok (env_ledger (sx_memory sx)) pages start" "enclave_ok sx pages start (en_guest en)"
    and "handler_handle sx en = Some out"
  shows "settled sx pages start out \<or> out = Panic \<and> may_panic en"
proof -
  let ?op = "opcode_at (g_mem (en_guest en)) (gpr_rip (en_gpr en))"
  have ops: "OP_CPUID \<noteq> OP_SYSCALL" by (simp add: OP_CPUID_def OP_SYSCALL_def)
  consider (vector) "en_vector en \<noteq> Some InvalidOpcode"
    | (call) "en_vector en = Some InvalidOpcode" "?op = OP_SYSCALL"
    | (cpuid) "en_vector en = Some InvalidOpcode" "?op = OP_CPUID"
    | (other) "en_vector en = Some InvalidOpcode" "?op \<noteq> OP_SYSCALL" "?op \<noteq> OP_CPUID" by blast
  then show ?thesis
  proof cases
    case call
    with handle_syscall_settles [OF assms(1,2)] assms(3) show ?thesis
      by (auto simp: handler_handle_def may_panic_def)
  next
    case cpuid
    with handle_cpuid_settles [OF assms(2)] assms(3) ops show ?thesis
      by (auto simp: handler_handle_def may_panic_def)
  next
    case other
    with assms(3) have "out = obind (handler_exit_group (env_host (sx_memory sx)) (g_handler (en_guest en)) 1) (\<lambda>_. Panic)"
      by (simp add: handler_handle_def)
    with other show ?thesis
      using exit_then_panic [of "env_host (sx_memory sx)" "g_handler (en_guest en)" 1] by (metis may_panic_def settled_simps(2))
  qed (use assms(3) in \<open>simp add: handler_handle_def Let_def\<close>)
qed

section \<open>The life of a keep\<close>

text \<open>Between two exceptions the program may change its memory and its registers, and the host the
  contents of the block; an exception in the handler itself is finished by \<^verbatim>\<open>Handler::finish\<close>.\<close>

inductive reachable ::
  "('w, 'l, 'a, 'q) sgx_shim_env \<Rightarrow> ('w, ('l, 'q) sgx_own) enclave \<Rightarrow> ('w, ('l, 'q) sgx_own) enclave \<Rightarrow> bool"
  for sx en0 where
  start: "reachable sx en0 en0"
| exception: "reachable sx en0 en \<Longrightarrow> handler_handle sx en = Some (Ret en') \<Longrightarrow> reachable sx en0 en'"
| nested: "reachable sx en0 en \<Longrightarrow> handler_finish en = Some en' \<Longrightarrow> reachable sx en0 en'"
| program: "reachable sx en0 en \<Longrightarrow> reachable sx en0
    (en\<lparr>en_vector := v, en_gpr := r, en_guest := (en_guest en)\<lparr>g_mem := m\<rparr>\<rparr>)"
| host: "reachable sx en0 en \<Longrightarrow> length ws = length (h_block (g_handler (en_guest en))) \<Longrightarrow> reachable sx en0
    (en\<lparr>en_guest := (en_guest en)\<lparr>g_handler := (g_handler (en_guest en))\<lparr>h_block := ws, h_world := w\<rparr>\<rparr>\<rparr>)"

inductive_cases reachable_cases: "reachable sx en0 en"

lemma reachable_ok:
  assumes "ledger_ok (env_ledger (sx_memory sx)) pages start" "enclave_ok sx pages start (en_guest en0)"
    and "reachable sx en0 en"
  shows "enclave_ok sx pages start (en_guest en)"
  using assms(3)
proof (induction rule: reachable.induct)
  case (exception en en')
  then show ?case
    using handle_settles [OF assms(1) exception.IH exception.hyps(2)] by simp
next
  case (nested en en')
  then show ?case by (auto simp: handler_finish_def split: if_splits)
next
  case (host en ws w)
  then show ?case by (auto simp: enclave_ok_def keep_ok_def guest_ok_def actions_ok_def)
qed (simp_all add: assms(2))

section \<open>Properties\<close>

text \<open>A keep to apply the properties to: a free heap, a host that answers every request with zeros,
  and a program about to request the seal key.\<close>

definition quiet_shim :: "(unit, nat \<Rightarrow> usize option, usize, unit) sgx_shim_env" where
  "quiet_shim =
     \<lparr>sx_memory =
        \<lparr>env_ledger = table_ledger 0x18000,
         env_epc = \<lparr>epc_accept_copy = (\<lambda>_ _ p. Some p), epc_accept_restricted = (\<lambda>_ p. Some p),
           epc_extend = (\<lambda>_ _ p. p), epc_accept_trimmed = (\<lambda>_ p. Some p)\<rparr>,
         env_host = (\<lambda>w ws. (Ok (), \<lambda>_. 0, w))\<rparr>,
      sx_insns = \<lparr>si_egetkey = (\<lambda>_. (0, \<lambda>_. 9)), si_ereport = (\<lambda>_ _ _. 1), si_disable_attestation = False\<rparr>,
      sx_rdrand = (\<lambda>_. Some 7)\<rparr>"

definition quiet_guest :: "(unit, (nat \<Rightarrow> usize option, unit) sgx_own) guest" where
  "quiet_guest =
     \<lparr>g_mem = (\<lambda>a. if a = 0x1000 then 0x0f else if a = 0x1001 then 0x05 else 0),
      g_handler = \<lparr>h_addr = 4096, h_block = replicate 256 0, h_actions = thread_local_storage_new, h_world = ()\<rparr>,
      g_own = (\<lparr>hp_start = 0x10000, hp_end = 0x20000, hp_brk = 0x10000, hp_brk_max = 0x10000, hp_ledger = (\<lambda>_. None)\<rparr>, ())\<rparr>"

definition quiet_enclave :: "usize \<Rightarrow> (unit, (nat \<Rightarrow> usize option, unit) sgx_own) enclave" where
  "quiet_enclave rax =
     \<lparr>en_vector = Some InvalidOpcode,
      en_gpr = \<lparr>gpr_rax = rax, gpr_rbx = 0, gpr_rcx = 0, gpr_rdx = 5, gpr_rsi = 64, gpr_rdi = 0x2000,
                gpr_r8 = 0, gpr_r9 = 0, gpr_r10 = 0, gpr_rip = 0x1000\<rparr>,
      en_guest = quiet_guest\<rparr>"

lemma quiet_ledger: "ledger_ok (env_ledger (sx_memory quiet_shim)) (\<lambda>l. l) 0x10000"
  by (auto simp: quiet_shim_def page_size_def intro: table_ledger_ok)

lemma quiet_ok: "enclave_ok quiet_shim (\<lambda>l. l) 0x10000 (en_guest (quiet_enclave rax))"
  by (simp add: enclave_ok_def keep_ok_def heap_wf_def pages_allowed_def guest_ok_def actions_ok_def quiet_enclave_def
      quiet_guest_def thread_local_storage_new_def SIGRTMAX_def)

lemma quiet_opcode: "opcode_at (g_mem (en_guest (quiet_enclave rax))) (gpr_rip (en_gpr (quiet_enclave rax))) = OP_SYSCALL"
  by (simp add: opcode_at_def quiet_enclave_def quiet_guest_def um_read_def OP_SYSCALL_def upt_rec)

text \<open>C5: the shim's own state is safe for the whole life of a keep. Whatever sequence of exceptions
  the program raises, whatever it writes to its memory and registers and whatever the host writes to the
  block in between: the break stays within the heap, every page of the heap has an access the shim
  allows, never writable and executable at once, and the table of signal actions is intact.\<close>

theorem keep_invariant:
  assumes "ledger_ok (env_ledger (sx_memory sx)) pages start" "enclave_ok sx pages start (en_guest en0)"
    and "reachable sx en0 en"
  shows "enclave_ok sx pages start (en_guest en)"
  using assms by (rule reachable_ok)

theorem keep_invariant_witness:
  "let en = quiet_enclave SYS_brk; en' = en\<lparr>en_vector := None, en_gpr := (en_gpr en)\<lparr>gpr_rip := 0\<rparr>,
         en_guest := (en_guest en)\<lparr>g_mem := \<lambda>_. 1\<rparr>\<rparr>
   in reachable quiet_shim en en' \<and> enclave_ok quiet_shim (\<lambda>l. l) 0x10000 (en_guest en')"
proof -
  have "reachable quiet_shim (quiet_enclave SYS_brk) ((quiet_enclave SYS_brk)\<lparr>en_vector := None,
      en_gpr := (en_gpr (quiet_enclave SYS_brk))\<lparr>gpr_rip := 0\<rparr>,
      en_guest := (en_guest (quiet_enclave SYS_brk))\<lparr>g_mem := \<lambda>_. 1\<rparr>\<rparr>)"
    by (intro reachable.program reachable.start)
  from keep_invariant [OF quiet_ledger quiet_ok this] this show ?thesis
    unfolding Let_def by blast
qed


lemma handle_returns:
  assumes "\<And>t. \<exists>t' \<ge> t. sx_rdrand sx t' \<noteq> None"
  shows "\<exists>out. handler_handle sx en = Some out"
proof -
  have "\<exists>out. handler_syscall (sgx_shim_env sx) regs g = Some out" for regs g
    by (rule call_returns) (use assms in \<open>simp_all add: sgx_shim_env_def\<close>)
  then have "\<exists>out. handle_syscall sx en = Some out"
    by (simp add: handle_syscall_def Let_def split_beta)
  then show ?thesis
    by (simp add: handler_handle_def Let_def)
qed




text \<open>A system call in the enclave resumes the program after the instruction, with at most
  \<^verbatim>\<open>rax\<close> and \<^verbatim>\<open>rdx\<close> changed; \<^verbatim>\<open>rdx\<close> changes only for a request of an attestation.\<close>

theorem syscall_registers:
  assumes "handle_syscall sx en = Some (Ret en')"
  shows "\<exists>rax rdx. en_gpr en' = (en_gpr en)\<lparr>gpr_rax := rax, gpr_rdx := rdx, gpr_rip := gpr_rip (en_gpr en) + 2\<rparr> \<and>
    (gpr_rax (en_gpr en) \<noteq> SYS_GETATT \<longrightarrow> rdx = gpr_rdx (en_gpr en)) \<and> en_vector en' = en_vector en"
proof -
  have ret: "\<exists>rax rdx. return_to r res f = r\<lparr>gpr_rax := rax, gpr_rdx := rdx, gpr_rip := gpr_rip r + 2\<rparr> \<and>
      ((\<forall>d. f d = gpr_rdx r) \<longrightarrow> rdx = gpr_rdx r)" for r res f
    by (cases r) (auto simp: return_to_def split: sum.splits prod.splits)
  from assms obtain res f where "en_gpr en' = return_to (en_gpr en) res f" "en_vector en' = en_vector en"
    "gpr_rax (en_gpr en) \<noteq> SYS_GETATT \<longrightarrow> f = (\<lambda>_. gpr_rdx (en_gpr en))"
    by (auto simp: handle_syscall_def Let_def obind_Ret split: if_splits prod.splits)
  with ret [of "en_gpr en" res f] show ?thesis by auto
qed

theorem syscall_registers_witness:
  "\<exists>en'. handle_syscall quiet_shim (quiet_enclave SYS_GETKEY) = Some (Ret en') \<and>
     gpr_rip (en_gpr en') = 0x1002 \<and> gpr_rdx (en_gpr en') = 5"
proof -
  obtain en' where en': "handle_syscall quiet_shim (quiet_enclave SYS_GETKEY) = Some (Ret en')"
    by (simp add: handle_syscall_def Let_def quiet_enclave_def split_beta)
  from syscall_registers [OF this] en' show ?thesis
    by (auto simp: quiet_enclave_def SYS_GETKEY_def SYS_GETATT_def)
qed

lemma Ok_eq_rmap: "Ok y = rmap f r \<longleftrightarrow> (\<exists>x. r = Ok x \<and> y = f x)"
  using rmap_Inr by metis

lemma quote_bounded:
  assumes "handler_get_sgx_quote host h report quote = Ret (Ok n, b, h')"
  shows "unat n \<le> length quote"
  using fills_safe(3) [of h quote host report] assms by (auto simp: fills_safely_def read_post_def)

lemma attestation_bounded:
  assumes "sgx_get_attestation insns pf host hash hash_len buf buf_len g = Ret (Ok (n, tech), g')"
    and "buf \<noteq> 0" "\<not> si_disable_attestation insns"
  shows "unat n \<le> unat buf_len \<and> hash_len = 64 \<and> tech = SGX_TECH"
proof -
  obtain r t h where t: "handler_get_sgx_target_info host (g_handler g) (\<lambda>_. 0) = Ret (r, t, h)"
    using target_info_returns by blast
  obtain r' h' where s: "handler_get_sgx_quote_size host h = Ret (r', h')"
    using quote_size_returns by blast
  from assms t s obtain data quote q h'' where
    "load_bytes_mut pf (g_mem g) buf buf_len = Ok quote" "hash_len = 64" "tech = SGX_TECH"
    "handler_get_sgx_quote host h' (si_ereport insns t data) quote = Ret (Ok n, q, h'')"
    by (cases r; cases r') (auto simp: sgx_get_attestation_def Let_def validated_def obind_Ret rmap_Inr Ok_eq_rmap split: if_splits sum.splits)
  then show ?thesis
    using quote_bounded load_bytes_mut_length by metis
qed

text \<open>C27: asking for an attestation is safe for any host, any validation of pointers and any arguments. It
  returns or gives up and changes only the buffer for the quote; when it returns a quote, the length is
  within that buffer and 64 bytes of data were given.\<close>

theorem attestation_safe:
  assumes "guest_ok g"
  shows "confined g (area buf (unat buf_len)) (sgx_get_attestation insns pf host hash hash_len buf buf_len g) \<and>
    (\<forall>n tech g'. sgx_get_attestation insns pf host hash hash_len buf buf_len g = Ret (Ok (n, tech), g') \<and>
       buf \<noteq> 0 \<and> \<not> si_disable_attestation insns \<longrightarrow> unat n \<le> unat buf_len \<and> hash_len = 64 \<and> tech = SGX_TECH)"
  using attestation_confined [OF assms] attestation_bounded by blast

theorem attestation_safe_witness:
  "confined quiet_guest {0x3000 ..< 0x3100}
     (sgx_get_attestation (sx_insns quiet_shim) UserMemScope (env_host (sx_memory quiet_shim)) 0x2000 64 0x3000 256 quiet_guest)"
proof -
  have "guest_ok quiet_guest"
    using quiet_ok [of 0] by (simp add: enclave_ok_def quiet_enclave_def)
  from attestation_safe [OF this, of "0x3000" 256] show ?thesis by (simp add: area_def)
qed



lemma sgx_mmap_refused:
  "n \<noteq> 0 \<Longrightarrow> sgx_mmap env None n (PROT_WRITE OR PROT_EXEC OR PROT_READ) (MAP_PRIVATE OR MAP_ANONYMOUS) (- 1) 0 k =
      Ret (Err EACCES, k)"
  by (simp add: sgx_mmap_def Let_def is_prot_allowed_def libc_consts)

text \<open>Growing a mapping fails on SGX. \<^verbatim>\<open>mremap\<close> asks for memory that is writable and executable,
  which the shim never grants, so that every valid request to grow a mapping that may move is refused
  with \<^verbatim>\<open>EACCES\<close> and changes nothing.\<close>

theorem mremap_growth_refused:
  assumes "old \<noteq> 0" "old_size < new_size"
  shows "handler_syscall (sgx_shim_env sx) [SYS_mremap, old, old_size, new_size, as_usize MREMAP_MAYMOVE, 0, x] g =
    Some (Ret (Err EACCES, g))"
proof -
  have n: "new_size \<noteq> 0" "new_size \<noteq> old_size" "\<not> new_size < old_size" using assms(2) by auto
  have f: "mremap_flags_of (as_int (as_usize MREMAP_MAYMOVE)) 0 = Ok (Some \<lparr>mf_fixed = None, mf_dontunmap = False\<rparr>)"
    by (simp add: mremap_flags_of_def libc_consts)
  have "handler_mremap (sgx_shim_env sx) old old_size new_size (Some \<lparr>mf_fixed = None, mf_dontunmap = False\<rparr>) g =
      Ret (Err EACCES, g)"
    using assms n by (simp add: handler_mremap_def Let_def sgx_shim_env_def sgx_ops_def on_keep_def sgx_mmap_refused
        validated_def UserMemScope_def is_aligned_non_null_def u8_layout_def ok_or_def ex_bool_eq)
  then have "dispatch_mremap (sgx_shim_env sx) [old, old_size, new_size, as_usize MREMAP_MAYMOVE, 0, x] g = Ret (Err EACCES, g)"
    using assms(1) f by (simp add: dispatch_mremap_def non_null_or_def validated_def reply_shim_def)
  then show ?thesis
    by (simp add: handler_syscall_def syscall_plain_def syscall_pointer_def syscall_memory_def Let_def libc_consts)
qed

theorem mremap_growth_refused_witness:
  "handler_syscall (sgx_shim_env quiet_shim) [SYS_mremap, 0x11000, 4096, 8192, as_usize MREMAP_MAYMOVE, 0, 0] quiet_guest =
    Some (Ret (Err EACCES, quiet_guest))"
  by (rule mremap_growth_refused) simp_all

text \<open>C26: the check of the block at the entry of the enclave is exact. As long as neither region wraps
  around the address space, \<^verbatim>\<open>main\<close> goes on exactly when there is a state save area for the exception and
  no byte of the block lies in the enclave, although it compares only the two ends of the block.\<close>

theorem block_check_exact:
  assumes "unat block_start + unat BLOCK_SIZE < usize_limit" "unat shim_start + unat ENCL_SIZE < usize_limit"
  shows "main_action shim_start block_start cssa \<noteq> None \<longleftrightarrow>
    cssa < 3 \<and> area block_start (unat BLOCK_SIZE) \<inter> area shim_start (unat ENCL_SIZE) = {}"
proof -
  have sizes: "unat BLOCK_SIZE = 69632" "unat ENCL_SIZE = 4294967296"
    by (simp_all add: BLOCK_SIZE_def ENCL_SIZE_def push_bit_eq_mult)
  have "unat (block_start + BLOCK_SIZE) = unat block_start + 69632" "unat (shim_start + ENCL_SIZE) = unat shim_start + 4294967296"
    using assms unfolding sizes [symmetric] by (simp_all add: unat_plus_if' usize_limit_def)
  then have "block_rejected shim_start block_start \<longleftrightarrow>
      unat block_start < unat shim_start + 4294967296 \<and> unat shim_start < unat block_start + 69632"
    by (auto simp: block_rejected_def Let_def word_le_nat_alt word_less_nat_alt)
  moreover have "area block_start 69632 \<inter> area shim_start 4294967296 = {} \<longleftrightarrow>
      \<not> (unat block_start < unat shim_start + 4294967296 \<and> unat shim_start < unat block_start + 69632)"
    by (auto simp: area_def)
  ultimately show ?thesis
    unfolding sizes by (auto simp: main_action_def)
qed

theorem block_check_exact_witness:
  "main_action 0x7f0000000000 0x10000 1 \<noteq> None \<longleftrightarrow>
    area (0x10000 :: usize) (unat BLOCK_SIZE) \<inter> area 0x7f0000000000 (unat ENCL_SIZE) = {}"
  using block_check_exact [of "0x10000" "0x7f0000000000" 1]
  by (simp add: BLOCK_SIZE_def ENCL_SIZE_def usize_limit_def push_bit_eq_mult)

end
