(* ===== verification/Snp_Attestation.thy ===== *)
theory Snp_Attestation
  imports Prelude
begin

text \<open>
  The encoding of an SEV-SNP attestation (\<^verbatim>\<open>crates/shim-kvm/src/snp/attestation.rs\<close>): a DER sequence
  of the certificate of the processor and an octet string with the report.

  A buffer is a list of bytes. A function that writes to a buffer returns the buffer, too; it panics
  when it indexes or splits the buffer beyond its end. The encoding is compared with a definition of
  DER lengths (X.690, 10.1: the minimum number of octets) and read back by a decoder.
\<close>

section \<open>The encoder\<close>

type_synonym writer = "byte list \<Rightarrow> (nat option \<times> byte list) outcome"

definition to_be_bytes :: "nat \<Rightarrow> byte list" where
  "to_be_bytes len = rev (le_bytes 4 len)"

definition put_bytes :: "byte list \<Rightarrow> writer" where
  "put_bytes bs buf = (if length bs \<le> length buf then Ret (Some (length bs), bs @ drop (length bs) buf) else Panic)"

definition write_asn_header :: "byte \<Rightarrow> nat \<Rightarrow> writer" where
  "write_asn_header tag len header =
     (if 2 ^ 32 \<le> len then Ret (None, header)
      else case to_be_bytes len of
        [byte3, byte2, byte1, byte0] \<Rightarrow>
          if byte3 = 0 \<and> byte2 = 0 \<and> byte1 = 0 \<and> byte0 < 0x80 then put_bytes [tag, byte0] header
          else if byte3 = 0 \<and> byte2 = 0 \<and> byte1 = 0 then put_bytes [tag, 0x81, byte0] header
          else if byte3 = 0 \<and> byte2 = 0 then put_bytes [tag, 0x82, byte1, byte0] header
          else if byte3 = 0 then put_bytes [tag, 0x83, byte2, byte1, byte0] header
          else put_bytes [tag, 0x84, byte3, byte2, byte1, byte0] header)"

definition calc_asn_header_len :: "nat \<Rightarrow> nat option" where
  "calc_asn_header_len len =
     (if 2 ^ 32 \<le> len then None
      else case to_be_bytes len of
        [byte3, byte2, byte1, byte0] \<Rightarrow>
          if byte3 = 0 \<and> byte2 = 0 \<and> byte1 = 0 \<and> byte0 < 0x80 then Some 2
          else if byte3 = 0 \<and> byte2 = 0 \<and> byte1 = 0 then Some 3
          else if byte3 = 0 \<and> byte2 = 0 then Some 4
          else if byte3 = 0 then Some 5
          else Some 6)"

definition asn_wrap :: "(nat \<Rightarrow> writer) \<Rightarrow> writer \<Rightarrow> nat option \<Rightarrow> writer" where
  "asn_wrap header_f body_f body_len chunks =
     (case body_len of None \<Rightarrow> Ret (None, chunks) | Some body_len \<Rightarrow>
      case calc_asn_header_len body_len of None \<Rightarrow> Ret (None, chunks) | Some header_len \<Rightarrow>
        if length chunks < header_len then Panic
        else
          obind (body_f (drop header_len chunks)) (\<lambda>(r, body_chunk).
          case r of None \<Rightarrow> Ret (None, take header_len chunks @ body_chunk) | Some copied_body_len \<Rightarrow>
          obind (header_f body_len (take header_len chunks)) (\<lambda>(r, head_chunk).
          case r of None \<Rightarrow> Ret (None, head_chunk @ body_chunk) | Some copied_header_len \<Rightarrow>
            Ret (checked_add copied_header_len copied_body_len, head_chunk @ body_chunk))))"

definition ASN_SECTION_CONSTRUCTED :: byte where
  "ASN_SECTION_CONSTRUCTED = 0x30"

definition ASN_OCTET_STRING :: byte where
  "ASN_OCTET_STRING = 0x04"

definition vcek_report :: "byte list \<Rightarrow> byte list \<Rightarrow> writer" where
  "vcek_report report vcek chunks =
     (if length chunks < length vcek then Panic
      else obind (asn_wrap (write_asn_header ASN_OCTET_STRING) (put_bytes report) (Some (length report))
                    (drop (length vcek) chunks)) (\<lambda>(r, rest).
             Ret (Option.bind r (\<lambda>report_chunk_len. checked_add report_chunk_len (length vcek)), vcek @ rest)))"

definition vcek_report_len :: "byte list \<Rightarrow> byte list \<Rightarrow> nat option" where
  "vcek_report_len report vcek =
     Option.bind (calc_asn_header_len (length report)) (\<lambda>header_len.
     Option.bind (checked_add (length report) header_len) (\<lambda>len. checked_add len (length vcek)))"

definition asn1_encode_report_vcek :: "byte list \<Rightarrow> byte list \<Rightarrow> writer" where
  "asn1_encode_report_vcek report vcek =
     asn_wrap (write_asn_header ASN_SECTION_CONSTRUCTED) (vcek_report report vcek) (vcek_report_len report vcek)"

section \<open>DER\<close>

function be_digits :: "nat \<Rightarrow> byte list" where
  "be_digits n = (if n = 0 then [] else be_digits (n div 256) @ [of_nat n])"
  by auto
termination
  by (relation "measure id") auto

declare be_digits.simps [simp del]

definition der_length :: "nat \<Rightarrow> byte list" where
  "der_length n = (if n < 128 then [of_nat n] else of_nat (128 + length (be_digits n)) # be_digits n)"

definition der :: "byte \<Rightarrow> byte list \<Rightarrow> byte list" where
  "der tag body = tag # der_length (length body) @ body"

definition der_report_vcek :: "byte list \<Rightarrow> byte list \<Rightarrow> byte list" where
  "der_report_vcek report vcek = der ASN_SECTION_CONSTRUCTED (vcek @ der ASN_OCTET_STRING report)"

text \<open>The decoder gives the tag, the contents and the rest of the input.\<close>

definition split_body :: "byte \<Rightarrow> nat \<Rightarrow> byte list \<Rightarrow> (byte \<times> byte list \<times> byte list) option" where
  "split_body tag n bs = (if length bs < n then None else Some (tag, take n bs, drop n bs))"

fun der_item :: "byte list \<Rightarrow> (byte \<times> byte list \<times> byte list) option" where
  "der_item (tag # l # bs) =
     (if l < 128 then split_body tag (unat l) bs
      else let k = unat l - 128
           in if length bs < k then None else split_body tag (le_nat (rev (take k bs))) (drop k bs))"
| "der_item bs = None"

definition decode_report_vcek :: "byte list \<Rightarrow> (byte list \<times> byte list) option" where
  "decode_report_vcek bs =
     (case der_item bs of None \<Rightarrow> None | Some (tag, body, _) \<Rightarrow>
      case der_item body of None \<Rightarrow> None | Some (_, _, rest) \<Rightarrow>
      case der_item rest of None \<Rightarrow> None | Some (tag', report, rest') \<Rightarrow>
        if tag = ASN_SECTION_CONSTRUCTED \<and> tag' = ASN_OCTET_STRING \<and> rest' = []
        then Some (take (length body - length rest) body, report) else None)"

section \<open>Headers\<close>

lemma to_be_bytes_eq:
  "to_be_bytes n = [of_nat (n div 16777216), of_nat (n div 65536), of_nat (n div 256), of_nat n]"
proof -
  have "4 = Suc (Suc (Suc (Suc 0)))" by simp
  moreover have "n div 65536 = n div 256 div 256" "n div 16777216 = n div 256 div 256 div 256"
    using div_mult2_eq [of n 256 256] div_mult2_eq [of n 65536 256] by simp_all
  ultimately show ?thesis
    by (simp only: to_be_bytes_def le_bytes.simps rev.simps append.simps)
qed

lemma byte_zero: "x < 256 \<Longrightarrow> (of_nat x :: byte) = 0 \<longleftrightarrow> x = 0"
  by (auto simp: word_of_nat_eq_0_iff dest: nat_dvd_not_less)

lemma byte_small: "x < 256 \<Longrightarrow> (of_nat x :: byte) < 128 \<longleftrightarrow> x < 128"
  by (simp add: word_less_nat_alt unat_of_nat)

lemma be_digits_small: "0 < n \<Longrightarrow> n < 256 \<Longrightarrow> be_digits n = [of_nat n]"
  by (subst be_digits.simps) (simp add: be_digits.simps [of 0])

lemma be_digits_cases:
  assumes "n < 4294967296"
  shows "be_digits n =
    (if n = 0 then [] else if n < 256 then [of_nat n]
     else if n < 65536 then [of_nat (n div 256), of_nat n]
     else if n < 16777216 then [of_nat (n div 65536), of_nat (n div 256), of_nat n]
     else [of_nat (n div 16777216), of_nat (n div 65536), of_nat (n div 256), of_nat n])"
proof -
  have d: "n div 256 div 256 = n div 65536" "n div 65536 div 256 = n div 16777216"
    using div_mult2_eq [of n 256 256] div_mult2_eq [of n 65536 256] by simp_all
  have step: "0 < x \<Longrightarrow> be_digits x = be_digits (x div 256) @ [of_nat x]" for x
    by (subst be_digits.simps) simp
  have 2: "be_digits n = [of_nat (n div 256), of_nat n]" if "256 \<le> n" "n < 65536"
    using that step [of n] be_digits_small [of "n div 256"] by simp
  have 3: "be_digits n = [of_nat (n div 65536), of_nat (n div 256), of_nat n]" if "65536 \<le> n" "n < 16777216"
    using that step [of n] step [of "n div 256"] be_digits_small [of "n div 65536"] d by simp
  have 4: "be_digits n = [of_nat (n div 16777216), of_nat (n div 65536), of_nat (n div 256), of_nat n]" if "16777216 \<le> n"
    using that assms step [of n] step [of "n div 256"] step [of "n div 65536"] be_digits_small [of "n div 16777216"] d by simp
  show ?thesis
    using 2 3 4 be_digits_small [of n] by (simp add: be_digits.simps [of 0])
qed

lemma header_cases:
  assumes "n < 4294967296"
  obtains "n < 128" "to_be_bytes n = [0, 0, 0, of_nat n]" "of_nat n < (128 :: byte)" "der_length n = [of_nat n]"
  | b where "128 \<le> n" "to_be_bytes n = [0, 0, 0, b]" "\<not> b < 128" "der_length n = [0x81, b]"
  | a b where "to_be_bytes n = [0, 0, a, b]" "a \<noteq> 0" "der_length n = [0x82, a, b]"
  | c a b where "to_be_bytes n = [0, c, a, b]" "c \<noteq> 0" "der_length n = [0x83, c, a, b]"
  | d c a b where "to_be_bytes n = [d, c, a, b]" "d \<noteq> 0" "der_length n = [0x84, d, c, a, b]"
proof -
  consider "n < 128" | "128 \<le> n" "n < 256" | "256 \<le> n" "n < 65536" | "65536 \<le> n" "n < 16777216" | "16777216 \<le> n"
    by linarith
  then show thesis
  proof cases
    case 1 then show ?thesis
      by (intro that(1)) (simp_all add: to_be_bytes_eq der_length_def byte_small)
  next
    case 2 then show ?thesis
      by (intro that(2) [of "of_nat n"]) (simp_all add: to_be_bytes_eq der_length_def byte_small be_digits_small)
  next
    case 3 then show ?thesis
      by (intro that(3) [of "of_nat (n div 256)" "of_nat n"])
        (simp_all add: to_be_bytes_eq der_length_def byte_zero be_digits_cases)
  next
    case 4 then show ?thesis
      by (intro that(4) [of "of_nat (n div 65536)" "of_nat (n div 256)" "of_nat n"])
        (simp_all add: to_be_bytes_eq der_length_def byte_zero be_digits_cases)
  next
    case 5 then show ?thesis
      using assms
      by (intro that(5) [of "of_nat (n div 16777216)" "of_nat (n div 65536)" "of_nat (n div 256)" "of_nat n"])
        (simp_all add: to_be_bytes_eq der_length_def byte_zero be_digits_cases)
  qed
qed

text \<open>The two functions of the source agree with the definition, and with each other.\<close>

lemma calc_header: "calc_asn_header_len n = (if n < 2 ^ 32 then Some (1 + length (der_length n)) else None)"
proof (cases "n < 4294967296")
  case True
  then show ?thesis
    by (cases rule: header_cases) (simp_all add: calc_asn_header_len_def)
qed (simp add: calc_asn_header_len_def)

lemma write_header:
  "n < 2 ^ 32 \<Longrightarrow> write_asn_header tag n header = put_bytes (tag # der_length n) header"
proof -
  assume "n < 2 ^ 32"
  then have n: "n < 4294967296" by simp
  then show ?thesis
    by (cases rule: header_cases) (use n in \<open>simp_all add: write_asn_header_def\<close>)
qed

lemma length_der_length: "n < 2 ^ 32 \<Longrightarrow> length (der_length n) \<le> 5"
proof -
  assume "n < 2 ^ 32"
  then have "n < 4294967296" by simp
  then show ?thesis by (cases rule: header_cases) simp_all
qed

lemma length_der: "length (der tag bs) = 1 + length (der_length (length bs)) + length bs"
  by (simp add: der_def)

section \<open>The encoder writes DER\<close>

lemma asn_wrap_put:
  assumes "length bs < 2 ^ 32"
  shows "asn_wrap (write_asn_header tag) (put_bytes bs) (Some (length bs)) = put_bytes (der tag bs)"
proof
  fix chunks :: "byte list"
  let ?h = "tag # der_length (length bs)"
  have b: "length bs < 4294967296"
    using assms by simp
  have small: "length ?h + length bs < usize_limit"
    using length_der_length [OF assms] assms by (simp add: usize_limit_def)
  consider "length chunks < length ?h" | "length ?h \<le> length chunks" "length chunks < length ?h + length bs"
    | "length ?h + length bs \<le> length chunks" by linarith
  then show "asn_wrap (write_asn_header tag) (put_bytes bs) (Some (length bs)) chunks = put_bytes (der tag bs) chunks"
  proof cases
    case 3
    then have "put_bytes ?h (take (length ?h) chunks) = Ret (Some (length ?h), ?h)"
      by (simp add: put_bytes_def)
    moreover have "length bs \<le> length chunks - length ?h"
      using 3 by simp
    ultimately show ?thesis
      using 3 small b by (simp add: asn_wrap_def calc_header write_header put_bytes_def der_def checked_add_def add.commute)
  qed (use b in \<open>auto simp: asn_wrap_def calc_header put_bytes_def length_der\<close>)
qed

lemma vcek_report_put:
  assumes "length report < 2 ^ 32" "length (vcek @ der ASN_OCTET_STRING report) < 2 ^ 32"
  shows "vcek_report report vcek = put_bytes (vcek @ der ASN_OCTET_STRING report)"
proof
  fix chunks :: "byte list"
  have "length vcek + length (der ASN_OCTET_STRING report) < usize_limit"
    using assms(2) by (simp add: usize_limit_def)
  then show "vcek_report report vcek chunks = put_bytes (vcek @ der ASN_OCTET_STRING report) chunks"
    by (auto simp: vcek_report_def asn_wrap_put [OF assms(1)] put_bytes_def checked_add_def add.commute)
qed

lemma asn1_encode_put:
  "asn1_encode_report_vcek report vcek chunks =
     (if length report < 2 ^ 32 \<and> length (vcek @ der ASN_OCTET_STRING report) < 2 ^ 32
      then put_bytes (der_report_vcek report vcek) chunks else Ret (None, chunks))"
proof (cases "length report < 2 ^ 32")
  case report: True
  let ?n = "length (vcek @ der ASN_OCTET_STRING report)"
  have len: "vcek_report_len report vcek = (if ?n < usize_limit then Some ?n else None)"
    using report length_der_length [OF report]
    by (simp add: vcek_report_len_def calc_header checked_add_def length_der usize_limit_def)
  show ?thesis
  proof (cases "?n < 2 ^ 32")
    case True
    then have "?n < usize_limit" by (simp add: usize_limit_def)
    then show ?thesis
      using len True report asn_wrap_put [OF True, of ASN_SECTION_CONSTRUCTED]
      by (simp add: asn1_encode_report_vcek_def vcek_report_put der_report_vcek_def)
  next
    case False
    then show ?thesis
      using len by (auto simp: asn1_encode_report_vcek_def asn_wrap_def calc_header split: option.splits)
  qed
next
  case False
  then show ?thesis
    by (simp add: asn1_encode_report_vcek_def vcek_report_len_def asn_wrap_def calc_header)
qed

section \<open>Decoding\<close>

lemma be_value: "n < 4294967296 \<Longrightarrow> le_nat (rev (to_be_bytes n)) = n"
  by (simp add: to_be_bytes_def le_nat_le_bytes)

lemma der_item_der:
  assumes "length bs < 2 ^ 32"
  shows "der_item (der tag bs @ rest) = Some (tag, bs, rest)"
proof -
  have n: "length bs < 4294967296" using assms by simp
  then show ?thesis
    by (cases rule: header_cases) (use be_value [OF n] in \<open>simp_all add: der_def split_body_def Let_def unat_of_nat\<close>)
qed

lemma split_body_append:
  "split_body tag n bs = Some (t, b, r) \<Longrightarrow> split_body tag n (bs @ xs) = Some (t, b, r @ xs)"
  by (auto simp: split_body_def split: if_splits)

lemma der_item_append: "der_item bs = Some (t, b, r) \<Longrightarrow> der_item (bs @ xs) = Some (t, b, r @ xs)"
  by (cases bs rule: der_item.cases)
    (auto simp: Let_def split: if_splits dest: split_body_append [where xs = xs])

section \<open>Properties\<close>

text \<open>C20: the encoder computes the DER encoding, with lengths in the minimum number of octets. It writes the
  encoding to the start of the buffer and leaves the rest alone; it panics exactly when the buffer is too
  small for it, and gives up when a length does not fit 32 bits.\<close>

theorem asn1_encode_exact:
  "asn1_encode_report_vcek report vcek chunks =
     (let enc = der_report_vcek report vcek
      in if 2 ^ 32 \<le> length report \<or> 2 ^ 32 \<le> length (vcek @ der ASN_OCTET_STRING report) then Ret (None, chunks)
         else if length chunks < length enc then Panic
         else Ret (Some (length enc), enc @ drop (length enc) chunks))"
  by (auto simp: asn1_encode_put put_bytes_def Let_def)

text \<open>C19: an encoded attestation can be read back: when the certificate is one DER element, decoding the bytes
  the encoder reports to have written yields the certificate and the report.\<close>

theorem asn1_roundtrip:
  assumes "der_item vcek = Some (t, b, [])"
    and "asn1_encode_report_vcek report vcek chunks = Ret (Some n, chunks')"
  shows "decode_report_vcek (take n chunks') = Some (vcek, report)"
proof -
  let ?body = "vcek @ der ASN_OCTET_STRING report"
  have len: "length report < 2 ^ 32" "length ?body < 2 ^ 32" and out: "take n chunks' = der ASN_SECTION_CONSTRUCTED ?body"
    using assms(2) by (auto simp: asn1_encode_put put_bytes_def der_report_vcek_def split: if_splits)
  have "der_item (der ASN_SECTION_CONSTRUCTED ?body) = Some (ASN_SECTION_CONSTRUCTED, ?body, [])"
    using der_item_der [OF len(2), of ASN_SECTION_CONSTRUCTED "[]"] by simp
  moreover have "der_item ?body = Some (t, b, der ASN_OCTET_STRING report)"
    using der_item_append [OF assms(1)] by simp
  moreover have "der_item (der ASN_OCTET_STRING report) = Some (ASN_OCTET_STRING, report, [])"
    using der_item_der [OF len(1), of ASN_OCTET_STRING "[]"] by simp
  ultimately show ?thesis
    unfolding out decode_report_vcek_def by simp
qed

theorem asn1_roundtrip_witness:
  "\<exists>n chunks'. asn1_encode_report_vcek [1, 2] [0x30, 1, 5] (replicate 20 0) = Ret (Some n, chunks') \<and>
     decode_report_vcek (take n chunks') = Some ([0x30, 1, 5], [1, 2])"
proof -
  obtain n chunks' where e: "asn1_encode_report_vcek [1, 2] [0x30, 1, 5] (replicate 20 0) = Ret (Some n, chunks')"
    by (auto simp: asn1_encode_put put_bytes_def der_report_vcek_def der_def der_length_def)
  have "der_item [0x30, 1, 5] = Some (0x30, [5], [])"
    by (simp add: split_body_def)
  from asn1_roundtrip [OF this e] e show ?thesis by blast
qed

end
