(* ===== verification/Snp_Messages.thy ===== *)
theory Snp_Messages
  imports Libc
begin

text \<open>
  Messages between the shim and the SEV-SNP firmware (\<^verbatim>\<open>crates/shim-kvm/src/snp/ghcb.rs\<close> and
  \<^verbatim>\<open>snp/secrets_page.rs\<close>). A request is sealed with a key only the firmware shares and put into a page
  the host can read and write; the host passes it to the firmware, and the response comes back
  the same way.

  The state has the communication block and the two message pages, all of them shared with the
  host, and the key and sequence number of the secrets page, which are private. The host is a function
  that changes the shared pages at every exit to it; the cipher AES-256-GCM is a parameter. The
  field \<open>sn_sealed\<close> is not part of the program: it records the nonces a message was sealed with.
\<close>

unbundle bit_operations_syntax

section \<open>Shared pages\<close>

definition MAX_AUTHTAG_LEN :: nat where
  "MAX_AUTHTAG_LEN = 32"

definition SNP_GUEST_MSG_PAYLOAD_LEN :: nat where
  "SNP_GUEST_MSG_PAYLOAD_LEN = 4000"

definition SNP_ATTESTATION_LEN_MAX :: nat where
  "SNP_ATTESTATION_LEN_MAX = SNP_GUEST_MSG_PAYLOAD_LEN"

definition MSG_HDR_VER :: byte where
  "MSG_HDR_VER = 1"

record snp_guest_msg_hdr =
  mh_authtag :: "byte list"
  mh_msg_seqno :: "64 word"
  mh_rsvd1 :: "byte list"
  mh_algo :: byte
  mh_hdr_version :: byte
  mh_hdr_sz :: "16 word"
  mh_msg_type :: byte
  mh_msg_version :: byte
  mh_msg_sz :: "16 word"
  mh_rsvd2 :: "32 word"
  mh_msg_vmpck :: byte
  mh_rsvd3 :: "byte list"

record snp_guest_msg =
  gm_hdr :: snp_guest_msg_hdr
  gm_payload :: "byte list"

definition snp_guest_msg_default :: snp_guest_msg where
  "snp_guest_msg_default =
     \<lparr>gm_hdr = \<lparr>mh_authtag = replicate MAX_AUTHTAG_LEN 0, mh_msg_seqno = 0, mh_rsvd1 = replicate 8 0, mh_algo = 0,
        mh_hdr_version = 0, mh_hdr_sz = 0, mh_msg_type = 0, mh_msg_version = 0, mh_msg_sz = 0, mh_rsvd2 = 0,
        mh_msg_vmpck = 0, mh_rsvd3 = replicate 35 0\<rparr>,
      gm_payload = replicate SNP_GUEST_MSG_PAYLOAD_LEN 0\<rparr>"

datatype snp_msg_type = KeyReq | KeyRsp | ReportReq | ReportRsp

fun msg_type_code :: "snp_msg_type \<Rightarrow> byte" where
  "msg_type_code KeyReq = 3"
| "msg_type_code KeyRsp = 4"
| "msg_type_code ReportReq = 5"
| "msg_type_code ReportRsp = 6"

definition SnpAeadAes256Gcm :: byte where
  "SnpAeadAes256Gcm = 1"

definition msg_hdr_size :: "16 word" where
  "msg_hdr_size = 96"

text \<open>The associated data: the 48 bytes of the header from \<^verbatim>\<open>algo\<close> on.\<close>

definition assoc_data :: "snp_guest_msg_hdr \<Rightarrow> byte list" where
  "assoc_data h =
     [mh_algo h, mh_hdr_version h] @ le_bytes 2 (unat (mh_hdr_sz h)) @ [mh_msg_type h, mh_msg_version h] @
     le_bytes 2 (unat (mh_msg_sz h)) @ le_bytes 4 (unat (mh_rsvd2 h)) @ [mh_msg_vmpck h] @ mh_rsvd3 h"

definition seqno_nonce :: "64 word \<Rightarrow> byte list" where
  "seqno_nonce seqno = le_bytes 8 (unat seqno) @ replicate 4 0"

record ghcb =
  gh_rax :: "64 word"
  gh_rbx :: "64 word"
  gh_sw_exit_code :: "64 word"
  gh_sw_exit_info1 :: "64 word"
  gh_sw_exit_info2 :: "64 word"
  gh_sw_scratch :: "64 word"
  gh_valid_bitmap :: "byte list"
  gh_protocol_version :: "16 word"
  gh_usage :: "32 word"

section \<open>State\<close>

record 'w snp =
  sn_ghcb :: ghcb
  sn_request :: snp_guest_msg
  sn_response :: snp_guest_msg
  sn_msg_seqno_0 :: "32 word"
  sn_vmpck0 :: "byte list"
  sn_world :: 'w
  sn_sealed :: "byte list list"

text \<open>What the host does at an exit, and the cipher: sealing gives the ciphertext and the tag.\<close>

type_synonym 'w vmm = "'w \<Rightarrow> ghcb \<Rightarrow> snp_guest_msg \<Rightarrow> snp_guest_msg \<Rightarrow> ghcb \<times> snp_guest_msg \<times> snp_guest_msg \<times> 'w"

record aead =
  ae_seal :: "byte list \<Rightarrow> byte list \<Rightarrow> byte list \<Rightarrow> byte list \<Rightarrow> (byte list \<times> byte list) option"
  ae_open :: "byte list \<Rightarrow> byte list \<Rightarrow> byte list \<Rightarrow> byte list \<Rightarrow> byte list \<Rightarrow> byte list option"

record 'w snp_env =
  sv_vmm :: "'w vmm"
  sv_aead :: aead
  sv_req_gpa :: "64 word"
  sv_resp_gpa :: "64 word"

section \<open>The communication block\<close>

definition invalidate :: "ghcb \<Rightarrow> ghcb" where
  "invalidate g = g\<lparr>gh_sw_exit_code := 0, gh_valid_bitmap := map (\<lambda>_. 0) (gh_valid_bitmap g)\<rparr>"

text \<open>The offset of a field in the block; the index is out of bounds for a field behind the bitmap.\<close>

definition set_offset_valid :: "nat \<Rightarrow> ghcb \<Rightarrow> ghcb outcome" where
  "set_offset_valid offset g =
     (let offset = offset div 8; i = offset div 8; bm = gh_valid_bitmap g
      in if length bm \<le> i then Panic
         else Ret (g\<lparr>gh_valid_bitmap := bm[i := bm ! i OR push_bit (offset mod 8) 1]\<rparr>))"

datatype ghcb_error = VmmError | Exception

definition vmgexit_check :: "ghcb \<Rightarrow> ghcb_error + unit" where
  "vmgexit_check g =
     (if gh_sw_exit_info1 g AND 0xffffffff = 1
      then let exit_info2 = gh_sw_exit_info2 g; vector = exit_info2 AND 0xff
           in if exit_info2 AND push_bit 31 1 \<noteq> 0 \<and> exit_info2 AND push_bit 8 7 = push_bit 8 3 \<and> (vector = 13 \<or> vector = 6)
              then Inl Exception else Inl VmmError
      else Inr ())"

definition vmgexit ::
  "'w snp_env \<Rightarrow> 64 word \<Rightarrow> 64 word \<Rightarrow> 64 word \<Rightarrow> 'w snp \<Rightarrow> ((ghcb_error + unit) \<times> 'w snp) outcome" where
  "vmgexit env exit_code exit_info_1 exit_info_2 s =
     obind (set_offset_valid 0x390 ((sn_ghcb s)\<lparr>gh_sw_exit_code := exit_code\<rparr>)) (\<lambda>g.
     obind (set_offset_valid 0x398 (g\<lparr>gh_sw_exit_info1 := exit_info_1\<rparr>)) (\<lambda>g.
     obind (set_offset_valid 0x3A0 (g\<lparr>gh_sw_exit_info2 := exit_info_2\<rparr>)) (\<lambda>g.
       let g = g\<lparr>gh_usage := 0, gh_protocol_version := 2\<rparr>;
           (g, req, resp, w) = sv_vmm env (sn_world s) g (sn_request s) (sn_response s)
       in Ret (vmgexit_check g, s\<lparr>sn_ghcb := g, sn_request := req, sn_response := resp, sn_world := w\<rparr>))))"

definition ghcb_guest_req :: "'w snp_env \<Rightarrow> 'w snp \<Rightarrow> ((64 word + unit) \<times> 'w snp) outcome" where
  "ghcb_guest_req env s =
     obind (vmgexit env 0x80000011 (sv_req_gpa env) (sv_resp_gpa env) (s\<lparr>sn_ghcb := invalidate (sn_ghcb s)\<rparr>)) (\<lambda>(r, s).
       Ret (case r of
              Inl _ \<Rightarrow> Inl (- 1)
            | Inr _ \<Rightarrow> if gh_sw_exit_info2 (sn_ghcb s) \<noteq> 0 then Inl (gh_sw_exit_info2 (sn_ghcb s)) else Inr (), s))"

section \<open>The secrets page\<close>

definition get_msg_seqno_0 :: "'w snp \<Rightarrow> 32 word outcome" where
  "get_msg_seqno_0 s = (if sn_msg_seqno_0 s = - 1 then Panic else Ret (sn_msg_seqno_0 s + 1))"

definition inc_msg_seqno_0 :: "'w snp \<Rightarrow> 'w snp outcome" where
  "inc_msg_seqno_0 s =
     (if unat (sn_msg_seqno_0 s) + 2 < 2 ^ 32 then Ret (s\<lparr>sn_msg_seqno_0 := sn_msg_seqno_0 s + 2\<rparr>) else Panic)"

section \<open>Messages\<close>

definition guest_req :: "'w snp_env \<Rightarrow> 'w snp \<Rightarrow> ((64 word + unit) \<times> 'w snp) outcome" where
  "guest_req env s =
     obind (ghcb_guest_req env (s\<lparr>sn_response := snp_guest_msg_default\<rparr>)) (\<lambda>(r, s).
       case r of
         Inl e \<Rightarrow> Ret (Inl e, s)
       | Inr _ \<Rightarrow> obind (inc_msg_seqno_0 s) (\<lambda>s. Ret (Inr (), s)))"

definition copy_prefix :: "byte list \<Rightarrow> byte list \<Rightarrow> byte list" where
  "copy_prefix bs xs = bs @ drop (length bs) xs"

definition enc_payload ::
  "'w snp_env \<Rightarrow> byte \<Rightarrow> snp_msg_type \<Rightarrow> byte list \<Rightarrow> 'w snp \<Rightarrow> (bool \<times> byte list \<times> 'w snp) outcome" where
  "enc_payload env version msg_type plaintext s =
     obind (get_msg_seqno_0 s) (\<lambda>seqno.
       let hdr = (gm_hdr (sn_request s))\<lparr>mh_algo := SnpAeadAes256Gcm, mh_hdr_version := MSG_HDR_VER,
                   mh_hdr_sz := msg_hdr_size, mh_msg_type := msg_type_code msg_type, mh_msg_version := version,
                   mh_msg_seqno := ucast seqno, mh_msg_vmpck := 0, mh_msg_sz := of_nat (length plaintext)\<rparr>;
           nonce = seqno_nonce (mh_msg_seqno hdr);
           s = s\<lparr>sn_request := (sn_request s)\<lparr>gm_hdr := hdr\<rparr>, sn_sealed := sn_sealed s @ [nonce]\<rparr>
       in case ae_seal (sv_aead env) (sn_vmpck0 s) nonce (assoc_data hdr) plaintext of
            None \<Rightarrow> Ret (False, plaintext, s)
          | Some (ciphertext, tag) \<Rightarrow>
              if SNP_GUEST_MSG_PAYLOAD_LEN < length plaintext \<or> length tag < 16 then Panic
              else Ret (True, ciphertext, s\<lparr>sn_request :=
                     \<lparr>gm_hdr = hdr\<lparr>mh_authtag := copy_prefix (take 16 tag) (mh_authtag hdr)\<rparr>,
                      gm_payload = copy_prefix ciphertext (gm_payload (sn_request s))\<rparr>\<rparr>))"

text \<open>Opening a response writes the plaintext to the start of the buffer. \<open>None\<close> is an error.\<close>

definition dec_payload ::
  "'w snp_env \<Rightarrow> byte list \<Rightarrow> snp_msg_type \<Rightarrow> 'w snp \<Rightarrow> byte list option outcome" where
  "dec_payload env plaintext expected_msg_type s =
     (let req = gm_hdr (sn_request s); resp = gm_hdr (sn_response s); sz = unat (mh_msg_sz resp)
      in if mh_msg_seqno req = - 1 then Ret None
         else if mh_msg_seqno req + 1 \<noteq> mh_msg_seqno resp then Ret None
         else if msg_type_code expected_msg_type \<noteq> mh_msg_type resp then Ret None
         else if mh_msg_version req \<noteq> mh_msg_version resp then Ret None
         else if mh_algo resp \<noteq> SnpAeadAes256Gcm then Ret None
         else if mh_hdr_sz resp \<noteq> msg_hdr_size then Ret None
         else if mh_msg_vmpck resp \<noteq> 0 then Ret None
         else if length plaintext < sz then Ret None
         else if SNP_GUEST_MSG_PAYLOAD_LEN < sz then Panic
         else case ae_open (sv_aead env) (sn_vmpck0 s) (seqno_nonce (mh_msg_seqno resp)) (assoc_data resp)
                     (take sz (gm_payload (sn_response s))) (take 16 (mh_authtag resp)) of
                None \<Rightarrow> Panic
              | Some opened \<Rightarrow> Ret (Some (copy_prefix opened plaintext)))"

text \<open>\<^verbatim>\<open>enc_payload\<close>, \<^verbatim>\<open>guest_req\<close> and \<^verbatim>\<open>dec_payload\<close>, all of them with \<^verbatim>\<open>expect\<close>.\<close>

definition exchange ::
  "'w snp_env \<Rightarrow> byte \<Rightarrow> snp_msg_type \<Rightarrow> byte list \<Rightarrow> snp_msg_type \<Rightarrow> byte list \<Rightarrow> 'w snp \<Rightarrow> (byte list \<times> 'w snp) outcome" where
  "exchange env version req_type request rsp_type response s =
     obind (enc_payload env version req_type request (s\<lparr>sn_request := snp_guest_msg_default\<rparr>)) (\<lambda>(ok, _, s).
       if \<not> ok then Panic
       else obind (guest_req env s) (\<lambda>(r, s).
         case r of
           Inl _ \<Rightarrow> Panic
         | Inr _ \<Rightarrow>
             obind (dec_payload env response rsp_type s) (\<lambda>opened.
               case opened of None \<Rightarrow> Panic | Some response \<Rightarrow> Ret (response, s))))"

section \<open>Requests\<close>

definition SNP_KEY_LEN :: nat where
  "SNP_KEY_LEN = 32"

definition key_req_bytes :: "32 word \<Rightarrow> byte list" where
  "key_req_bytes guest_svn =
     le_bytes 4 0 @ le_bytes 4 0 @ le_bytes 8 (unat (push_bit 4 1 OR 1 :: 64 word)) @ le_bytes 4 0 @
     le_bytes 4 (unat guest_svn) @ le_bytes 8 0"

definition snp_get_key :: "'w snp_env \<Rightarrow> byte \<Rightarrow> 32 word \<Rightarrow> 'w snp \<Rightarrow> (byte list result \<times> 'w snp) outcome" where
  "snp_get_key env version guest_svn s =
     obind (exchange env version KeyReq (key_req_bytes guest_svn) KeyRsp (replicate 64 0) s) (\<lambda>(response, s).
       let status = le_nat (take 4 response)
       in if status = 0 then Ret (Ok (take SNP_KEY_LEN (drop 32 response)), s)
          else if status = 0x16 then Ret (Err EIO, s)
          else Panic)"

definition snp_get_report ::
  "'w snp_env \<Rightarrow> byte \<Rightarrow> byte list \<Rightarrow> byte list \<Rightarrow> 'w snp \<Rightarrow> ((nat \<times> nat) result \<times> byte list \<times> 'w snp) outcome" where
  "snp_get_report env version nonce response s =
     (if length nonce \<noteq> 64 then Ret (Err EINVAL, response, s)
      else if length response < SNP_ATTESTATION_LEN_MAX then Ret (Err EINVAL, response, s)
      else obind (exchange env version ReportReq nonce ReportRsp response s) (\<lambda>(response, s).
        if unat (mh_msg_sz (gm_hdr (sn_response s))) < 32 then Ret (Err EIO, response, s)
        else
          let status = le_nat (take 4 response); sz = le_nat (take 4 (drop 4 response))
          in if status = 0 then Ret (Ok (32, sz), response, s)
             else if status = 0x16 then Ret (Err EIO, response, s)
             else Panic))"

section \<open>Nonces\<close>

text \<open>A sequence of requests; a panic ends it.\<close>

datatype snp_op = GetKey byte "32 word" | GetReport byte "byte list" "byte list"

fun snp_step :: "'w snp_env \<Rightarrow> snp_op \<Rightarrow> 'w snp \<Rightarrow> 'w snp outcome" where
  "snp_step env (GetKey version svn) s = obind (snp_get_key env version svn s) (\<lambda>(_, s). Ret s)"
| "snp_step env (GetReport version nonce response) s =
     obind (snp_get_report env version nonce response s) (\<lambda>(_, _, s). Ret s)"

fun snp_run :: "'w snp_env \<Rightarrow> snp_op list \<Rightarrow> 'w snp \<Rightarrow> 'w snp outcome" where
  "snp_run env [] s = Ret s"
| "snp_run env (op # ops) s = obind (snp_step env op s) (snp_run env ops)"

text \<open>What the host cannot change.\<close>

definition same_private :: "'w snp \<Rightarrow> 'w snp \<Rightarrow> bool" where
  "same_private s s' \<longleftrightarrow> sn_msg_seqno_0 s' = sn_msg_seqno_0 s \<and> sn_vmpck0 s' = sn_vmpck0 s \<and> sn_sealed s' = sn_sealed s"

lemma vmgexit_private: "vmgexit env code i1 i2 s = Ret (r, s') \<Longrightarrow> same_private s s'"
  by (auto simp: vmgexit_def obind_Ret Let_def same_private_def split_beta)

lemma ghcb_guest_req_private: "ghcb_guest_req env s = Ret (r, s') \<Longrightarrow> same_private s s'"
  by (auto simp: ghcb_guest_req_def obind_Ret same_private_def dest!: vmgexit_private)

lemma inr_unit: "(\<forall>e. r \<noteq> Inl e) \<Longrightarrow> r = Inr ()"
  by (cases r) auto

lemma guest_req_private:
  assumes "guest_req env s = Ret (Inr (), s')"
  shows "unat (sn_msg_seqno_0 s') = unat (sn_msg_seqno_0 s) + 2" "sn_vmpck0 s' = sn_vmpck0 s" "sn_sealed s' = sn_sealed s"
proof -
  obtain s1 where s1: "ghcb_guest_req env (s\<lparr>sn_response := snp_guest_msg_default\<rparr>) = Ret (Inr (), s1)"
    "inc_msg_seqno_0 s1 = Ret s'"
    using assms by (auto simp: guest_req_def obind_Ret split: sum.splits dest!: inr_unit)
  have "same_private s s1"
    using ghcb_guest_req_private [OF s1(1)] by (simp add: same_private_def)
  with s1(2) show "unat (sn_msg_seqno_0 s') = unat (sn_msg_seqno_0 s) + 2" "sn_vmpck0 s' = sn_vmpck0 s" "sn_sealed s' = sn_sealed s"
    by (auto simp: inc_msg_seqno_0_def same_private_def unat_word_ariths split: if_splits)
qed

definition next_nonce :: "'w snp \<Rightarrow> byte list" where
  "next_nonce s = seqno_nonce (of_nat (unat (sn_msg_seqno_0 s) + 1))"

lemma enc_payload_private:
  assumes "enc_payload env version ty bs s = Ret (ok, c, s')"
  shows "sn_sealed s' = sn_sealed s @ [next_nonce s]" "sn_msg_seqno_0 s' = sn_msg_seqno_0 s" "sn_vmpck0 s' = sn_vmpck0 s"
proof -
  have "sn_msg_seqno_0 s \<noteq> - 1"
    using assms by (auto simp: enc_payload_def get_msg_seqno_0_def split: if_splits)
  then have "unat (sn_msg_seqno_0 s + 1) = unat (sn_msg_seqno_0 s) + 1"
    using unatSuc [of "sn_msg_seqno_0 s"] by (simp add: add.commute eq_neg_iff_add_eq_0)
  then have "(ucast (sn_msg_seqno_0 s + 1) :: 64 word) = of_nat (unat (sn_msg_seqno_0 s) + 1)"
    by (metis of_nat_unat)
  then show "sn_sealed s' = sn_sealed s @ [next_nonce s]" "sn_msg_seqno_0 s' = sn_msg_seqno_0 s" "sn_vmpck0 s' = sn_vmpck0 s"
    using assms
    by (auto simp: enc_payload_def get_msg_seqno_0_def Let_def next_nonce_def split: if_splits option.splits)
qed

lemma exchange_private:
  assumes "exchange env version rt req rt' resp s = Ret (resp', s')"
  shows "sn_sealed s' = sn_sealed s @ [next_nonce s]" "unat (sn_msg_seqno_0 s') = unat (sn_msg_seqno_0 s) + 2"
    "sn_vmpck0 s' = sn_vmpck0 s"
proof -
  obtain c s1 where s1: "enc_payload env version rt req (s\<lparr>sn_request := snp_guest_msg_default\<rparr>) = Ret (True, c, s1)"
    "guest_req env s1 = Ret (Inr (), s')"
    using assms by (auto simp: exchange_def obind_Ret split: if_splits sum.splits option.splits dest!: inr_unit)
  note enc_payload_private [OF s1(1)] guest_req_private [OF s1(2)]
  then show "sn_sealed s' = sn_sealed s @ [next_nonce s]" "unat (sn_msg_seqno_0 s') = unat (sn_msg_seqno_0 s) + 2"
    "sn_vmpck0 s' = sn_vmpck0 s"
    by (simp_all add: next_nonce_def)
qed

text \<open>A step seals no message or exactly one, with the nonce of the next odd number.\<close>

lemma snp_step_private:
  assumes "snp_step env op s = Ret s'"
  shows "same_private s s' \<or>
    sn_sealed s' = sn_sealed s @ [next_nonce s] \<and> unat (sn_msg_seqno_0 s') = unat (sn_msg_seqno_0 s) + 2"
proof (cases op)
  case (GetKey version svn)
  with assms show ?thesis
    using exchange_private by (fastforce simp: snp_get_key_def obind_Ret Let_def split: if_splits)
next
  case (GetReport version nonce response)
  with assms show ?thesis
    using exchange_private
    by (fastforce simp: snp_get_report_def obind_Ret Let_def same_private_def split: if_splits)
qed

definition odd_nonces :: "nat \<Rightarrow> nat \<Rightarrow> byte list list" where
  "odd_nonces start m = map (\<lambda>i. seqno_nonce (of_nat (start + 2 * i + 1))) [0..<m]"

lemma snp_run_sealed:
  assumes "snp_run env ops s = Ret s'"
  shows "\<exists>m \<le> length ops. sn_sealed s' = sn_sealed s @ odd_nonces (unat (sn_msg_seqno_0 s)) m \<and>
    unat (sn_msg_seqno_0 s') = unat (sn_msg_seqno_0 s) + 2 * m"
  using assms
proof (induction ops arbitrary: s)
  case Nil
  then show ?case by (simp add: odd_nonces_def)
next
  case (Cons op ops)
  then obtain s1 where s1: "snp_step env op s = Ret s1" "snp_run env ops s1 = Ret s'"
    by (auto simp: obind_Ret)
  from Cons.IH [OF s1(2)] obtain m where m: "m \<le> length ops"
    "sn_sealed s' = sn_sealed s1 @ odd_nonces (unat (sn_msg_seqno_0 s1)) m"
    "unat (sn_msg_seqno_0 s') = unat (sn_msg_seqno_0 s1) + 2 * m" by blast
  have shift: "next_nonce s # odd_nonces (unat (sn_msg_seqno_0 s) + 2) m = odd_nonces (unat (sn_msg_seqno_0 s)) (Suc m)"
    by (simp only: odd_nonces_def upt_conv_Cons map_Suc_upt [symmetric] next_nonce_def zero_less_Suc list.map map_map)
      (simp add: comp_def algebra_simps)
  from snp_step_private [OF s1(1)] show ?case
  proof
    assume "same_private s s1"
    with m show ?thesis by (intro exI [of _ m]) (auto simp: same_private_def)
  next
    assume "sn_sealed s1 = sn_sealed s @ [next_nonce s] \<and> unat (sn_msg_seqno_0 s1) = unat (sn_msg_seqno_0 s) + 2"
    with m shift show ?thesis by (intro exI [of _ "Suc m"]) auto
  qed
qed

lemma seqno_nonce_inj: "seqno_nonce a = seqno_nonce b \<longleftrightarrow> a = b"
proof
  assume "seqno_nonce a = seqno_nonce b"
  then have "le_nat (le_bytes 8 (unat a)) = le_nat (le_bytes 8 (unat b))"
    by (simp add: seqno_nonce_def)
  then show "a = b"
    using unat_usize_less [of a] unat_usize_less [of b] by (simp add: le_nat_le_bytes usize_limit_def word_unat_eq_iff)
qed simp

lemma odd_nonces_distinct:
  assumes "start + 2 * m < 2 ^ 32"
  shows "distinct (odd_nonces start m)"
proof -
  have "inj_on (\<lambda>i. seqno_nonce (of_nat (start + 2 * i + 1))) {0..<m}"
  proof (rule inj_onI)
    fix i j
    assume ij: "i \<in> {0..<m}" "j \<in> {0..<m}"
      "seqno_nonce (of_nat (start + 2 * i + 1)) = seqno_nonce (of_nat (start + 2 * j + 1))"
    then have "unat (of_nat (start + 2 * i + 1) :: 64 word) = unat (of_nat (start + 2 * j + 1) :: 64 word)"
      by (simp only: seqno_nonce_inj)
    moreover have "unat (of_nat x :: 64 word) = x" if "x < 2 ^ 32" for x
      using that by (simp add: unat_of_nat)
    moreover have "start + 2 * i + 1 < 2 ^ 32" "start + 2 * j + 1 < 2 ^ 32"
      using ij(1,2) assms by simp_all
    ultimately have "start + 2 * i + 1 = start + 2 * j + 1"
      by metis
    then show "i = j" by simp
  qed
  then show ?thesis
    by (simp add: odd_nonces_def distinct_map)
qed

section \<open>Hosts that serve requests\<close>

text \<open>A host that reports no error and changes the message pages by a function.\<close>

definition serving :: "(snp_guest_msg \<Rightarrow> snp_guest_msg \<times> snp_guest_msg) \<Rightarrow> 'w vmm" where
  "serving f w g req resp = (g\<lparr>gh_sw_exit_info1 := 0, gh_sw_exit_info2 := 0\<rparr>, fst (f req), snd (f req), w)"

lemma set_offset_valid_runs:
  assumes "length (gh_valid_bitmap g) = 16" "offset < 1024"
  shows "\<exists>bm. set_offset_valid offset g = Ret (g\<lparr>gh_valid_bitmap := bm\<rparr>) \<and> length bm = 16"
proof -
  have "offset div 8 div 8 < 16"
    using assms(2) div_mult2_eq [of offset 8 8] by simp
  then show ?thesis
    using assms(1) by (auto simp: set_offset_valid_def Let_def)
qed

lemma vmgexit_served:
  assumes "sv_vmm env = serving f" "length (gh_valid_bitmap (sn_ghcb s)) = 16"
  shows "\<exists>g. vmgexit env code ia ib s = Ret (Inr (), s\<lparr>sn_ghcb := g, sn_request := fst (f (sn_request s)),
      sn_response := snd (f (sn_request s))\<rparr>) \<and> length (gh_valid_bitmap g) = 16 \<and> gh_sw_exit_info2 g = 0"
proof -
  obtain g1 where 1: "set_offset_valid 0x390 ((sn_ghcb s)\<lparr>gh_sw_exit_code := code\<rparr>) = Ret g1" "length (gh_valid_bitmap g1) = 16"
    using set_offset_valid_runs [of "(sn_ghcb s)\<lparr>gh_sw_exit_code := code\<rparr>" "0x390"] assms(2) by auto
  obtain g2 where 2: "set_offset_valid 0x398 (g1\<lparr>gh_sw_exit_info1 := ia\<rparr>) = Ret g2" "length (gh_valid_bitmap g2) = 16"
    using set_offset_valid_runs [of "g1\<lparr>gh_sw_exit_info1 := ia\<rparr>" "0x398"] 1(2) by auto
  obtain g3 where 3: "set_offset_valid 0x3A0 (g2\<lparr>gh_sw_exit_info2 := ib\<rparr>) = Ret g3" "length (gh_valid_bitmap g3) = 16"
    using set_offset_valid_runs [of "g2\<lparr>gh_sw_exit_info2 := ib\<rparr>" "0x3A0"] 2(2) by auto
  from 1(1) 2(1) 3 show ?thesis
    by (intro exI [of _ "g3\<lparr>gh_usage := 0, gh_protocol_version := 2, gh_sw_exit_info1 := 0, gh_sw_exit_info2 := 0\<rparr>"])
      (simp add: vmgexit_def assms(1) serving_def vmgexit_check_def)
qed

lemma guest_req_served:
  assumes "sv_vmm env = serving f" "length (gh_valid_bitmap (sn_ghcb s)) = 16" "unat (sn_msg_seqno_0 s) + 2 < 2 ^ 32"
  shows "\<exists>g. guest_req env s = Ret (Inr (), s\<lparr>sn_ghcb := g, sn_request := fst (f (sn_request s)),
      sn_response := snd (f (sn_request s)), sn_msg_seqno_0 := sn_msg_seqno_0 s + 2\<rparr>) \<and> length (gh_valid_bitmap g) = 16"
proof -
  let ?s = "s\<lparr>sn_response := snp_guest_msg_default, sn_ghcb := invalidate (sn_ghcb s)\<rparr>"
  obtain g where "vmgexit env 0x80000011 (sv_req_gpa env) (sv_resp_gpa env) ?s = Ret (Inr (), ?s\<lparr>sn_ghcb := g,
      sn_request := fst (f (sn_request s)), sn_response := snd (f (sn_request s))\<rparr>)"
    "length (gh_valid_bitmap g) = 16" "gh_sw_exit_info2 g = 0"
    using vmgexit_served [OF assms(1), where s = ?s and code = "0x80000011" and ia = "sv_req_gpa env" and ib = "sv_resp_gpa env"]
      assms(2) by (auto simp: invalidate_def)
  then show ?thesis
    using assms(3) by (intro exI [of _ g]) (simp add: guest_req_def ghcb_guest_req_def inc_msg_seqno_0_def)
qed

lemma dec_payload_cong:
  "sv_aead env' = sv_aead env \<Longrightarrow> sn_request s' = sn_request s \<Longrightarrow> sn_response s' = sn_response s \<Longrightarrow>
     sn_vmpck0 s' = sn_vmpck0 s \<Longrightarrow> dec_payload env' buf ty s' = dec_payload env buf ty s"
  by (simp only: dec_payload_def)

lemma enc_payload_runs:
  assumes "\<And>n a. \<exists>c t. ae_seal (sv_aead env) (sn_vmpck0 s) n a bs = Some (c, t) \<and> 16 \<le> length t"
    and "length bs \<le> SNP_GUEST_MSG_PAYLOAD_LEN" "unat (sn_msg_seqno_0 s) + 2 < 2 ^ 32"
  shows "\<exists>c req log. enc_payload env version ty bs s = Ret (True, c, s\<lparr>sn_request := req, sn_sealed := log\<rparr>)"
proof -
  have seqno: "sn_msg_seqno_0 s \<noteq> - 1"
    using assms(3) by (auto simp: unsigned_minus_1_eq_mask mask_eq_exp_minus_1)
  define hdr where "hdr = (gm_hdr (sn_request s))\<lparr>mh_algo := SnpAeadAes256Gcm, mh_hdr_version := MSG_HDR_VER,
      mh_hdr_sz := msg_hdr_size, mh_msg_type := msg_type_code ty, mh_msg_version := version,
      mh_msg_seqno := ucast (sn_msg_seqno_0 s + 1), mh_msg_vmpck := 0, mh_msg_sz := of_nat (length bs)\<rparr>"
  obtain c t where "ae_seal (sv_aead env) (sn_vmpck0 s) (seqno_nonce (mh_msg_seqno hdr)) (assoc_data hdr) bs = Some (c, t)"
    "16 \<le> length t"
    using assms(1) by blast
  with seqno assms(2) have "enc_payload env version ty bs s = Ret (True, c, s\<lparr>sn_request :=
      \<lparr>gm_hdr = hdr\<lparr>mh_authtag := copy_prefix (take 16 t) (mh_authtag hdr)\<rparr>,
       gm_payload = copy_prefix c (gm_payload (sn_request s))\<rparr>,
      sn_sealed := sn_sealed s @ [seqno_nonce (mh_msg_seqno hdr)]\<rparr>)"
    by (simp add: enc_payload_def get_msg_seqno_0_def Let_def hdr_def)
  then show ?thesis by blast
qed

lemma exchange_served:
  assumes "\<And>n a. \<exists>c t. ae_seal (sv_aead env) (sn_vmpck0 s) n a bs = Some (c, t) \<and> 16 \<le> length t"
    and "length bs \<le> SNP_GUEST_MSG_PAYLOAD_LEN" "unat (sn_msg_seqno_0 s) + 2 < 2 ^ 32"
    and "sv_vmm env = serving (\<lambda>_. (req, resp))" "length (gh_valid_bitmap (sn_ghcb s)) = 16"
    and "dec_payload env buf ty' (s\<lparr>sn_request := req, sn_response := resp\<rparr>) = Ret (Some out)"
  shows "\<exists>s'. exchange env version ty bs ty' buf s = Ret (out, s') \<and> sn_response s' = resp \<and>
    length (gh_valid_bitmap (sn_ghcb s')) = 16"
proof -
  let ?s = "s\<lparr>sn_request := snp_guest_msg_default\<rparr>"
  obtain c rq log where e: "enc_payload env version ty bs ?s = Ret (True, c, ?s\<lparr>sn_request := rq, sn_sealed := log\<rparr>)"
    using enc_payload_runs [of env ?s bs version ty] assms(1-3) by auto
  let ?s1 = "?s\<lparr>sn_request := rq, sn_sealed := log\<rparr>"
  obtain g where g: "guest_req env ?s1 = Ret (Inr (), ?s1\<lparr>sn_ghcb := g, sn_request := req, sn_response := resp,
      sn_msg_seqno_0 := sn_msg_seqno_0 s + 2\<rparr>)" "length (gh_valid_bitmap g) = 16"
    using guest_req_served [OF assms(4), of ?s1] assms(3,5) by auto
  let ?s2 = "?s1\<lparr>sn_ghcb := g, sn_request := req, sn_response := resp, sn_msg_seqno_0 := sn_msg_seqno_0 s + 2\<rparr>"
  have "dec_payload env buf ty' ?s2 = Ret (Some out)"
    using assms(6) dec_payload_cong [of env env ?s2 "s\<lparr>sn_request := req, sn_response := resp\<rparr>"] by simp
  with e g show ?thesis
    by (simp add: exchange_def)
qed

lemma report_opened:
  assumes "snp_get_report env version nonce response s = Ret (Ok (skip, n), out, s1)"
  shows "dec_payload env response ReportRsp s1 = Ret (Some out)" "sn_vmpck0 s1 = sn_vmpck0 s"
    "SNP_ATTESTATION_LEN_MAX \<le> length response" "32 \<le> unat (mh_msg_sz (gm_hdr (sn_response s1)))"
    "le_nat (take 4 out) = 0" "skip = 32" "n = le_nat (take 4 (drop 4 out))"
proof -
  have x: "exchange env version ReportReq nonce ReportRsp response s = Ret (out, s1)"
    and rest: "SNP_ATTESTATION_LEN_MAX \<le> length response" "32 \<le> unat (mh_msg_sz (gm_hdr (sn_response s1)))"
    "le_nat (take 4 out) = 0" "skip = 32" "n = le_nat (take 4 (drop 4 out))"
    using assms by (auto simp: snp_get_report_def obind_Ret Let_def not_less split: if_splits)
  from rest show "SNP_ATTESTATION_LEN_MAX \<le> length response" "32 \<le> unat (mh_msg_sz (gm_hdr (sn_response s1)))"
    "le_nat (take 4 out) = 0" "skip = 32" "n = le_nat (take 4 (drop 4 out))" by blast+
  show "dec_payload env response ReportRsp s1 = Ret (Some out)"
    using x by (auto simp: exchange_def obind_Ret split: if_splits sum.splits option.splits dest!: inr_unit)
  show "sn_vmpck0 s1 = sn_vmpck0 s"
    by (rule exchange_private [OF x])
qed

section \<open>Properties\<close>


text \<open>C21: the host can replay a response. The number a response has to carry is computed from the request in
  the shared page, after the host had access to it, and not from the sequence number in the secrets
  page. So once a report was accepted, a host that puts the two old pages back in place makes the guest
  accept the same report in reply to its next request, whatever data that request asked to be signed.\<close>

theorem report_replay:
  assumes "snp_get_report env version nonce response s = Ret (Ok (skip, n), out, s1)"
    and "length nonce' = 64" "unat (sn_msg_seqno_0 s1) + 2 < 2 ^ 32" "length (gh_valid_bitmap (sn_ghcb s1)) = 16"
    and "\<And>k a. \<exists>c t. ae_seal (sv_aead env) (sn_vmpck0 s1) k a nonce' = Some (c, t) \<and> 16 \<le> length t"
  shows "\<exists>s2. snp_get_report (env\<lparr>sv_vmm := serving (\<lambda>_. (sn_request s1, sn_response s1))\<rparr>) version nonce' response s1 =
    Ret (Ok (skip, n), out, s2)"
proof -
  let ?env = "env\<lparr>sv_vmm := serving (\<lambda>_. (sn_request s1, sn_response s1))\<rparr>"
  note first = report_opened [OF assms(1)]
  have "dec_payload ?env response ReportRsp (s1\<lparr>sn_request := sn_request s1, sn_response := sn_response s1\<rparr>) = Ret (Some out)"
    using first(1) dec_payload_cong [of ?env env s1 s1] by simp
  then obtain s2 where "exchange ?env version ReportReq nonce' ReportRsp response s1 = Ret (out, s2)"
    "sn_response s2 = sn_response s1"
    using exchange_served [of ?env s1 nonce' "sn_request s1" "sn_response s1" response ReportRsp out version ReportReq]
      assms(2-5) by (auto simp: SNP_GUEST_MSG_PAYLOAD_LEN_def)
  with first assms(2) show ?thesis
    by (simp add: snp_get_report_def Let_def not_less)
qed

text \<open>A cipher that does nothing, a host that answers every request with a report of zeros, and a guest.\<close>

definition plain_aead :: aead where
  "plain_aead = \<lparr>ae_seal = (\<lambda>_ _ _ p. Some (p, replicate 16 0)), ae_open = (\<lambda>_ _ _ c _. Some c)\<rparr>"

definition answer_hdr :: snp_guest_msg_hdr where
  "answer_hdr = (gm_hdr snp_guest_msg_default)\<lparr>mh_msg_seqno := 2, mh_algo := 1, mh_hdr_sz := 96, mh_msg_type := 6,
     mh_msg_version := 1, mh_msg_sz := 32\<rparr>"

definition zero_firmware :: "unit vmm" where
  "zero_firmware = serving (\<lambda>_.
     (snp_guest_msg_default\<lparr>gm_hdr := answer_hdr\<lparr>mh_msg_seqno := 1\<rparr>\<rparr>, snp_guest_msg_default\<lparr>gm_hdr := answer_hdr\<rparr>))"

definition snp_example_env :: "unit snp_env" where
  "snp_example_env = \<lparr>sv_vmm = zero_firmware, sv_aead = plain_aead, sv_req_gpa = 0x1000, sv_resp_gpa = 0x2000\<rparr>"

definition snp_example :: "unit snp" where
  "snp_example =
     \<lparr>sn_ghcb = \<lparr>gh_rax = 0, gh_rbx = 0, gh_sw_exit_code = 0, gh_sw_exit_info1 = 0, gh_sw_exit_info2 = 0, gh_sw_scratch = 0,
        gh_valid_bitmap = replicate 16 0, gh_protocol_version = 0, gh_usage = 0\<rparr>,
      sn_request = snp_guest_msg_default, sn_response = snp_guest_msg_default, sn_msg_seqno_0 = 0,
      sn_vmpck0 = replicate 32 0, sn_world = (), sn_sealed = []\<rparr>"

lemma zeros_again: "m \<le> n \<Longrightarrow> copy_prefix (replicate m x) (replicate n x) = replicate n x"
  by (simp add: copy_prefix_def flip: replicate_add)

lemma le_nat_zeros: "le_nat (replicate n 0) = 0"
  by (induction n) simp_all

lemma example_report:
  "\<exists>s1. snp_get_report snp_example_env 1 (replicate 64 0) (replicate 4000 0) snp_example =
     Ret (Ok (32, 0), replicate 4000 0, s1) \<and> length (gh_valid_bitmap (sn_ghcb s1)) = 16 \<and> unat (sn_msg_seqno_0 s1) = 2"
proof -
  let ?req = "snp_guest_msg_default\<lparr>gm_hdr := answer_hdr\<lparr>mh_msg_seqno := 1\<rparr>\<rparr>"
  let ?resp = "snp_guest_msg_default\<lparr>gm_hdr := answer_hdr\<rparr>"
  have "dec_payload snp_example_env (replicate 4000 0) ReportRsp (snp_example\<lparr>sn_request := ?req, sn_response := ?resp\<rparr>) =
      Ret (Some (replicate 4000 0))"
    by (simp add: dec_payload_def Let_def answer_hdr_def snp_guest_msg_default_def SnpAeadAes256Gcm_def msg_hdr_size_def
        SNP_GUEST_MSG_PAYLOAD_LEN_def snp_example_env_def plain_aead_def zeros_again)
  then obtain s1 where s1: "exchange snp_example_env 1 ReportReq (replicate 64 0) ReportRsp (replicate 4000 0) snp_example =
      Ret (replicate 4000 0, s1)" "sn_response s1 = ?resp" "length (gh_valid_bitmap (sn_ghcb s1)) = 16"
    using exchange_served [of snp_example_env snp_example "replicate 64 0" ?req ?resp "replicate 4000 0" ReportRsp "replicate 4000 0" 1 ReportReq]
    by (auto simp: snp_example_env_def plain_aead_def snp_example_def zero_firmware_def SNP_GUEST_MSG_PAYLOAD_LEN_def)
  moreover have "unat (sn_msg_seqno_0 s1) = 2"
    using exchange_private(2) [OF s1(1)] by (simp add: snp_example_def)
  ultimately show ?thesis
    by (simp add: snp_get_report_def Let_def SNP_ATTESTATION_LEN_MAX_def SNP_GUEST_MSG_PAYLOAD_LEN_def answer_hdr_def le_nat_zeros)
qed


theorem report_replay_witness:
  "\<exists>env s1 s2. snp_get_report snp_example_env 1 (replicate 64 0) (replicate 4000 0) snp_example = Ret (Ok (32, 0), replicate 4000 0, s1) \<and>
     snp_get_report env 1 (replicate 64 7) (replicate 4000 0) s1 = Ret (Ok (32, 0), replicate 4000 0, s2)"
proof -
  obtain s1 where s1: "snp_get_report snp_example_env 1 (replicate 64 0) (replicate 4000 0) snp_example =
      Ret (Ok (32, 0), replicate 4000 0, s1)" "length (gh_valid_bitmap (sn_ghcb s1)) = 16" "unat (sn_msg_seqno_0 s1) = 2"
    using example_report by blast
  from report_replay [OF s1(1), of "replicate 64 7"] s1 show ?thesis
    by (fastforce simp: snp_example_env_def plain_aead_def)
qed

end
