(* ===== verification/Kvm_Shim.thy ===== *)
theory Kvm_Shim
  imports Handler_Laws Platform Snp_Attestation Snp_Messages
begin

text \<open>
  Parts of the KVM shim (\<^verbatim>\<open>crates/shim-kvm/src\<close>) that talk to the host: the pool of
  sallyport blocks and its guards, \<^verbatim>\<open>get_key\<close> and \<^verbatim>\<open>get_attestation\<close> over the messages
  of the firmware, \<^verbatim>\<open>shim_write_all\<close> (\<^verbatim>\<open>hostcall.rs\<close>), the conversions between
  physical and virtual addresses of the shim (\<^verbatim>\<open>addr.rs\<close>), and the memory balloon with
  the search for a chunk (\<^verbatim>\<open>allocator.rs\<close>). The page tables are not modelled. The heap of the
  \<^verbatim>\<open>linked_list_allocator\<close> crate, the sum of a \<^verbatim>\<open>PhysAddr\<close>, and the
  \<^verbatim>\<open>pvalidate\<close> instruction are parameters.
\<close>

unbundle bit_operations_syntax

section \<open>The pool of sallyport blocks\<close>

text \<open>A block is its address and its words. A guard holds a block taken from the pool and the
  index it came from.\<close>

type_synonym sally_block = "nat \<times> usize list"
type_synonym block_guard = "nat \<times> sally_block"

definition NUM_BLOCKS :: nat where
  "NUM_BLOCKS = 2"

definition BLOCK_SIZE_USIZE :: nat where
  "BLOCK_SIZE_USIZE = 69632 div 8"

definition host_call_alloc :: "nat \<Rightarrow> sally_block option list" where
  "host_call_alloc sallyport =
     map (\<lambda>i. Some (sallyport + 8 * BLOCK_SIZE_USIZE * i, replicate BLOCK_SIZE_USIZE 0)) [0..<NUM_BLOCKS]"

fun hostcall_try_alloc :: "sally_block option list \<Rightarrow> (block_guard \<times> sally_block option list) option" where
  "hostcall_try_alloc [] = None"
| "hostcall_try_alloc (Some b # bs) = Some ((0, b), None # bs)"
| "hostcall_try_alloc (None # bs) = map_option (\<lambda>((i, b), bs'). ((Suc i, b), None # bs')) (hostcall_try_alloc bs)"

definition drop_guard :: "block_guard \<Rightarrow> sally_block option list \<Rightarrow> sally_block option list outcome" where
  "drop_guard g bs = (if fst g < length bs then Ret (bs[fst g := Some (snd g)]) else Panic)"

section \<open>The state of the shim\<close>

text \<open>\<open>sm_validated\<close> records the pages the shim accepted with \<^verbatim>\<open>pvalidate\<close>.\<close>

record ('w, 'h) shim =
  sm_blocks :: "sally_block option list"
  sm_tls :: "sigaction option list"
  sm_world :: 'w
  sm_last_alloc :: nat
  sm_max_alloc :: nat
  sm_end_of_mem :: "64 word"
  sm_heap :: 'h
  sm_mem :: umem
  sm_validated :: "64 word list"

record ('w, 'h) kvm_env =
  kv_host :: "'w host"
  kv_snp_active :: bool
  kv_cbit_mask :: "64 word"
  kv_pvalidate :: "64 word \<Rightarrow> bool"
  kv_phys_add :: "64 word \<Rightarrow> nat \<Rightarrow> 64 word option"
  kv_heap_size :: "'h \<Rightarrow> nat"
  kv_heap_free :: "'h \<Rightarrow> nat"
  kv_heap_extend :: "nat \<Rightarrow> 'h \<Rightarrow> 'h"
  kv_heap_init :: "64 word \<Rightarrow> nat \<Rightarrow> 'h \<Rightarrow> 'h"
  kv_heap_first_fit :: "nat \<Rightarrow> nat \<Rightarrow> 'h \<Rightarrow> usize option \<times> 'h"

text \<open>A call to the host: \<^verbatim>\<open>HostCall::try_new\<close> takes a block, the call runs, and the guard puts
  the block back. The result is \<open>None\<close> when no block is free.\<close>

definition with_host_call ::
  "('w handler \<Rightarrow> ('r \<times> 'w handler) outcome) \<Rightarrow> ('w, 'h) shim \<Rightarrow> ('r option \<times> ('w, 'h) shim) outcome" where
  "with_host_call f s =
     (case hostcall_try_alloc (sm_blocks s) of
        None \<Rightarrow> Ret (None, s)
      | Some ((i, (a, ws)), bs) \<Rightarrow>
          obind (f \<lparr>h_addr = a, h_block = ws, h_actions = sm_tls s, h_world = sm_world s\<rparr>) (\<lambda>(r, h).
          obind (drop_guard (i, (a, h_block h)) bs) (\<lambda>bs.
            Ret (Some r, s\<lparr>sm_blocks := bs, sm_tls := h_actions h, sm_world := h_world h\<rparr>))))"

section \<open>Addresses\<close>

definition SHIM_VIRT_OFFSET :: "64 word" where
  "SHIM_VIRT_OFFSET = 0xFFFFFF8000000000"

definition shim_phys_addr :: "64 word \<Rightarrow> 64 word \<Rightarrow> 64 word" where
  "shim_phys_addr cbit v = v OR cbit"

definition shim_virt_of_phys :: "64 word \<Rightarrow> 64 word \<Rightarrow> 64 word" where
  "shim_virt_of_phys cbit p = (p AND NOT cbit) + SHIM_VIRT_OFFSET"

definition shim_phys_of_virt :: "64 word \<Rightarrow> 64 word option" where
  "shim_phys_of_virt v = (if SHIM_VIRT_OFFSET \<le> v then Some (v - SHIM_VIRT_OFFSET) else None)"

section \<open>The memory balloon\<close>

function msb :: "nat \<Rightarrow> nat" where
  "msb val = (let val = val div 2 in if val = 0 then 0 else Suc (msb val))"
  by auto
termination
  by (relation "measure id") auto

declare msb.simps [simp del]

text \<open>The exponents of the smallest and the largest request: a failing \<^verbatim>\<open>checked_sub\<close> panics.\<close>

definition MIN_EXP :: nat where
  "MIN_EXP = 24"

definition alloc_max_exp :: "64 word \<Rightarrow> usize \<Rightarrow> nat outcome" where
  "alloc_max_exp cbit meminfo =
     (if 0 < cbit \<and> msb (unat cbit) = 0 then Panic
      else let target_exp = (if 0 < cbit then min 47 (msb (unat cbit) - 1) else 47)
           in if target_exp < MIN_EXP then Panic
              else if unat meminfo < target_exp - MIN_EXP then Panic
              else let log_rest = msb (unat meminfo - (target_exp - MIN_EXP))
                   in Ret (target_exp - min log_rest (target_exp - MIN_EXP)))"

definition PAGE4K_SIZE :: nat where
  "PAGE4K_SIZE = 4096"

definition validate_range :: "64 word \<Rightarrow> nat \<Rightarrow> 64 word list" where
  "validate_range start n =
     (let end = start + of_nat n
      in if start < end
         then map (\<lambda>i. start + of_nat (PAGE4K_SIZE * i)) [0..<(unat end - unat start + (PAGE4K_SIZE - 1)) div PAGE4K_SIZE]
         else [])"

definition balloon_accept :: "('w, 'h) kvm_env \<Rightarrow> nat \<Rightarrow> ('w, 'h) shim \<Rightarrow> (bool \<times> ('w, 'h) shim) outcome" where
  "balloon_accept env new_size s =
     (let free_start = shim_virt_of_phys (kv_cbit_mask env) (shim_phys_addr (kv_cbit_mask env) (sm_end_of_mem s));
          pages = (if kv_snp_active env then validate_range free_start new_size else [])
      in case kv_phys_add env (sm_end_of_mem s) new_size of
           None \<Rightarrow> Panic
         | Some e \<Rightarrow>
             if \<not> list_all (kv_pvalidate env) pages then Panic
             else Ret (True, s\<lparr>sm_end_of_mem := e, sm_validated := sm_validated s @ pages,
                    sm_heap := (if 0 < kv_heap_size env (sm_heap s) then kv_heap_extend env new_size (sm_heap s)
                                else kv_heap_init env free_start new_size (sm_heap s)),
                    sm_last_alloc := new_size\<rparr>))"

definition balloon_size :: "nat \<Rightarrow> nat \<Rightarrow> nat" where
  "balloon_size last_size max_alloc =
     min (if 2 * last_size < 2 ^ 64 then 2 * last_size else last_size) max_alloc"

function balloon_loop :: "('w, 'h) kvm_env \<Rightarrow> nat \<Rightarrow> ('w, 'h) shim \<Rightarrow> (bool \<times> ('w, 'h) shim) outcome" where
  "balloon_loop env last_size s =
     (let new_size = balloon_size last_size (sm_max_alloc s); num_pages = new_size div PAGE4K_SIZE
      in obind (with_host_call (\<lambda>h. handler_balloon_memory (kv_host env) h 12 (of_nat num_pages) (sm_end_of_mem s)) s) (\<lambda>(ret, s).
           case ret of
             None \<Rightarrow> Panic
           | Some (Inr _) \<Rightarrow> balloon_accept env new_size s
           | Some (Inl _) \<Rightarrow>
               let last_size = last_size div 2
               in if last_size < PAGE4K_SIZE then Ret (False, s) else balloon_loop env last_size s))"
  by auto
termination
  by (relation "measure (\<lambda>(_, l, _). l)") (auto simp: PAGE4K_SIZE_def)

declare balloon_loop.simps [simp del]

definition balloon :: "('w, 'h) kvm_env \<Rightarrow> ('w, 'h) shim \<Rightarrow> (bool \<times> ('w, 'h) shim) outcome" where
  "balloon env s = balloon_loop env (sm_last_alloc s) s"

section \<open>Chunks\<close>

text \<open>\<^verbatim>\<open>Layout::from_size_align\<close> refuses a size that overflows \<^verbatim>\<open>isize\<close> when rounded up to
  the alignment.\<close>

definition alloc_pages :: "('w, 'h) kvm_env \<Rightarrow> nat \<Rightarrow> ('w, 'h) shim \<Rightarrow> (usize option \<times> ('w, 'h) shim) outcome" where
  "alloc_pages env sz s =
     (if isize_limit - PAGE4K_SIZE < sz then Panic
      else let (p, heap) = kv_heap_first_fit env sz PAGE4K_SIZE (sm_heap s) in Ret (p, s\<lparr>sm_heap := heap\<rparr>))"

partial_function (option) try_alloc_half_loop ::
  "('w, 'h) kvm_env \<Rightarrow> nat \<Rightarrow> ('w, 'h) shim \<Rightarrow> ((usize \<times> nat) \<times> ('w, 'h) shim) outcome option" where
  "try_alloc_half_loop env sz s =
     (case alloc_pages env sz s of
        Ret (Some p, s) \<Rightarrow> Some (Ret ((p, sz), s\<lparr>sm_mem := um_write p (replicate sz 0) (sm_mem s)\<rparr>))
      | Ret (None, s) \<Rightarrow> if sz = PAGE4K_SIZE then Some (Ret ((0, sz), s)) else try_alloc_half_loop env (sz div 2) s
      | Panic \<Rightarrow> Some Panic | UB \<Rightarrow> Some UB | Attacked \<Rightarrow> Some Attacked)"

definition try_alloc_half ::
  "('w, 'h) kvm_env \<Rightarrow> nat \<Rightarrow> ('w, 'h) shim \<Rightarrow> ((usize \<times> nat) \<times> ('w, 'h) shim) outcome option" where
  "try_alloc_half env sz s = (if sz < PAGE4K_SIZE then Some Panic else try_alloc_half_loop env sz s)"

text \<open>The loop that asks for more memory until the heap has enough of it, whatever \<^verbatim>\<open>balloon\<close>
  returns, and the choice of the chunk.\<close>

partial_function (option) balloon_until ::
  "('w, 'h) kvm_env \<Rightarrow> nat \<Rightarrow> ('w, 'h) shim \<Rightarrow> ('w, 'h) shim outcome option" where
  "balloon_until env sz s =
     (if kv_heap_free env (sm_heap s) < sz
      then case balloon env s of
             Ret (_, s) \<Rightarrow> balloon_until env sz s
           | Panic \<Rightarrow> Some Panic | UB \<Rightarrow> Some UB | Attacked \<Rightarrow> Some Attacked
      else Some (Ret s))"

definition first_half ::
  "('w, 'h) kvm_env \<Rightarrow> nat \<Rightarrow> ('w, 'h) shim \<Rightarrow> ((usize \<times> nat) \<times> ('w, 'h) shim) outcome option" where
  "first_half env sz s =
     (let curr_size = 2 ^ msb sz
      in case balloon_until env curr_size s of
           None \<Rightarrow> None
         | Some (Ret s) \<Rightarrow>
             (case try_alloc_half env curr_size s of
                Some (Ret ((chunk, chunk_size), s)) \<Rightarrow>
                  if chunk = 0
                  then case balloon env s of
                         Ret (_, s) \<Rightarrow> try_alloc_half env curr_size s
                       | Panic \<Rightarrow> Some Panic | UB \<Rightarrow> Some UB | Attacked \<Rightarrow> Some Attacked
                  else Some (Ret ((chunk, chunk_size), s))
              | r \<Rightarrow> r)
         | Some Panic \<Rightarrow> Some Panic | Some UB \<Rightarrow> Some UB | Some Attacked \<Rightarrow> Some Attacked)"

section \<open>Keys and reports for the user\<close>

text \<open>The endorsement key of the chip is asked of the host once; the buffer it is read into and the
  result are kept.\<close>

definition SNP_VCEK_BUF_SIZE :: nat where
  "SNP_VCEK_BUF_SIZE = 4096"

definition snp_vcek :: "'w host \<Rightarrow> ('w, 'h) shim \<Rightarrow> (byte list result \<times> ('w, 'h) shim) outcome" where
  "snp_vcek host s =
     obind (with_host_call (\<lambda>h. obind (handler_get_snp_vcek host h (replicate SNP_VCEK_BUF_SIZE 0)) (\<lambda>(r, bs, h).
              Ret ((r, bs), h))) s) (\<lambda>(r, s).
       case r of
         None \<Rightarrow> Ret (Err EAGAIN, s)
       | Some (Inl e, _) \<Rightarrow> Ret (Err e, s)
       | Some (Inr n, bs) \<Rightarrow>
           if n = 0 then Ret (Err EIO, s)
           else if length bs < unat n then Panic
           else Ret (Ok (take (unat n) bs), s))"

definition kvm_get_key ::
  "bool \<Rightarrow> 'v snp_env \<Rightarrow> platform \<Rightarrow> usize \<Rightarrow> usize \<Rightarrow> umem \<times> 'v snp \<Rightarrow> (usize result \<times> umem \<times> 'v snp) outcome" where
  "kvm_get_key active env pf buf buf_len = (\<lambda>(m, g).
     if \<not> active then Ret (Ok 0, m, g)
     else if buf = 0 then Ret (Ok (of_nat SNP_KEY_LEN), m, g)
     else if isize_limit \<le> unat buf_len then Ret (Err EINVAL, m, g)
     else if unat buf_len < SNP_KEY_LEN then Ret (Err EMSGSIZE, m, g)
     else case pf_validate_slice_mut pf u8_layout buf buf_len of
       Inl e \<Rightarrow> Ret (Err e, m, g)
     | Inr _ \<Rightarrow>
         obind (snp_get_key env 1 0 g) (\<lambda>(r, g).
           case r of
             Inl _ \<Rightarrow> Ret (Err EIO, m, g)
           | Inr u \<Rightarrow> Ret (Ok (of_nat SNP_KEY_LEN), um_write buf u m, g)))"

definition SNP_TECH :: usize where
  "SNP_TECH = 1"

definition kvm_get_attestation ::
  "bool \<Rightarrow> byte list result \<Rightarrow> 'v snp_env \<Rightarrow> platform \<Rightarrow> usize \<Rightarrow> usize \<Rightarrow> usize \<Rightarrow> usize \<Rightarrow> umem \<times> 'v snp \<Rightarrow>
     ((usize \<times> usize) result \<times> umem \<times> 'v snp) outcome" where
  "kvm_get_attestation active vcek env pf nonce nonce_len buf buf_len = (\<lambda>(m, g).
     if \<not> active then Ret (Ok (0, 0), m, g)
     else case vcek of
       Inl e \<Rightarrow> Ret (Err e, m, g)
     | Inr vcek \<Rightarrow>
         if buf = 0
         then case checked_add SNP_ATTESTATION_LEN_MAX (length vcek) of
                None \<Rightarrow> Panic | Some len \<Rightarrow> Ret (Ok (of_nat len, SNP_TECH), m, g)
         else if isize_limit \<le> unat buf_len then Ret (Err EINVAL, m, g)
         else if unat buf_len < SNP_ATTESTATION_LEN_MAX then Ret (Err EMSGSIZE, m, g)
         else if nonce_len \<noteq> 64 then Ret (Err EINVAL, m, g)
         else case rbind (pf_validate_slice pf u8_layout nonce nonce_len) (\<lambda>_. pf_validate_slice_mut pf u8_layout buf buf_len) of
           Inl e \<Rightarrow> Ret (Err e, m, g)
         | Inr _ \<Rightarrow>
             obind (snp_get_report env 1 (um_read m nonce 64) (replicate SNP_ATTESTATION_LEN_MAX 0) g) (\<lambda>(r, report_buf, g).
               case r of
                 Inl e \<Rightarrow> Ret (Err e, m, g)
               | Inr (skip, report_len) \<Rightarrow>
                   if length report_buf < skip + report_len then Panic
                   else obind (asn1_encode_report_vcek (take report_len (drop skip report_buf)) vcek
                                 (um_read m buf (unat buf_len))) (\<lambda>(len, bytes).
                     let m = um_write buf bytes m
                     in case len of None \<Rightarrow> Ret (Err EIO, m, g) | Some len \<Rightarrow> Ret (Ok (of_nat len, SNP_TECH), m, g))))"

text \<open>\<^verbatim>\<open>shim_write_all\<close>: the loop may not end.\<close>

partial_function (option) write_all_loop ::
  "'w host \<Rightarrow> c_int \<Rightarrow> byte list \<Rightarrow> nat \<Rightarrow> 'w handler \<Rightarrow> (unit result \<times> 'w handler) outcome option" where
  "write_all_loop host fd bytes to_write h =
     (if length bytes < to_write then Some (Ret (Err EFAULT, h))
      else case handler_write host h fd (drop (length bytes - to_write) bytes) of
        Ret (Inl e, h) \<Rightarrow> Some (Ret (Err e, h))
      | Ret (Inr written, h) \<Rightarrow>
          if to_write < unat written then Some (Ret (Err EIO, h))
          else if to_write - unat written = 0 then Some (Ret (Ok (), h))
          else write_all_loop host fd bytes (to_write - unat written) h
      | Panic \<Rightarrow> Some Panic | UB \<Rightarrow> Some UB | Attacked \<Rightarrow> Some Attacked)"

definition shim_write_all ::
  "'w host \<Rightarrow> c_int \<Rightarrow> byte list \<Rightarrow> ('w, 'h) shim \<Rightarrow> (unit result \<times> ('w, 'h) shim) outcome option" where
  "shim_write_all host fd bytes s =
     (case hostcall_try_alloc (sm_blocks s) of
        None \<Rightarrow> Some (Ret (Err EAGAIN, s))
      | Some ((i, (a, ws)), bs) \<Rightarrow>
          map_option (\<lambda>out. obind out (\<lambda>(r, h).
            obind (drop_guard (i, (a, h_block h)) bs) (\<lambda>bs.
              Ret (r, s\<lparr>sm_blocks := bs, sm_tls := h_actions h, sm_world := h_world h\<rparr>))))
            (write_all_loop host fd bytes (length bytes)
               \<lparr>h_addr = a, h_block = ws, h_actions = sm_tls s, h_world = sm_world s\<rparr>))"

end
