(* ===== verification/Kvm_Shim_Laws.thy ===== *)
theory Kvm_Shim_Laws
  imports Kvm_Shim
begin

text \<open>
  The theorems on the KVM shim: host calls in flight have blocks of their own, the conversions of
  addresses invert each other, a balloon request keeps the bookkeeping of the allocator and the memory it
  adds is validated, asking for a chunk never returns when the host has no memory, an attestation
  writes exactly the encoded key and report, and writing all bytes returns when the host makes progress.
\<close>

unbundle bit_operations_syntax

section \<open>The pool of blocks\<close>

text \<open>The life of the pool: guards are taken, used to exchange words with the host, and dropped.\<close>

inductive pool_reach :: "nat \<Rightarrow> sally_block option list \<Rightarrow> block_guard list \<Rightarrow> bool" for sallyport where
  pool_start: "pool_reach sallyport (host_call_alloc sallyport) []"
| pool_take: "pool_reach sallyport bs gs \<Longrightarrow> hostcall_try_alloc bs = Some (g, bs') \<Longrightarrow> pool_reach sallyport bs' (g # gs)"
| pool_use: "pool_reach sallyport bs (gs @ (i, (a, ws)) # gs') \<Longrightarrow> length ws' = length ws \<Longrightarrow>
    pool_reach sallyport bs (gs @ (i, (a, ws')) # gs')"
| pool_drop: "pool_reach sallyport bs (gs @ g # gs') \<Longrightarrow> drop_guard g bs = Ret bs' \<Longrightarrow> pool_reach sallyport bs' (gs @ gs')"

definition own_block :: "nat \<Rightarrow> nat \<Rightarrow> sally_block \<Rightarrow> bool" where
  "own_block sallyport i b \<longleftrightarrow> fst b = sallyport + 8 * BLOCK_SIZE_USIZE * i \<and> length (snd b) = BLOCK_SIZE_USIZE"

definition slot_ok :: "nat \<Rightarrow> nat list \<Rightarrow> nat \<Rightarrow> sally_block option \<Rightarrow> bool" where
  "slot_ok sallyport out i ob = (case ob of None \<Rightarrow> i \<in> set out | Some b \<Rightarrow> i \<notin> set out \<and> own_block sallyport i b)"

definition pool_inv :: "nat \<Rightarrow> sally_block option list \<Rightarrow> block_guard list \<Rightarrow> bool" where
  "pool_inv sallyport bs gs \<longleftrightarrow>
     length bs = NUM_BLOCKS \<and> distinct (map fst gs) \<and>
     list_all (\<lambda>(i, b). i < NUM_BLOCKS \<and> own_block sallyport i b) gs \<and>
     (\<forall>i < NUM_BLOCKS. slot_ok sallyport (map fst gs) i (bs ! i))"

lemma hostcall_try_alloc_Some:
  assumes "hostcall_try_alloc bs = Some ((i, b), bs')"
  shows "i < length bs \<and> bs ! i = Some b \<and> bs' = bs[i := None]"
  using assms by (induction bs arbitrary: i bs' rule: hostcall_try_alloc.induct) (auto split: prod.splits)

lemma hostcall_try_alloc_None: "hostcall_try_alloc bs = None \<longleftrightarrow> (\<forall>i < length bs. bs ! i = None)"
proof (induction bs rule: hostcall_try_alloc.induct)
  case (3 bs)
  then show ?case
    by (auto simp: less_Suc_eq_0_disj)
qed auto

lemma pool_inv_start: "pool_inv sallyport (host_call_alloc sallyport) []"
  by (auto simp: pool_inv_def host_call_alloc_def own_block_def slot_ok_def)

lemma pool_inv_take:
  assumes "pool_inv sallyport bs gs" "hostcall_try_alloc bs = Some (g, bs')"
  shows "pool_inv sallyport bs' (g # gs)"
proof -
  obtain i b where g: "g = (i, b)" by (cases g)
  have f: "i < length bs" "bs ! i = Some b" "bs' = bs[i := None]"
    using hostcall_try_alloc_Some assms(2) unfolding g by blast+
  have n: "length bs = NUM_BLOCKS" using assms(1) by (simp add: pool_inv_def)
  then have "slot_ok sallyport (map fst gs) i (bs ! i)"
    using assms(1) f(1) by (simp add: pool_inv_def)
  then have "i \<notin> fst ` set gs" "own_block sallyport i b" using f(2) by (simp_all add: slot_ok_def)
  then show ?thesis
    using assms(1) f n by (auto simp: pool_inv_def g nth_list_update slot_ok_def split: option.splits)
qed

lemma pool_inv_use:
  assumes "pool_inv sallyport bs (gs @ (i, (a, ws)) # gs')" "length ws' = length ws"
  shows "pool_inv sallyport bs (gs @ (i, (a, ws')) # gs')"
  using assms by (simp add: pool_inv_def own_block_def [of _ _ "(_, _)"])

lemma pool_inv_drop:
  assumes "pool_inv sallyport bs (gs @ g # gs')" "drop_guard g bs = Ret bs'"
  shows "pool_inv sallyport bs' (gs @ gs')"
proof -
  obtain i b where g: "g = (i, b)" by (cases g)
  have f: "i < length bs" "bs' = bs[i := Some b]"
    using assms(2) by (auto simp: drop_guard_def g split: if_splits)
  show ?thesis
    using assms(1) f by (auto simp: pool_inv_def g nth_list_update slot_ok_def split: option.splits)
qed

lemma pool_reach_inv: "pool_reach sallyport bs gs \<Longrightarrow> pool_inv sallyport bs gs"
  by (induction rule: pool_reach.induct) (auto intro: pool_inv_start pool_inv_take pool_inv_use pool_inv_drop)

lemma own_block_disjoint:
  assumes "own_block sallyport i (a, ws)" "own_block sallyport j (a', ws')" "i \<noteq> j"
  shows "a + 8 * length ws \<le> a' \<or> a' + 8 * length ws' \<le> a"
  using assms by (cases "i < j") (auto simp: own_block_def BLOCK_SIZE_USIZE_def)

lemma distinct_full:
  assumes "distinct xs" "set xs \<subseteq> {..<n}"
  shows "length xs = n \<longleftrightarrow> (\<forall>i < n. i \<in> set xs)"
proof -
  have c: "card (set xs) = length xs" using assms(1) by (rule distinct_card)
  show ?thesis
  proof
    assume "length xs = n"
    then have "set xs = {..<n}" using card_subset_eq [OF _ assms(2)] c by simp
    then show "\<forall>i < n. i \<in> set xs" by auto
  next
    assume "\<forall>i < n. i \<in> set xs"
    then have "set xs = {..<n}" using assms(2) by auto
    then show "length xs = n" using c by simp
  qed
qed

text \<open>C22: whatever sequence of calls takes, uses and drops blocks, two host calls in flight never share
  memory: the guards hold different slots of the pool and disjoint address ranges inside the
  sallyport section. A block is refused only while all blocks are in use, so no block is ever
  lost.\<close>

theorem pool_exclusive:
  assumes "pool_reach sallyport bs gs"
  shows "distinct (map fst gs) \<and>
    (\<forall>(i, a, ws) \<in> set gs. \<forall>(j, a', ws') \<in> set gs. i \<noteq> j \<longrightarrow> a + 8 * length ws \<le> a' \<or> a' + 8 * length ws' \<le> a) \<and>
    (hostcall_try_alloc bs = None \<longleftrightarrow> length gs = NUM_BLOCKS)"
proof (intro conjI ballI)
  note inv = pool_reach_inv [OF assms, unfolded pool_inv_def]
  show "distinct (map fst gs)" using inv by simp
  have "length (map fst gs) = NUM_BLOCKS \<longleftrightarrow> (\<forall>i < NUM_BLOCKS. i \<in> set (map fst gs))"
    by (rule distinct_full) (use inv in \<open>auto simp: list_all_iff\<close>)
  moreover have "bs ! i = None \<longleftrightarrow> i \<in> fst ` set gs" if "i < NUM_BLOCKS" for i
  proof -
    have "slot_ok sallyport (map fst gs) i (bs ! i)" using inv that by blast
    then show ?thesis by (cases "bs ! i") (auto simp: slot_ok_def)
  qed
  ultimately show "hostcall_try_alloc bs = None \<longleftrightarrow> length gs = NUM_BLOCKS"
    using inv by (auto simp: hostcall_try_alloc_None)
  fix g assume g: "g \<in> set gs"
  have "fst g \<noteq> j \<longrightarrow> fst (snd g) + 8 * length (snd (snd g)) \<le> a' \<or> a' + 8 * length ws' \<le> fst (snd g)"
    if "(j, a', ws') \<in> set gs" for j a' ws'
    using inv g that own_block_disjoint [of sallyport "fst g" "fst (snd g)" "snd (snd g)" j a' ws']
    by (auto simp: list_all_iff split_beta)
  then show "case g of (i, a, ws) \<Rightarrow> \<forall>(j, a', ws') \<in> set gs.
      i \<noteq> j \<longrightarrow> a + 8 * length ws \<le> a' \<or> a' + 8 * length ws' \<le> a"
    by (cases g) fastforce
qed

theorem pool_exclusive_witness:
  "pool_reach 0 [None, None] [(1, (69632, replicate 8704 0)), (0, (0, replicate 8704 0))] \<and>
   hostcall_try_alloc [None, None] = None"
proof -
  have s: "host_call_alloc 0 = [Some (0, replicate 8704 0), Some (69632, replicate 8704 0)]"
    by (simp add: host_call_alloc_def NUM_BLOCKS_def BLOCK_SIZE_USIZE_def upt_rec)
  have "pool_reach 0 [None, Some (69632, replicate 8704 0)] [(0, (0, replicate 8704 0))]"
    by (rule pool_take [OF pool_start]) (simp add: s)
  then have r: "pool_reach 0 [None, None] [(1, (69632, replicate 8704 0)), (0, (0, replicate 8704 0))]"
    by (rule pool_take) simp
  show ?thesis
    using pool_exclusive [OF r] r by (simp add: NUM_BLOCKS_def)
qed

section \<open>Addresses\<close>

text \<open>C0: a physical address of the shim below the encryption bit and within the 512 GiB the shim maps
  comes back unchanged from its virtual address, whatever the position of the encryption bit.\<close>

theorem shim_addr_roundtrip:
  assumes "p AND cbit = 0" "p < 0x8000000000"
  shows "shim_phys_of_virt (shim_virt_of_phys cbit (shim_phys_addr cbit p)) = Some p"
proof -
  have "(p OR cbit) AND NOT cbit = p"
    using assms(1) by (intro bit_eqI) (auto simp: bit_simps bit_eq_iff)
  moreover have "SHIM_VIRT_OFFSET \<le> p + SHIM_VIRT_OFFSET"
    using assms(2) unfolding word_le_nat_alt word_less_nat_alt
    by (simp add: SHIM_VIRT_OFFSET_def unat_word_ariths)
  ultimately show ?thesis
    by (simp add: shim_phys_of_virt_def shim_virt_of_phys_def shim_phys_addr_def)
qed

theorem shim_addr_roundtrip_witness:
  "shim_phys_of_virt (shim_virt_of_phys (push_bit 51 1) (shim_phys_addr (push_bit 51 1) 0x1234000)) = Some 0x1234000"
  by (rule shim_addr_roundtrip) simp_all

section \<open>Exponents\<close>

lemma msb_bounds: "0 < n \<Longrightarrow> 2 ^ msb n \<le> n \<and> n < 2 ^ Suc (msb n)"
proof (induction n rule: msb.induct)
  case (1 n)
  have m: "msb n = (if n div 2 = 0 then 0 else Suc (msb (n div 2)))"
    by (subst msb.simps) (simp only: Let_def)
  show ?case
  proof (cases "n div 2 = 0")
    case True
    then have "n = 1" using 1(2) by simp
    then show ?thesis using m by simp
  next
    case False
    then have "2 ^ msb (n div 2) \<le> n div 2" "n div 2 < 2 ^ Suc (msb (n div 2))"
      using 1(1) by auto
    then show ?thesis unfolding m if_not_P [OF False] power_Suc by linarith
  qed
qed

lemma alloc_max_exp_bounds:
  assumes "alloc_max_exp cbit meminfo = Ret e"
  shows "MIN_EXP \<le> e \<and> e \<le> 47"
proof -
  define t where "t = (if 0 < cbit then min 47 (msb (unat cbit) - 1) else 47)"
  have "t \<le> 47" by (simp add: t_def)
  moreover have "\<not> t < MIN_EXP \<and> e = t - min (msb (unat meminfo - (t - MIN_EXP))) (t - MIN_EXP)"
    using assms unfolding alloc_max_exp_def Let_def t_def [symmetric] by (simp split: if_split_asm)
  ultimately show ?thesis by linarith
qed

section \<open>The balloon\<close>

text \<open>What a call to the host leaves alone: the addresses in the pool, and everything but the pool, the
  thread local storage and the host.\<close>

definition same_pool :: "('w, 'h) shim \<Rightarrow> ('w, 'h) shim \<Rightarrow> bool" where
  "same_pool s s' \<longleftrightarrow> map (map_option fst) (sm_blocks s') = map (map_option fst) (sm_blocks s)"

definition same_memory :: "('w, 'h) shim \<Rightarrow> ('w, 'h) shim \<Rightarrow> bool" where
  "same_memory s s' \<longleftrightarrow>
     sm_last_alloc s' = sm_last_alloc s \<and> sm_max_alloc s' = sm_max_alloc s \<and> sm_end_of_mem s' = sm_end_of_mem s \<and>
     sm_heap s' = sm_heap s \<and> sm_mem s' = sm_mem s \<and> sm_validated s' = sm_validated s"

lemma with_host_call_keeps:
  assumes "with_host_call f s = Ret (r, s')"
  shows "same_pool s s'" "same_memory s s'"
proof -
  have "same_pool s s' \<and> same_memory s s'"
  proof (cases "hostcall_try_alloc (sm_blocks s)")
    case None
    then show ?thesis using assms by (auto simp: with_host_call_def same_pool_def same_memory_def)
  next
    case (Some x)
    obtain i a ws bs where x: "x = ((i, (a, ws)), bs)" by (metis prod.collapse)
    have f: "i < length (sm_blocks s)" "sm_blocks s ! i = Some (a, ws)" "bs = (sm_blocks s)[i := None]"
      using hostcall_try_alloc_Some Some unfolding x by blast+
    have "map (map_option fst) ((sm_blocks s)[i := Some (a, ws')]) = map (map_option fst) (sm_blocks s)" for ws'
      using f by (simp add: map_update list_update_same_conv)
    then show ?thesis
      using assms f Some
      by (auto simp: with_host_call_def x obind_Ret drop_guard_def same_pool_def same_memory_def)
  qed
  then show "same_pool s s'" "same_memory s s'" by simp_all
qed

lemma same_memory_trans: "same_memory s s1 \<Longrightarrow> same_memory s1 s2 \<Longrightarrow> same_memory s s2"
  by (simp add: same_memory_def)

text \<open>Memory of a given size accepted at the end of the memory.\<close>

definition grown :: "('w, 'h) kvm_env \<Rightarrow> nat \<Rightarrow> ('w, 'h) shim \<Rightarrow> ('w, 'h) shim \<Rightarrow> bool" where
  "grown env n s s' \<longleftrightarrow>
     (let start = shim_virt_of_phys (kv_cbit_mask env) (shim_phys_addr (kv_cbit_mask env) (sm_end_of_mem s));
          pages = (if kv_snp_active env then validate_range start n else [])
      in sm_last_alloc s' = n \<and> sm_max_alloc s' = sm_max_alloc s \<and> sm_mem s' = sm_mem s \<and>
         kv_phys_add env (sm_end_of_mem s) n = Some (sm_end_of_mem s') \<and>
         sm_validated s' = sm_validated s @ pages \<and> list_all (kv_pvalidate env) pages \<and>
         sm_heap s' = (if 0 < kv_heap_size env (sm_heap s) then kv_heap_extend env n (sm_heap s)
                       else kv_heap_init env start n (sm_heap s)))"

lemma grown_cong: "same_memory s s1 \<Longrightarrow> grown env n s1 s' \<Longrightarrow> grown env n s s'"
  by (simp add: same_memory_def grown_def Let_def)

lemma balloon_accept_grown:
  assumes "balloon_accept env n s = Ret (ok, s')"
  shows "ok" "grown env n s s'" "same_pool s s'"
  using assms by (auto simp: balloon_accept_def grown_def Let_def same_pool_def split: option.splits if_split_asm)

lemma balloon_size_pow:
  assumes "k \<le> 47"
  shows "balloon_size (2 ^ k) (2 ^ m) = 2 ^ min (Suc k) m"
proof -
  have "(2 :: nat) ^ Suc k < 2 ^ 64" by (rule power_strict_increasing) (use assms in simp_all)
  then have "balloon_size (2 ^ k) (2 ^ m) = min (2 ^ Suc k) (2 ^ m)"
    by (simp add: balloon_size_def)
  then show ?thesis
    by (simp add: min_def power_increasing_iff del: power_Suc)
qed

lemma pow_div_page: "12 \<le> j \<Longrightarrow> PAGE4K_SIZE * (2 ^ j div PAGE4K_SIZE) = 2 ^ j"
proof -
  assume "12 \<le> j"
  then have "(2 :: nat) ^ j = PAGE4K_SIZE * 2 ^ (j - 12)"
    using power_add [of "2 :: nat" 12 "j - 12"] by (simp add: PAGE4K_SIZE_def)
  then show ?thesis by (simp add: PAGE4K_SIZE_def)
qed

lemma balloon_loop_spec:
  assumes "balloon_loop env (2 ^ k) s = Ret (ok, s')" "12 \<le> k" "k \<le> 47" "sm_max_alloc s = 2 ^ m" "12 \<le> m"
  shows "same_pool s s' \<and> (if ok then \<exists>j. 12 \<le> j \<and> j \<le> Suc k \<and> j \<le> m \<and> grown env (2 ^ j) s s' else same_memory s s')"
  using assms
proof (induction k arbitrary: s rule: less_induct)
  case (less k)
  let ?n = "balloon_size (2 ^ k) (sm_max_alloc s)"
  obtain ret s1 where c: "with_host_call (\<lambda>h. handler_balloon_memory (kv_host env) h 12 (of_nat (?n div PAGE4K_SIZE))
      (sm_end_of_mem s)) s = Ret (ret, s1)"
    and k: "(case ret of None \<Rightarrow> Panic | Some (Inr _) \<Rightarrow> balloon_accept env ?n s1
      | Some (Inl _) \<Rightarrow> if 2 ^ k div 2 < PAGE4K_SIZE then Ret (False, s1) else balloon_loop env (2 ^ k div 2) s1) = Ret (ok, s')"
    using less.prems(1) unfolding balloon_loop.simps [of env "2 ^ k" s] Let_def by (auto simp: obind_Ret)
  note keep = with_host_call_keeps [OF c]
  have n: "?n = 2 ^ min (Suc k) m" using less.prems by (simp add: balloon_size_pow)
  consider r where "ret = Some (Inr r)" "balloon_accept env ?n s1 = Ret (ok, s')"
    | e where "ret = Some (Inl e)" "ok = False" "s' = s1"
    | e where "ret = Some (Inl e)" "\<not> 2 ^ k div 2 < PAGE4K_SIZE" "balloon_loop env (2 ^ k div 2) s1 = Ret (ok, s')"
    using k by (auto split: option.splits sum.splits if_split_asm)
  then show ?case
  proof cases
    case 1
    have "ok" "grown env (2 ^ min (Suc k) m) s s'" "same_pool s s'"
      using balloon_accept_grown [OF 1(2)] grown_cong keep by (auto simp: n same_pool_def)
    moreover have "12 \<le> min (Suc k) m" using less.prems by simp
    ultimately show ?thesis by (auto intro!: exI [of _ "min (Suc k) m"])
  next
    case 2
    then show ?thesis using keep by simp
  next
    case 3
    have h: "(2 :: nat) ^ k div 2 = 2 ^ (k - 1)" using less.prems(2) by (cases k) simp_all
    have "\<not> k - 1 < 12"
    proof
      assume "k - 1 < 12"
      then have "(2 :: nat) ^ (k - 1) < 2 ^ 12" by (rule power_strict_increasing) simp
      then show False using 3(2) by (simp add: h PAGE4K_SIZE_def)
    qed
    moreover have "sm_max_alloc s1 = 2 ^ m" using keep less.prems(4) by (simp add: same_memory_def)
    ultimately have "same_pool s1 s' \<and>
        (if ok then \<exists>j. 12 \<le> j \<and> j \<le> Suc (k - 1) \<and> j \<le> m \<and> grown env (2 ^ j) s1 s' else same_memory s1 s')"
      by (intro less.IH) (use less.prems 3(3) [unfolded h] in simp_all)
    then show ?thesis
      using keep grown_cong [OF keep(2)] same_memory_trans [OF keep(2)] less.prems(2)
      by (fastforce simp: same_pool_def split: if_splits)
  qed
qed

definition alloc_inv :: "('w, 'h) shim \<Rightarrow> bool" where
  "alloc_inv s \<longleftrightarrow> (\<exists>k m. 12 \<le> k \<and> k \<le> m \<and> m \<le> 47 \<and> sm_last_alloc s = 2 ^ k \<and> sm_max_alloc s = 2 ^ m)"

lemma alloc_inv_new:
  assumes "alloc_max_exp cbit meminfo = Ret e" "sm_last_alloc s = 2 ^ MIN_EXP div 2" "sm_max_alloc s = 2 ^ e"
  shows "alloc_inv s"
  unfolding alloc_inv_def
  by (rule exI [of _ 23], rule exI [of _ e]) (use alloc_max_exp_bounds [OF assms(1)] assms in \<open>simp add: MIN_EXP_def\<close>)

lemma validate_range_pages:
  assumes "unat start + PAGE4K_SIZE * c < 2 ^ 64"
  shows "validate_range start (PAGE4K_SIZE * c) = map (\<lambda>i. start + of_nat (PAGE4K_SIZE * i)) [0..<c]"
proof -
  have u: "unat (start + of_nat (PAGE4K_SIZE * c)) = unat start + PAGE4K_SIZE * c"
    using assms by (simp add: unat_word_ariths unat_of_nat del: of_nat_mult)
  show ?thesis
  proof (cases "c = 0")
    case False
    then have "start < start + of_nat (PAGE4K_SIZE * c)" unfolding word_less_nat_alt u by (simp add: PAGE4K_SIZE_def)
    moreover have "(unat start + PAGE4K_SIZE * c - unat start + (PAGE4K_SIZE - 1)) div PAGE4K_SIZE = c"
      by (simp add: PAGE4K_SIZE_def)
    ultimately show ?thesis unfolding validate_range_def Let_def u by simp
  qed (simp add: validate_range_def)
qed


text \<open>An item always needs the host, as its header is staged: a host that refuses fails the call.\<close>

lemma execute_item_refused:
  assumes laws: "call_laws c (staged_call_ok s_ok) c_ok" and host: "\<And>w b. fst (host w b) = Err e"
  shows "\<exists>e h'. execute host h c = Ret (Err e, h')"
proof (cases "reserve_input header_layout (alloc_section (c_stage c)) (alloc_stage (alloc_new (h_addr h) (length (h_block h))))")
  case (Inl e)
  then show ?thesis by (simp add: execute_def)
next
  case (Inr y)
  then obtain s len ref al where y: "y = (((s, len), ref), al)" by (metis surj_pair)
  let ?al = "alloc_stage (alloc_new (h_addr h) (length (h_block h)))"
  from reserve_input_Ok [OF Inr [unfolded y] call_laws.stage_advancing [OF laws]] obtain free b where
    b: "c_stage c \<lparr>a_ptr = a_ptr ?al, a_len = free, a_offset = 0\<rparr> = Ok (s, b)" "len = a_ptr b - a_ptr ?al"
    by blast
  have "staged_call_ok s_ok (a_ptr ?al) (a_ptr b) s"
    using call_laws.stage_ok [OF laws b(1)] by simp
  then have len: "0 < len" using b(2) by (auto simp: staged_call_ok_def in_ref_ok_def)
  from call_laws.execute_staged [OF laws Inr [unfolded y]] obtain x m1 m2 where
    m: "c_commit c s (block_mem h) = Some (x, m1)" "in_ref_copy_from ref end_header m1 = Some ((), m2)" by blast
  have "fst (sally host (with_mem h m2)) = Err e"
    using host by (simp add: sally_def split_beta)
  then obtain h' where "sally host (with_mem h m2) = (Err e, h')"
    by (cases "sally host (with_mem h m2)") auto
  then show ?thesis
    using Inr [unfolded y] m len by (simp add: execute_def Let_def)
qed

lemma handler_balloon_returns:
  "\<exists>r h'. handler_balloon_memory host h size_exponent pages addr = Ret (r, h') \<and> same_frame h h'"
  unfolding handler_balloon_memory_def by (rule exec_returns [OF balloon_memory.item.call_laws_axioms])

definition block_free :: "('w, 'h) shim \<Rightarrow> bool" where
  "block_free s \<longleftrightarrow> hostcall_try_alloc (sm_blocks s) \<noteq> None"

lemma hostcall_free: "hostcall_try_alloc bs \<noteq> None \<longleftrightarrow> list_ex (\<lambda>x. x \<noteq> None) (map (map_option fst) bs)"
  by (induction bs rule: hostcall_try_alloc.induct) auto

lemma same_pool_free: "same_pool s s' \<Longrightarrow> block_free s' = block_free s"
  unfolding same_pool_def block_free_def hostcall_free by simp

lemma with_host_call_returns:
  assumes "block_free s" "\<And>h. \<exists>r h'. f h = Ret (r, h') \<and> P r"
  shows "\<exists>r s'. with_host_call f s = Ret (Some r, s') \<and> P r"
proof -
  obtain i a ws bs where x: "hostcall_try_alloc (sm_blocks s) = Some ((i, (a, ws)), bs)"
    using assms(1) unfolding block_free_def by (metis not_None_eq surj_pair)
  have "i < length bs" using hostcall_try_alloc_Some [OF x] by simp
  moreover obtain r h' where "f \<lparr>h_addr = a, h_block = ws, h_actions = sm_tls s, h_world = sm_world s\<rparr> = Ret (r, h')" "P r"
    using assms(2) by blast
  ultimately show ?thesis by (simp add: with_host_call_def x drop_guard_def)
qed

text \<open>The result of the balloon for a host that refuses every request.\<close>

definition host_refuses :: "('w, 'h) kvm_env \<Rightarrow> bool" where
  "host_refuses env \<longleftrightarrow> (\<forall>h pages addr. \<exists>e h'. handler_balloon_memory (kv_host env) h 12 pages addr = Ret (Err e, h'))"

lemma balloon_loop_refused:
  assumes "host_refuses env" "block_free s"
  shows "\<exists>s'. balloon_loop env l s = Ret (False, s') \<and> same_memory s s' \<and> same_pool s s'"
  using assms(2)
proof (induction l arbitrary: s rule: less_induct)
  case (less l)
  let ?f = "\<lambda>h. handler_balloon_memory (kv_host env) h 12 (of_nat (balloon_size l (sm_max_alloc s) div PAGE4K_SIZE)) (sm_end_of_mem s)"
  have "\<exists>r s1. with_host_call ?f s = Ret (Some r, s1) \<and> (\<exists>e. r = Err e)"
    by (rule with_host_call_returns [OF less.prems]) (use assms(1) in \<open>unfold host_refuses_def, blast\<close>)
  then obtain e s1 where c: "with_host_call ?f s = Ret (Some (Err e), s1)" by blast
  note keep = with_host_call_keeps [OF c]
  have b: "balloon_loop env l s = (if l div 2 < PAGE4K_SIZE then Ret (False, s1) else balloon_loop env (l div 2) s1)"
    unfolding balloon_loop.simps [of env l s] Let_def c by simp
  show ?case
  proof (cases "l div 2 < PAGE4K_SIZE")
    case True
    then show ?thesis using keep b by simp
  next
    case False
    then have "l div 2 < l" by (simp add: PAGE4K_SIZE_def)
    from less.IH [OF this, of s1] obtain s2 where "balloon_loop env (l div 2) s1 = Ret (False, s2)" "same_memory s1 s2" "same_pool s1 s2"
      using same_pool_free [OF keep(1)] less.prems by auto
    then show ?thesis using b False keep same_memory_trans [OF keep(2)] by (auto simp: same_pool_def)
  qed
qed

text \<open>C23: the loop that waits for enough free memory ignores that the balloon failed: when the host refuses
  to give memory and the heap is too small, asking for a chunk never returns, whatever its size and
  whatever the state of the shim. A user of the keep that asks for more memory than the host has does not
  get \<^verbatim>\<open>ENOMEM\<close> but hangs.\<close>

theorem allocation_hangs:
  assumes "host_refuses env" "block_free s" "kv_heap_free env (sm_heap s) < 2 ^ msb sz"
  shows "first_half env sz s = None"
proof -
  have "\<not> (host_refuses env \<and> block_free s \<and> kv_heap_free env (sm_heap s) < n)" if "balloon_until env n s = Some r" for n r
  proof (rule balloon_until.raw_induct [OF _ that])
    fix f :: "('a, 'b) kvm_env \<Rightarrow> nat \<Rightarrow> ('a, 'b) shim \<Rightarrow> ('a, 'b) shim outcome option" and env n s r
    assume IH: "\<And>env n s r. f env n s = Some r \<Longrightarrow> \<not> (host_refuses env \<and> block_free s \<and> kv_heap_free env (sm_heap s) < n)"
      and e: "(if kv_heap_free env (sm_heap s) < n
         then case balloon env s of Ret (_, s) \<Rightarrow> f env n s | Panic \<Rightarrow> Some Panic | UB \<Rightarrow> Some UB | Attacked \<Rightarrow> Some Attacked
         else Some (Ret s)) = Some r"
    show "\<not> (host_refuses env \<and> block_free s \<and> kv_heap_free env (sm_heap s) < n)"
    proof
      assume a: "host_refuses env \<and> block_free s \<and> kv_heap_free env (sm_heap s) < n"
      then obtain s' where "balloon env s = Ret (False, s')" "same_memory s s'" "same_pool s s'"
        using balloon_loop_refused unfolding balloon_def by blast
      then show False using IH [of env n s' r] a e same_pool_free [of s s'] by (simp add: same_memory_def)
    qed
  qed
  then have "balloon_until env (2 ^ msb sz) s = None"
    using assms by (cases "balloon_until env (2 ^ msb sz) s") auto
  then show ?thesis by (simp add: first_half_def Let_def)
qed

text \<open>Chunks: halving a power of two ends with a chunk of a smaller power of two, zeroed, or with a
  null pointer.\<close>

definition chunk_ok :: "nat \<Rightarrow> ('w, 'h) shim \<Rightarrow> ((usize \<times> nat) \<times> ('w, 'h) shim) outcome \<Rightarrow> bool" where
  "chunk_ok k s out \<longleftrightarrow> (case out of
     Ret ((p, n), s') \<Rightarrow> (\<exists>j. 12 \<le> j \<and> j \<le> k \<and> n = 2 ^ j) \<and>
       (sm_mem s' = sm_mem s \<and> p = 0 \<and> n = PAGE4K_SIZE \<or> sm_mem s' = um_write p (replicate n 0) (sm_mem s))
   | _ \<Rightarrow> out = Panic)"

lemma chunk_ok_mono: "chunk_ok k s1 out \<Longrightarrow> sm_mem s1 = sm_mem s \<Longrightarrow> k \<le> k' \<Longrightarrow> chunk_ok k' s out"
  by (force simp: chunk_ok_def split: outcome.splits prod.splits)

lemma try_alloc_half_loop_returns:
  "12 \<le> k \<Longrightarrow> \<exists>out. try_alloc_half_loop env (2 ^ k) s = Some out \<and> chunk_ok k s out"
proof (induction k arbitrary: s rule: less_induct)
  case (less k)
  consider "alloc_pages env (2 ^ k) s = Panic"
    | p s1 where "alloc_pages env (2 ^ k) s = Ret (p, s1)" "sm_mem s1 = sm_mem s"
    by (force simp: alloc_pages_def split_beta split: if_splits)
  then show ?case
  proof cases
    case 1
    then show ?thesis by (subst try_alloc_half_loop.simps) (simp add: chunk_ok_def)
  next
    case (2 p s1)
    show ?thesis
    proof (cases "p = None \<and> k \<noteq> 12")
      case True
      have "(2 :: nat) ^ k \<noteq> 2 ^ 12" using True by (simp only: power_inject_exp) simp
      moreover have "(2 :: nat) ^ k div 2 = 2 ^ (k - 1)" using less.prems by (cases k) simp_all
      ultimately have "try_alloc_half_loop env (2 ^ k) s = try_alloc_half_loop env (2 ^ (k - 1)) s1"
        by (subst try_alloc_half_loop.simps) (use True in \<open>simp add: 2 PAGE4K_SIZE_def\<close>)
      moreover obtain out where "try_alloc_half_loop env (2 ^ (k - 1)) s1 = Some out" "chunk_ok (k - 1) s1 out"
      proof -
        have "k - 1 < k" "12 \<le> k - 1" using less.prems True by auto
        from less.IH [OF this, of s1] that show thesis by blast
      qed
      ultimately show ?thesis using chunk_ok_mono [of "k - 1" s1 _ s k] 2(2) by auto
    next
      case False
      have "chunk_ok k s (Ret ((q, 2 ^ k), s1\<lparr>sm_mem := um_write q (replicate (2 ^ k) 0) (sm_mem s1)\<rparr>))" for q
        using 2 less.prems by (auto simp: chunk_ok_def)
      moreover have "chunk_ok k s (Ret ((0, 2 ^ k), s1))" if "k = 12"
        using 2 that by (auto simp: chunk_ok_def PAGE4K_SIZE_def)
      ultimately show ?thesis
        using False by (subst try_alloc_half_loop.simps, subst 2(1)) (cases p; auto simp: PAGE4K_SIZE_def)
    qed
  qed
qed

lemma try_alloc_half_returns:
  assumes "12 \<le> k"
  shows "\<exists>out. try_alloc_half env (2 ^ k) s = Some out \<and> chunk_ok k s out"
  using try_alloc_half_loop_returns [OF assms, of env s] power_increasing [OF assms, of "2 :: nat"]
  by (simp add: try_alloc_half_def PAGE4K_SIZE_def)

definition kvm_example_env :: "(unit, nat) kvm_env" where
  "kvm_example_env =
     \<lparr>kv_host = (\<lambda>w ws. (Err ENOMEM, \<lambda>i. 0, w)), kv_snp_active = True, kv_cbit_mask = 0x8000000000000,
      kv_pvalidate = (\<lambda>_. True), kv_phys_add = (\<lambda>a n. Some (a + of_nat n)), kv_heap_size = id, kv_heap_free = id,
      kv_heap_extend = (+), kv_heap_init = (\<lambda>_ n _. n),
      kv_heap_first_fit = (\<lambda>n _ h. if n \<le> h then (Some 0x1000, h - n) else (None, h))\<rparr>"

definition kvm_example :: "(unit, nat) shim" where
  "kvm_example =
     \<lparr>sm_blocks = [Some (4096, replicate 20 0)], sm_tls = thread_local_storage_new, sm_world = (), sm_last_alloc = 4096,
      sm_max_alloc = 16384, sm_end_of_mem = 0x200000, sm_heap = 0, sm_mem = (\<lambda>_. 0), sm_validated = []\<rparr>"

lemma example_refuses: "host_refuses kvm_example_env"
  unfolding host_refuses_def handler_balloon_memory_def exec_def
proof (intro allI)
  fix h :: "unit handler" and pages addr
  have host: "fst (kv_host kvm_example_env w b) = Err ENOMEM" for w b by (simp add: kvm_example_env_def)
  obtain e h' where "execute (kv_host kvm_example_env) h (enarx_call (balloon_memory_alloc 12 pages addr)) = Ret (Err e, h')"
    using execute_item_refused [OF balloon_memory.item.call_laws_axioms, of "kv_host kvm_example_env", OF host] by blast
  then show "\<exists>e h'. obind (execute (kv_host kvm_example_env) h (enarx_call (balloon_memory_alloc 12 pages addr)))
      (\<lambda>(r, h). Ret (rbind r (\<lambda>x. x), h)) = Ret (Err e, h')" by simp
qed

lemma example_free: "block_free kvm_example"
  by (simp add: block_free_def kvm_example_def)

lemma example_alloc_inv: "alloc_inv kvm_example"
  unfolding alloc_inv_def by (rule exI [of _ 12], rule exI [of _ 14]) (simp add: kvm_example_def)


theorem allocation_hangs_witness: "first_half kvm_example_env 8192 kvm_example = None"
proof (rule allocation_hangs [OF example_refuses example_free])
  have "kv_heap_free kvm_example_env (sm_heap kvm_example) = 0"
    by (simp add: kvm_example_env_def kvm_example_def)
  then show "kv_heap_free kvm_example_env (sm_heap kvm_example) < 2 ^ msb 8192" by (simp only:) simp
qed

section \<open>Attestation\<close>

lemma um_write_prefix:
  assumes "length bs \<le> n"
  shows "um_write p (bs @ drop (length bs) (um_read m p n)) m = um_write p bs m"
  using assms by (auto simp: um_write_def um_read_def fun_eq_iff nth_append)

text \<open>How an attestation ends once the report has been obtained.\<close>

definition attest_with ::
  "byte list \<Rightarrow> byte list \<Rightarrow> usize \<Rightarrow> usize \<Rightarrow> umem \<Rightarrow> 'v snp \<Rightarrow> ((usize \<times> usize) result \<times> umem \<times> 'v snp) outcome" where
  "attest_with report vcek buf buf_len m g =
     (let enc = der_report_vcek report vcek
      in if unat buf_len < length enc then Panic
         else Ret (Ok (of_nat (length enc), SNP_TECH), um_write buf enc m, g))"

lemma kvm_attestation_report:
  assumes "buf \<noteq> 0" "unat buf_len < isize_limit" "SNP_ATTESTATION_LEN_MAX \<le> unat buf_len"
    and "pf_validate_slice pf u8_layout nonce 64 = Ok ()" "pf_validate_slice_mut pf u8_layout buf buf_len = Ok ()"
    and "snp_get_report env 1 (um_read m nonce 64) (replicate SNP_ATTESTATION_LEN_MAX 0) g = Ret (Ok (skip, n), report_buf, g')"
    and "skip + n \<le> length report_buf" "n < 2 ^ 30" "length vcek < 2 ^ 30"
  shows "kvm_get_attestation True (Ok vcek) env pf nonce 64 buf buf_len (m, g) =
    attest_with (take n (drop skip report_buf)) vcek buf buf_len m g'"
proof -
  let ?report = "take n (drop skip report_buf)"
  have l: "length ?report = n" using assms(7) by simp
  then have "length ?report < 2 ^ 32" using assms(8) by simp
  moreover have "length (vcek @ der ASN_OCTET_STRING ?report) < 2 ^ 32"
    using length_der_length [of n] assms(8,9) l by (simp add: length_der)
  ultimately have "asn1_encode_report_vcek ?report vcek (um_read m buf (unat buf_len)) =
      put_bytes (der_report_vcek ?report vcek) (um_read m buf (unat buf_len))"
    by (simp add: asn1_encode_put)
  then show ?thesis
    using assms(1-7) l
    by (simp add: kvm_get_attestation_def attest_with_def Let_def put_bytes_def um_write_prefix not_less not_le)
qed


text \<open>C8: an attestation, once the firmware has answered with a report that fits its message, ends in one of
  two ways. When the buffer of the user has room for the DER sequence of the endorsement key and the
  report, exactly this sequence is written to it, nothing else in memory changes, and its length is
  returned, so that the key and the report can be decoded from the buffer. Otherwise the shim panics, for
  every buffer that passed the check for the length of a report alone.\<close>

theorem kvm_attestation_exact:
  assumes "buf \<noteq> 0" "unat buf_len < isize_limit" "SNP_ATTESTATION_LEN_MAX \<le> unat buf_len"
    and "pf_validate_slice pf u8_layout nonce 64 = Ok ()" "pf_validate_slice_mut pf u8_layout buf buf_len = Ok ()"
    and "snp_get_report env 1 (um_read m nonce 64) (replicate SNP_ATTESTATION_LEN_MAX 0) g = Ret (Ok (skip, n), report_buf, g')"
    and "skip + n \<le> length report_buf" "n < 2 ^ 30" "length vcek < 2 ^ 30" "der_item vcek = Some (tag, body, [])"
  shows "let report = take n (drop skip report_buf);
      enc = der_report_vcek report vcek;
      out = kvm_get_attestation True (Ok vcek) env pf nonce 64 buf buf_len (m, g)
    in if unat buf_len < length enc then out = Panic
       else \<exists>len m'. out = Ret (Ok (len, SNP_TECH), m', g') \<and> unat len = length enc \<and>
         um_read m' buf (unat len) = enc \<and> decode_report_vcek (um_read m' buf (unat len)) = Some (vcek, report) \<and>
         (\<forall>a. a < unat buf \<or> unat buf + unat len \<le> a \<longrightarrow> m' a = m a)"
proof -
  let ?report = "take n (drop skip report_buf)"
  let ?enc = "der_report_vcek ?report vcek"
  note out = kvm_attestation_report [OF assms(1-9)]
  have l: "length ?report < 2 ^ 32" "length (vcek @ der ASN_OCTET_STRING ?report) < 2 ^ 32"
    using length_der_length [of n] assms(7-9) by (simp_all add: length_der)
  show ?thesis
  proof (cases "unat buf_len < length ?enc")
    case True
    then show ?thesis using out by (simp add: attest_with_def Let_def)
  next
    case False
    have "decode_report_vcek ?enc = Some (vcek, ?report)"
      using der_item_der [OF l(2), of ASN_SECTION_CONSTRUCTED "[]"] der_item_append [OF assms(10), of "der ASN_OCTET_STRING ?report"]
        der_item_der [OF l(1), of ASN_OCTET_STRING "[]"] assms(10)
      by (simp add: decode_report_vcek_def der_report_vcek_def)
    moreover have "unat (of_nat (length ?enc) :: usize) = length ?enc"
      using False unat_usize_less [of buf_len] by (simp add: unat_of_nat usize_limit_def)
    ultimately show ?thesis
      using out False by (auto simp: attest_with_def Let_def) (auto simp: um_write_def)
  qed
qed

theorem kvm_attestation_exact_witness:
  "\<exists>g' len m'. kvm_get_attestation True (Ok [0x30, 1, 5]) snp_example_env UserMemScope 64 64 128 4000 (\<lambda>_. 0, snp_example) =
       Ret (Ok (len, SNP_TECH), m', g') \<and> unat len = 7 \<and> decode_report_vcek (um_read m' 128 (unat len)) = Some ([0x30, 1, 5], [])"
proof -
  obtain g' where r: "snp_get_report snp_example_env 1 (replicate 64 0) (replicate 4000 0) snp_example =
      Ret (Ok (32, 0), replicate 4000 0, g')" using example_report by blast
  have z: "um_read (\<lambda>_. 0) p n = replicate n 0" for p n
    by (simp add: um_read_def map_replicate_const)
  have "length (der_report_vcek [] [0x30, 1, 5]) = 7"
    by (simp add: der_report_vcek_def der_def der_length_def)
  then show ?thesis
    using kvm_attestation_exact [where buf = 128 and buf_len = 4000 and pf = UserMemScope and nonce = 64 and env = snp_example_env and
        m = "\<lambda>_. 0" and g = snp_example and skip = 32 and n = 0 and report_buf = "replicate 4000 0" and g' = g' and
        vcek = "[0x30, 1, 5]" and tag = "0x30" and body = "[5]"] r
    by (auto simp: z SNP_ATTESTATION_LEN_MAX_def SNP_GUEST_MSG_PAYLOAD_LEN_def isize_limit_def UserMemScope_def
        is_aligned_non_null_def split_body_def Let_def)
qed

section \<open>Writing all bytes\<close>

text \<open>Writing all bytes returns when the host never claims to have written nothing.\<close>

lemma shim_write_all_returns:
  assumes "\<And>h bs h'. bs \<noteq> [] \<Longrightarrow> handler_write host h fd bs \<noteq> Ret (Ok 0, h')"
  shows "\<exists>out. shim_write_all host fd bytes s = Some out"
proof -
  have "\<exists>out. write_all_loop host fd bytes n h = Some out" for n h
  proof (induction n arbitrary: h rule: less_induct)
    case (less n)
    let ?out = "handler_write host h fd (drop (length bytes - n) bytes)"
    show ?case
    proof (cases "\<exists>w h'. n \<le> length bytes \<and> ?out = Ret (Ok w, h') \<and> unat w < n")
      case True
      then obtain w h' where w: "n \<le> length bytes" "?out = Ret (Ok w, h')" "unat w < n" by blast
      then have "w \<noteq> 0" using assms [of "drop (length bytes - n) bytes" h h'] by auto
      then have "n - unat w < n" using w(3) by (simp add: unat_gt_0)
      from less.IH [OF this, of h'] w show ?thesis
        by (subst write_all_loop.simps) auto
    next
      case False
      then show ?thesis
        by (subst write_all_loop.simps) (auto split: outcome.splits sum.splits simp: not_less)
    qed
  qed
  then show ?thesis
    by (auto simp: shim_write_all_def split: option.splits)
qed

end
