(* ===== verification/Spec2Isabelle.thy ===== *)
theory Spec2Isabelle
  imports Requests Sgx_Keep Kvm_Shim_Laws
begin

text \<open>
  Verification of Enarx: the protocol between a keep and its host (\<^verbatim>\<open>crates/sallyport\<close>), the SGX shim
  (\<^verbatim>\<open>crates/shim-sgx\<close>), and the parts of the shim for KVM and SEV-SNP (\<^verbatim>\<open>crates/shim-kvm\<close>) that deal with the
  host and the firmware.

  \<^bold>\<open>The program.\<close> A keep is a trusted execution environment that runs a program without an operating
  system. A \<^emph>\<open>shim\<close> catches the system calls of the program. It answers some of them itself and
  passes others to the untrusted host through a \<^emph>\<open>block\<close>, an array of words in shared memory that
  holds a sequence of items: a header with size and kind, the number and arguments of the call, and
  its data. The guest side of sallyport allocates items in the block, lets the host execute them,
  and collects the results; it trusts nothing the host writes. The host side walks the block and
  performs the requests; it trusts nothing the guest wrote.

  \<^bold>\<open>Theories and sources\<close> (paths below \<^verbatim>\<open>crates/sallyport/src\<close> unless stated).

  \<^item> \<open>Prelude\<close>: words, results, checked arithmetic, bytes, and the type \<open>outcome\<close> of code that
    returns, panics, has undefined behaviour or gives up in \<^verbatim>\<open>attacked()\<close>.
  \<^item> \<open>Libc\<close>: constants and structure layouts of \<^verbatim>\<open>libc.rs\<close>.
  \<^item> \<open>Items\<close>: \<^verbatim>\<open>item/\<close>, kinds, headers, payloads and the iterator \<^verbatim>\<open>Block\<close>.
  \<^item> \<open>Phase_Alloc\<close> and \<open>Alloc_Refs\<close>: \<^verbatim>\<open>guest/alloc/\<close>, the allocator with its staging and
    committing phases, and references to input, output and in-out data.
  \<^item> \<open>Calls\<close> and \<open>Call_Laws\<close>: \<^verbatim>\<open>guest/call/\<close>, the traits by which a call is staged, committed
    and collected, as records of operations; their contracts are the locales \<open>call_laws\<close>,
    \<open>kind_laws\<close> and \<open>numbered_laws\<close>.
  \<^item> \<open>Syscalls\<close>, \<open>Syscall_Laws\<close>, \<open>Enarx_Gdb_Calls\<close>, \<open>Stubs\<close>: every call, and the interpretation of
    the contracts for it.
  \<^item> \<open>Handler\<close> and \<open>Handler_Laws\<close>: \<^verbatim>\<open>guest/handler.rs\<close>, the methods of the trait \<^verbatim>\<open>Handler\<close>.
    The state is the record \<open>handler\<close>: block, its address, signal actions and the outside world.
  \<^item> \<open>Host\<close>: \<^verbatim>\<open>host/\<close>, the execution of a block. The kernel is a parameter.
  \<^item> \<open>Requests\<close>: a request of the guest followed through the host and back.
  \<^item> \<open>Platform\<close>: \<^verbatim>\<open>guest/platform.rs\<close>, \<^verbatim>\<open>util/ptr.rs\<close> and \<^verbatim>\<open>UserMemScope\<close> of the SGX shim,
    the validation of pointers of the program.
  \<^item> \<open>Dispatch\<close> and \<open>Dispatch_Laws\<close>: the methods \<^verbatim>\<open>syscall\<close> and \<^verbatim>\<open>mremap\<close> of
    \<^verbatim>\<open>guest/handler.rs\<close>, from the registers of a system call to the memory of the program.
  \<^item> \<open>Sgx_Heap\<close> and \<open>Sgx_Memory\<close>: \<^verbatim>\<open>heap.rs\<close> and the memory methods of
    \<^verbatim>\<open>handler/mod.rs\<close> in \<^verbatim>\<open>crates/shim-sgx/src\<close>.
  \<^item> \<open>Sgx_Shim\<close> and \<open>Sgx_Keep\<close>: the rest of \<^verbatim>\<open>handler/mod.rs\<close> (keys, attestation, exceptions),
    \<^verbatim>\<open>handler/key.rs\<close> and the check in \<^verbatim>\<open>main.rs\<close>; the life of a keep as an inductive predicate.
  \<^item> \<open>Snp_Messages\<close>: \<^verbatim>\<open>snp/ghcb.rs\<close> and \<^verbatim>\<open>snp/secrets_page.rs\<close> of \<^verbatim>\<open>crates/shim-kvm/src\<close>, sealed messages
    to the firmware; \<open>Snp_Attestation\<close>: \<^verbatim>\<open>snp/attestation.rs\<close>, the encoding of an attestation.
  \<^item> \<open>Kvm_Shim\<close> and \<open>Kvm_Shim_Laws\<close>: of \<^verbatim>\<open>crates/shim-kvm/src\<close>, the pool of blocks, keys and attestations
    in \<^verbatim>\<open>hostcall.rs\<close>, the memory balloon in \<^verbatim>\<open>allocator.rs\<close> and the conversions of \<^verbatim>\<open>addr.rs\<close>. The state
    is the record \<open>shim\<close>; the heap of the crate \<^verbatim>\<open>linked_list_allocator\<close> is a parameter.

  \<^bold>\<open>What the lemmas show.\<close> For the guest: whatever the host writes into the block, a call returns
  or gives up; counts are within buffers, bytes after the count are untouched, and calls that are to
  be refused or answered locally do not reach the host. For the host: whatever the guest writes
  into the block, the kernel is asked to access memory only within the data of an item, and the
  requests stay as they were. For the block: iterating over it ends, and yields the items that were
  put into it. For the two together: a read and a write arrive at the kernel and come back. For the
  dispatcher: a system call changes only the memory its arguments name, and returns. For the SGX
  shim: through every sequence of exceptions, with the program and the host acting in between, the heap
  stays well formed and no page is writable and executable; handling an exception ends, and panics
  only for listed reasons. For the KVM shim: no two messages to the firmware are sealed with one nonce, an
  attestation is the encoding of key and report, host calls in flight do not share a block, and memory from
  the host is validated before it is used; a replayed report is accepted and a refusal of memory hangs.

  \<^bold>\<open>Conventions.\<close> \<^verbatim>\<open>usize\<close> is a 64-bit word and \<^verbatim>\<open>c_int\<close> a 32-bit word; arithmetic wraps as in
  a release build, and checked arithmetic is an option. Addresses and lengths that are checked to fit
  are natural numbers. A result is a sum with the error number on the left. Loops that may run for
  ever (\<^verbatim>\<open>rdrand_loop\<close>, \<^verbatim>\<open>validate_str\<close>, the search for a chunk) are partial functions with the value \<open>None\<close> for
  not returning, with theorems that say when they return; no definition uses fuel. The host of the guest side
  is an arbitrary function from the block it is given to the block it returns. Code outside the
  repository is a parameter: the Linux kernel, the instructions \<^verbatim>\<open>rdrand\<close>, \<^verbatim>\<open>cpuid\<close> and those of
  the enclave page cache, and the ledger of the crate \<^verbatim>\<open>mmledger\<close>, whose documented behaviour is the
  hypothesis \<open>ledger_ok\<close>.

  \<^bold>\<open>Not modelled.\<close> Debugging output and GDB sessions; the naked functions at the start of the SGX shim and the start,
  the interrupts and the page tables of the shim for KVM and SEV-SNP, which are assembly, privileged instructions
  and calls into the crate \<^verbatim>\<open>x86_64\<close>; the backends, which are ioctls on devices; the command line, the drawbridge client, the
  configuration and the WebAssembly runtime, which are calls into third-party crates. The memory of
  the program is flat: that a pointer the validation accepts is mapped is outside the model, as the
  validation does not check it. Threads share no state in the model.
\<close>

end
